(* ===== verification/Prelude.thy ===== *)
theory Prelude
  imports Main "HOL-Library.Sublist" "HOL-Library.Word"
begin

text \<open>
  Shared vocabulary of the development: the types that stand for Go's strings, byte slices and
  fixed-width integers, the functions of package \<open>strings\<close> that the gateway calls, and the
  generic facts on lists and prefixes that the component theories use.

  A Go string is a sequence of bytes, so it is modelled by \<^typ>\<open>string\<close> (a list of
  8-bit characters); letters outside ASCII are written as their UTF-8 bytes. A signed 64-bit
  integer is an \<^typ>\<open>int\<close> with the wrap-around of \<open>wrap64\<close> written where the code's
  arithmetic can leave the range; an unsigned 64-bit counter is a \<^typ>\<open>64 word\<close>.
\<close>

named_theorems path_simps \<open>rewrite rules for cleaned paths and their components\<close>

section \<open>Bytes, strings and integers\<close>

type_synonym bytes = "8 word list"
type_synonym time = int
type_synonym duration = int

definition wrap64 :: "int \<Rightarrow> int" where
  "wrap64 x = (x + 2 ^ 63) mod 2 ^ 64 - 2 ^ 63"

lemma wrap64_id [simp]: "- (2 ^ 63) \<le> x \<Longrightarrow> x < 2 ^ 63 \<Longrightarrow> wrap64 x = x"
  by (simp add: wrap64_def)

lemma wrap64_range: "- (2 ^ 63) \<le> wrap64 x \<and> wrap64 x < 2 ^ 63"
proof -
  have "0 \<le> (x + 2 ^ 63) mod (2 ^ 64 :: int)" and "(x + 2 ^ 63) mod (2 ^ 64 :: int) < 2 ^ 64"
    by (rule pos_mod_sign, simp) (rule pos_mod_bound, simp)
  then show ?thesis
    by (simp add: wrap64_def)
qed

text \<open>UTF-8 spellings of the accented letters in the gateway's messages.\<close>

abbreviation a_acute :: string where "a_acute \<equiv> [CHR 0xC3, CHR 0xA1]"
abbreviation i_acute :: string where "i_acute \<equiv> [CHR 0xC3, CHR 0xAD]"
abbreviation o_acute :: string where "o_acute \<equiv> [CHR 0xC3, CHR 0xB3]"
abbreviation u_acute :: string where "u_acute \<equiv> [CHR 0xC3, CHR 0xBA]"
abbreviation n_tilde :: string where "n_tilde \<equiv> [CHR 0xC3, CHR 0xB1]"

text \<open>The \<open>%d\<close> verb of package fmt.\<close>

definition digit_char :: "nat \<Rightarrow> char" where
  "digit_char n = char_of (48 + n)"

fun dec_nat :: "nat \<Rightarrow> string" where
  "dec_nat n = (if n < 10 then [digit_char n] else dec_nat (n div 10) @ [digit_char (n mod 10)])"

declare dec_nat.simps [simp del]

definition fmt_d :: "int \<Rightarrow> string" where
  "fmt_d i = (if i < 0 then CHR ''-'' # dec_nat (nat (- i)) else dec_nat (nat i))"

text \<open>\<open>hex.EncodeToString\<close>.\<close>

definition hex_digit :: "nat \<Rightarrow> char" where
  "hex_digit n = (if n < 10 then char_of (48 + n) else char_of (87 + n))"

definition hex_encode :: "bytes \<Rightarrow> string" where
  "hex_encode bs = concat (map (\<lambda>b. [hex_digit (unat b div 16), hex_digit (unat b mod 16)]) bs)"

text \<open>The \<open>%x\<close> verb on an unsigned value.\<close>

fun hex_nat :: "nat \<Rightarrow> string" where
  "hex_nat n = (if n < 16 then [hex_digit n] else hex_nat (n div 16) @ [hex_digit (n mod 16)])"

declare hex_nat.simps [simp del]

lemma hex_digit_inj: "m < 16 \<Longrightarrow> n < 16 \<Longrightarrow> hex_digit m = hex_digit n \<longleftrightarrow> m = n"
  by (auto simp: hex_digit_def split: if_splits)

lemma hex_digit_range: "n < 16 \<Longrightarrow> of_char (hex_digit n) \<in> {48..57} \<union> ({97..102} :: nat set)"
  by (auto simp: hex_digit_def)

lemma hex_encode_Cons: "hex_encode (b # bs) = hex_digit (unat b div 16) # hex_digit (unat b mod 16) # hex_encode bs"
  by (simp add: hex_encode_def)

lemma length_hex_encode [simp]: "length (hex_encode bs) = 2 * length bs"
  by (induction bs) (simp_all add: hex_encode_Cons, simp add: hex_encode_def)

lemma unat_byte_div: "unat (b :: 8 word) div 16 < 16"
  using unsigned_less [of b, where ?'a = nat] by simp

lemma hex_encode_inj: "length xs = length ys \<Longrightarrow> hex_encode xs = hex_encode ys \<longleftrightarrow> xs = ys"
proof (induction xs ys rule: list_induct2)
  case (Cons x xs y ys)
  have "x = y" if "unat x div 16 = unat y div 16" "unat x mod 16 = unat y mod 16"
    using that by (metis div_mult_mod_eq unsigned_word_eqI)
  with Cons show ?case
    by (auto simp: hex_encode_Cons hex_digit_inj unat_byte_div)
qed simp

section \<open>Package strings\<close>

definition HasPrefix :: "string \<Rightarrow> string \<Rightarrow> bool" where
  "HasPrefix s p \<longleftrightarrow> prefix p s"

definition TrimPrefix :: "string \<Rightarrow> string \<Rightarrow> string" where
  "TrimPrefix s p = (if HasPrefix s p then drop (length p) s else s)"

definition Contains :: "string \<Rightarrow> string \<Rightarrow> bool" where
  "Contains s t \<longleftrightarrow> sublist t s"

lemma TrimPrefix_append [simp]: "TrimPrefix (p @ s) p = s"
  by (simp add: TrimPrefix_def HasPrefix_def)

lemma TrimPrefix_Cons [simp]: "TrimPrefix (c # s) [c] = s"
  by (simp add: TrimPrefix_def HasPrefix_def)

lemma TrimPrefix_no_prefix: "\<not> prefix p s \<Longrightarrow> TrimPrefix s p = s"
  by (simp add: TrimPrefix_def HasPrefix_def)

lemma Contains_append [simp]: "Contains (xs @ t @ ys) t"
  unfolding Contains_def by (auto simp: sublist_def)

section \<open>Lists and prefixes\<close>

lemma prefix_append_cancel: "prefix (xs @ ys) (xs @ zs) \<longleftrightarrow> prefix ys zs"
  by simp

text \<open>
  A separator-free block followed by the separator is determined by the whole list: the
  decomposition used wherever a path is cut at a slash.
\<close>

lemma append_sep_eq:
  assumes "c \<notin> set xs" and "c \<notin> set ys"
  shows "xs @ c # us = ys @ c # vs \<longleftrightarrow> xs = ys \<and> us = vs"
  using assms
proof (induction xs arbitrary: ys)
  case Nil
  then show ?case by (cases ys) auto
next
  case (Cons x xs)
  then show ?case by (cases ys) auto
qed

lemma append_sep_neq: "c \<notin> set ys \<Longrightarrow> xs @ c # us \<noteq> ys"
  by auto

end
