(* ===== verification/Effects.thy ===== *)
theory Effects
  imports Prelude "HOL-Library.State_Monad"
begin

text \<open>
  Stateful code is written in the state monad of the library. This theory holds the few
  operations the components use on top of it, and the rules for three kinds of facts about a
  computation: what it may append to a trace (\<open>emits\<close>), what part of the state it leaves
  alone (\<open>keeps\<close>) and what function it is on an observed part (\<open>acts\<close>). The
  first two are instances of one locale, a guarantee that is reflexive and transitive, in which the rules for sequencing and branching are proved once.
\<close>

abbreviation return :: "'a \<Rightarrow> ('w, 'a) state" where "return \<equiv> State_Monad.return"

definition gets :: "('w \<Rightarrow> 'a) \<Rightarrow> ('w, 'a) state" where
  "gets f = State (\<lambda>w. (f w, w))"

definition modify :: "('w \<Rightarrow> 'w) \<Rightarrow> ('w, unit) state" where
  "modify f = State (\<lambda>w. ((), f w))"

lemma run_gets [simp]: "run_state (gets f) w = (f w, w)"
  by (simp add: gets_def)

lemma run_modify [simp]: "run_state (modify f) w = ((), f w)"
  by (simp add: modify_def)

section \<open>Guarantees of a computation\<close>

locale guarantee =
  fixes R :: "'w \<Rightarrow> 'w \<Rightarrow> bool"
  assumes refl: "R w w"
    and trans: "R u v \<Longrightarrow> R v w \<Longrightarrow> R u w"
begin

lemma g_return: "state_io_rel R (return x)"
  by (auto simp: state_io_rel_def refl)

lemma g_gets: "state_io_rel R (gets f)"
  by (auto simp: state_io_rel_def refl)

lemma g_bind:
  assumes "state_io_rel R m" and "\<And>x. state_io_rel R (f x)"
  shows "state_io_rel R (State_Monad.bind m f)"
  using assms by (auto simp: state_io_rel_def split: prod.splits intro: trans)

lemma g_if:
  assumes "b \<Longrightarrow> state_io_rel R m1" and "\<not> b \<Longrightarrow> state_io_rel R m2"
  shows "state_io_rel R (if b then m1 else m2)"
  using assms by simp

lemma g_sum:
  assumes "\<And>a. x = Inl a \<Longrightarrow> state_io_rel R (f a)" and "\<And>b. x = Inr b \<Longrightarrow> state_io_rel R (g b)"
  shows "state_io_rel R (case x of Inl a \<Rightarrow> f a | Inr b \<Rightarrow> g b)"
  using assms by (cases x) auto

lemma g_option:
  assumes "x = None \<Longrightarrow> state_io_rel R m" and "\<And>a. x = Some a \<Longrightarrow> state_io_rel R (f a)"
  shows "state_io_rel R (case x of None \<Rightarrow> m | Some a \<Rightarrow> f a)"
  using assms by (cases x) auto

lemma g_prod:
  assumes "\<And>a b. x = (a, b) \<Longrightarrow> state_io_rel R (f a b)"
  shows "state_io_rel R (case x of (a, b) \<Rightarrow> f a b)"
  using assms by (cases x) auto

end

text \<open>\<open>grows\<close>: the trace is extended, and only with entries that satisfy the predicate.\<close>

definition grows :: "('w \<Rightarrow> 'q list) \<Rightarrow> ('q \<Rightarrow> bool) \<Rightarrow> 'w \<Rightarrow> 'w \<Rightarrow> bool" where
  "grows tr P w w' \<longleftrightarrow> (\<exists>qs. tr w' = tr w @ qs \<and> list_all P qs)"

definition emits :: "('w \<Rightarrow> 'q list) \<Rightarrow> ('q \<Rightarrow> bool) \<Rightarrow> ('w, 'a) state \<Rightarrow> bool" where
  "emits tr P m \<longleftrightarrow> state_io_rel (grows tr P) m"

definition keeps :: "('w \<Rightarrow> 'b) \<Rightarrow> ('w, 'a) state \<Rightarrow> bool" where
  "keeps f m \<longleftrightarrow> state_io_rel (\<lambda>w w'. f w' = f w) m"

interpretation grow: guarantee "grows tr P" for tr P
proof unfold_locales
  show "grows tr P w w" for w by (simp add: grows_def)
next
  show "grows tr P u w" if "grows tr P u v" "grows tr P v w" for u v w
    using that by (auto simp: grows_def)
qed

interpretation keep: guarantee "\<lambda>w w'. f w' = f w" for f
  by unfold_locales auto

named_theorems emits_rules \<open>rules for what a computation appends to a trace\<close>
named_theorems keeps_rules \<open>rules for the parts of the state a computation leaves alone\<close>

lemmas emits_return [emits_rules] = grow.g_return [folded emits_def]
lemmas emits_gets [emits_rules] = grow.g_gets [folded emits_def]
lemmas emits_bind [emits_rules] = grow.g_bind [folded emits_def]
lemmas emits_if [emits_rules] = grow.g_if [folded emits_def]
lemmas emits_sum [emits_rules] = grow.g_sum [folded emits_def]
lemmas emits_option [emits_rules] = grow.g_option [folded emits_def]
lemmas emits_prod [emits_rules] = grow.g_prod [folded emits_def]

lemmas keeps_basic [keeps_rules] =
  keep.g_return [folded keeps_def] keep.g_gets [folded keeps_def] keep.g_bind [folded keeps_def]
  keep.g_if [folded keeps_def] keep.g_sum [folded keeps_def] keep.g_option [folded keeps_def]
  keep.g_prod [folded keeps_def]

lemma emits_modify [emits_rules]: "(\<And>w. tr (f w) = tr w) \<Longrightarrow> emits tr P (modify f)"
  by (auto simp: emits_def state_io_rel_def grows_def)

lemma keeps_modify [keeps_rules]: "(\<And>w. g (f w) = g w) \<Longrightarrow> keeps g (modify f)"
  by (auto simp: keeps_def state_io_rel_def)

lemma emits_mono: "emits tr P m \<Longrightarrow> (\<And>q. P q \<Longrightarrow> Q q) \<Longrightarrow> emits tr Q m"
  unfolding emits_def state_io_rel_def grows_def by (metis list.pred_mono_strong)

text \<open>Sequencing when the continuation depends on what the first part can return.\<close>

lemma emits_bind_results:
  assumes "emits tr P m" and "\<And>w x w'. run_state m w = (x, w') \<Longrightarrow> emits tr P (f x)"
  shows "emits tr P (State_Monad.bind m f)"
proof -
  have "grows tr P w (snd (run_state (State_Monad.bind m f) w))" for w
  proof -
    obtain x w' where m: "run_state m w = (x, w')" by fastforce
    then have "grows tr P w w'" using assms(1) by (auto simp: emits_def)
    moreover have "grows tr P w' (snd (run_state (f x) w'))"
      using assms(2) [OF m] by (simp add: emits_def state_io_rel_def)
    ultimately show ?thesis using m by (auto intro: grow.trans)
  qed
  then show ?thesis by (simp add: emits_def state_io_rel_def)
qed

lemma emitsE:
  assumes "emits tr P m" and "run_state m w = (x, w')"
  obtains qs where "tr w' = tr w @ qs" and "list_all P qs"
proof -
  have "grows tr P w w'" using assms by (auto simp: emits_def)
  with that show thesis by (auto simp: grows_def)
qed

lemma emits_grows: "emits tr P m \<Longrightarrow> run_state m w = (x, w') \<Longrightarrow> grows tr P w w'"
  by (auto simp: emits_def)

lemma emitsI: "(\<And>w x w'. run_state m w = (x, w') \<Longrightarrow> grows tr P w w') \<Longrightarrow> emits tr P m"
  by (simp add: emits_def state_io_rel_def) (metis prod.collapse)

lemma keepsD: "keeps f m \<Longrightarrow> run_state m w = (x, w') \<Longrightarrow> f w' = f w"
  by (auto simp: keeps_def)

lemma keeps_bind_results:
  assumes "keeps f m" and "\<And>w x w'. run_state m w = (x, w') \<Longrightarrow> keeps f (k x)"
  shows "keeps f (State_Monad.bind m k)"
proof -
  have "f (snd (run_state (State_Monad.bind m k) w)) = f w" for w
  proof -
    obtain x w' where m: "run_state m w = (x, w')" by fastforce
    moreover obtain y w'' where "run_state (k x) w' = (y, w'')" by fastforce
    ultimately show ?thesis using keepsD [OF assms(1) m] keepsD [OF assms(2) [OF m]] by simp
  qed
  then show ?thesis by (simp add: keeps_def state_io_rel_def)
qed

lemma keepsI: "(\<And>w x w'. run_state m w = (x, w') \<Longrightarrow> f w' = f w) \<Longrightarrow> keeps f m"
  by (simp add: keeps_def state_io_rel_def) (metis prod.collapse)

lemma keeps_emits: "keeps tr m \<Longrightarrow> emits tr P m"
  by (auto simp: keeps_def emits_def state_io_rel_def grows_def)

text \<open>\<open>acts f F m\<close>: seen through \<open>f\<close>, the computation is the function \<open>F\<close>.\<close>

definition acts :: "('w \<Rightarrow> 'b) \<Rightarrow> ('b \<Rightarrow> 'b) \<Rightarrow> ('w, 'a) state \<Rightarrow> bool" where
  "acts f F m \<longleftrightarrow> state_io_rel (\<lambda>w w'. f w' = F (f w)) m"

lemma actsD: "acts f F m \<Longrightarrow> run_state m w = (x, w') \<Longrightarrow> f w' = F (f w)"
  by (auto simp: acts_def)

lemma actsI: "(\<And>w x w'. run_state m w = (x, w') \<Longrightarrow> f w' = F (f w)) \<Longrightarrow> acts f F m"
  by (simp add: acts_def state_io_rel_def) (metis prod.collapse)

lemma keeps_acts: "keeps f m \<Longrightarrow> acts f id m"
  by (simp add: keeps_def acts_def)

lemma acts_bind: "acts f F m \<Longrightarrow> (\<And>x. acts f G (k x)) \<Longrightarrow> acts f (G \<circ> F) (State_Monad.bind m k)"
  unfolding acts_def state_io_rel_def by (simp split: prod.split) (metis snd_conv)

lemma acts_after_keeps: "keeps f m \<Longrightarrow> (\<And>x. acts f G (k x)) \<Longrightarrow> acts f G (State_Monad.bind m k)"
  using acts_bind [of f "\<lambda>x. x" m G k] by (simp add: acts_def keeps_def comp_def)

lemma acts_before_return: "acts f F m \<Longrightarrow> acts f F (State_Monad.bind m (\<lambda>x. return (g x)))"
  using acts_bind [of f F m "\<lambda>x. x" "\<lambda>x. return (g x)"] by (simp add: acts_def comp_def keep.g_return)

end
