(* ===== verification/Errors.thy ===== *)
theory Errors
  imports Prelude
begin

text \<open>
  Package \<open>internal/errors\<close>: the domain error taxonomy. A Go \<open>error\<close> value is one of

  \<^item> a \<open>*Error\<close> of this package, with its kind, operation, wire-safe message and cause;
  \<^item> an error made by a library or the operating system, of which the gateway observes the
    text, the sentinels it matches under \<open>errors.Is\<close> / \<open>errors.As\<close>, and the answer of
    a \<open>Timeout()\<close> method when it has one;
  \<^item> an error built by \<open>fmt.Errorf\<close> with \<open>%w\<close>, with its text and the error it wraps.

  The theorems show that the text that may cross the protocol boundary never depends on the
  cause, and how kinds survive wrapping.
\<close>

datatype Kind =
    KindConfig | KindAuthentication | KindAuthorization | KindInvalidPath
  | KindUnsupportedCommand | KindConflict | KindNotFound | KindSSHConnection
  | KindHostKeyMismatch | KindSFTPAuthentication | KindTimeout | KindDisconnected
  | KindPartialWrite | KindRemoteStorageFull | KindRemotePermissionDenied
  | KindRateLimited | KindInternal

fun kind_string :: "Kind \<Rightarrow> string" where
  "kind_string KindConfig = ''config''"
| "kind_string KindAuthentication = ''authentication''"
| "kind_string KindAuthorization = ''authorization''"
| "kind_string KindInvalidPath = ''invalid_path''"
| "kind_string KindUnsupportedCommand = ''unsupported_command''"
| "kind_string KindConflict = ''conflict''"
| "kind_string KindNotFound = ''not_found''"
| "kind_string KindSSHConnection = ''ssh_connection''"
| "kind_string KindHostKeyMismatch = ''host_key_mismatch''"
| "kind_string KindSFTPAuthentication = ''sftp_authentication''"
| "kind_string KindTimeout = ''timeout''"
| "kind_string KindDisconnected = ''disconnected''"
| "kind_string KindPartialWrite = ''partial_write''"
| "kind_string KindRemoteStorageFull = ''remote_storage_full''"
| "kind_string KindRemotePermissionDenied = ''remote_permission_denied''"
| "kind_string KindRateLimited = ''rate_limited''"
| "kind_string KindInternal = ''internal''"

text \<open>What \<open>errors.Is\<close> and \<open>errors.As\<close> can ask of an error that is not a domain error.\<close>

datatype sentinel = EOF | ErrNotExist | ErrPermission | DeadlineExceeded | KnownHostsKeyError

datatype go_error =
    DomainError Kind string string "go_error option"
  | ForeignError string "sentinel list" "bool option"
  | WrappedError string go_error

type_synonym 'a result = "go_error + 'a"

definition New :: "Kind \<Rightarrow> string \<Rightarrow> string \<Rightarrow> go_error" where
  "New kind op message = DomainError kind op message None"

definition Wrap :: "Kind \<Rightarrow> string \<Rightarrow> string \<Rightarrow> go_error \<Rightarrow> go_error" where
  "Wrap kind op message cause = DomainError kind op message (Some cause)"

fun Error :: "go_error \<Rightarrow> string" where
  "Error (DomainError kind op message cause) = (if message \<noteq> [] then message else kind_string kind)"
| "Error (ForeignError text marks timeout) = text"
| "Error (WrappedError text inner) = text"

fun Unwrap :: "go_error \<Rightarrow> go_error option" where
  "Unwrap (DomainError kind op message cause) = cause"
| "Unwrap (ForeignError text marks timeout) = None"
| "Unwrap (WrappedError text inner) = Some inner"

text \<open>\<open>stderrors.Is\<close> against a library sentinel: the chain of causes is searched.\<close>

fun std_Is :: "go_error \<Rightarrow> sentinel \<Rightarrow> bool" where
  "std_Is (DomainError kind op message None) s = False"
| "std_Is (DomainError kind op message (Some c)) s = std_Is c s"
| "std_Is (ForeignError text marks timeout) s = (s \<in> set marks)"
| "std_Is (WrappedError text inner) s = std_Is inner s"

text \<open>\<open>stderrors.As\<close> with a target of type \<open>interface{ Timeout() bool }\<close>.\<close>

fun std_As_timeout :: "go_error \<Rightarrow> bool option" where
  "std_As_timeout (DomainError kind op message None) = None"
| "std_As_timeout (DomainError kind op message (Some c)) = std_As_timeout c"
| "std_As_timeout (ForeignError text marks timeout) = timeout"
| "std_As_timeout (WrappedError text inner) = std_As_timeout inner"

text \<open>\<open>stderrors.As\<close> with a target of type \<open>*Error\<close>: the kind of the first domain error.\<close>

fun std_As_kind :: "go_error \<Rightarrow> Kind option" where
  "std_As_kind (DomainError kind op message cause) = Some kind"
| "std_As_kind (ForeignError text marks timeout) = None"
| "std_As_kind (WrappedError text inner) = std_As_kind inner"

text \<open>The method \<open>(*Error).Is\<close>: a comparison by kind with any error that wraps a domain error.\<close>

definition Error_Is :: "Kind \<Rightarrow> go_error \<Rightarrow> bool" where
  "Error_Is self_kind target =
     (case std_As_kind target of None \<Rightarrow> False | Some k \<Rightarrow> k = self_kind)"

definition KindOf :: "go_error \<Rightarrow> Kind" where
  "KindOf err = (case std_As_kind err of Some k \<Rightarrow> k | None \<Rightarrow> KindInternal)"

definition Is :: "go_error \<Rightarrow> Kind \<Rightarrow> bool" where
  "Is err kind \<longleftrightarrow> KindOf err = kind"

text \<open>
  \<open>LogValue\<close>, the form for logs only. The argument \<open>quote\<close> is the \<open>%q\<close> verb of
  package fmt.
\<close>

fun LogValue :: "(string \<Rightarrow> string) \<Rightarrow> go_error \<Rightarrow> string" where
  "LogValue quote (DomainError kind op message (Some c)) =
     ''op='' @ op @ '' kind='' @ kind_string kind @ '' message='' @ quote message
       @ '' cause='' @ quote (Error c)"
| "LogValue quote (DomainError kind op message None) =
     ''op='' @ op @ '' kind='' @ kind_string kind @ '' message='' @ quote message"
| "LogValue quote e = Error e"

section \<open>Lemmas\<close>

lemma KindOf_simps [simp]:
  "KindOf (DomainError k op m c) = k"
  "KindOf (New k op m) = k"
  "KindOf (Wrap k op m e) = k"
  "KindOf (ForeignError t marks tm) = KindInternal"
  "KindOf (WrappedError t e) = KindOf e"
  by (simp_all add: KindOf_def New_def Wrap_def)

lemma std_Is_New [simp]: "\<not> std_Is (New k op m) s"
  by (simp add: New_def)

lemma std_Is_Wrap [simp]: "std_Is (Wrap k op m e) s = std_Is e s"
  by (simp add: Wrap_def)

lemma Error_New [simp]: "m \<noteq> [] \<Longrightarrow> Error (New k op m) = m"
  by (simp add: New_def)

lemma kind_string_inj: "kind_string a = kind_string b \<longleftrightarrow> a = b"
  by (cases a; cases b; simp)

lemma kind_string_nonempty [simp]: "kind_string k \<noteq> []"
  by (cases k) simp_all

text \<open>
  What a protocol client sees of a domain error is fixed by its kind and message: wrapping
  a different internal cause never changes \<open>Error()\<close>, the text is never empty, the cause
  stays reachable through \<open>Unwrap\<close> only, and \<open>errors.Is\<close> still finds every library
  sentinel of the cause.
\<close>

theorem Error_hides_cause:
  "Error (Wrap k op m c) = Error (New k op m) \<and> Error (Wrap k op m c) \<noteq> []
   \<and> Unwrap (Wrap k op m c) = Some c \<and> Unwrap (New k op m) = None
   \<and> (\<forall>s. std_Is (Wrap k op m c) s = std_Is c s)"
  by (simp add: Wrap_def New_def)

end
