(* ===== verification/GoPath.thy ===== *)
theory GoPath
  imports Prelude
begin

text \<open>
  Package \<open>path\<close> of the Go standard library, as the gateway uses it: \<open>IsAbs\<close>,
  \<open>Clean\<close>, \<open>Join\<close>, \<open>Split\<close>, \<open>Dir\<close> and \<open>Base\<close>. The functions work on
  the bytes of the path, as in Go. The lemmas describe them on rooted paths by the list of
  their components: \<open>abs_path cs\<close> is the cleaned rooted path with components \<open>cs\<close>,
  and every result the gateway computes with these functions is of that form.
\<close>

abbreviation slash :: char where "slash \<equiv> CHR ''/''"

section \<open>Cutting and joining at slashes\<close>

fun split_slash :: "string \<Rightarrow> string list" where
  "split_slash [] = [[]]"
| "split_slash (c # s) =
     (if c = slash then [] # split_slash s
      else (case split_slash s of [] \<Rightarrow> [[c]] | x # xs \<Rightarrow> (c # x) # xs))"

fun join_slash :: "string list \<Rightarrow> string" where
  "join_slash [] = []"
| "join_slash [c] = c"
| "join_slash (c # d # cs) = c @ slash # join_slash (d # cs)"

section \<open>The functions of package path\<close>

definition path_IsAbs :: "string \<Rightarrow> bool" where
  "path_IsAbs p \<longleftrightarrow> (case p of [] \<Rightarrow> False | c # _ \<Rightarrow> c = slash)"

text \<open>
  The loop of \<open>Clean\<close> over the components: \<open>out\<close> holds the components kept so far, the
  last one first. An empty component or \<open>.\<close> is dropped; \<open>..\<close> drops the last kept
  component when there is one that is not itself \<open>..\<close>, is dropped at the root, and is kept
  at the start of a relative path.
\<close>

fun clean_loop :: "bool \<Rightarrow> string list \<Rightarrow> string list \<Rightarrow> string list" where
  "clean_loop rooted [] out = out"
| "clean_loop rooted (c # cs) out =
     (if c = [] \<or> c = ''.'' then clean_loop rooted cs out
      else if c = ''..'' then
        (case out of
           [] \<Rightarrow> clean_loop rooted cs (if rooted then [] else [''..''])
         | d # ds \<Rightarrow> clean_loop rooted cs (if d = ''..'' then ''..'' # d # ds else ds))
      else clean_loop rooted cs (c # out))"

definition path_Clean :: "string \<Rightarrow> string" where
  "path_Clean p =
     (if p = [] then ''.''
      else let rooted = path_IsAbs p;
               cs = rev (clean_loop rooted (split_slash p) [])
           in if rooted then slash # join_slash cs
              else if cs = [] then ''.'' else join_slash cs)"

definition join_append :: "string \<Rightarrow> string \<Rightarrow> string" where
  "join_append buf e =
     (if buf \<noteq> [] \<or> e \<noteq> [] then (if buf \<noteq> [] then buf @ [slash] else buf) @ e else buf)"

definition path_Join :: "string list \<Rightarrow> string" where
  "path_Join es = (if concat es = [] then [] else path_Clean (foldl join_append [] es))"

definition path_Split :: "string \<Rightarrow> string \<times> string" where
  "path_Split p =
     (let f = rev (takeWhile (\<lambda>c. c \<noteq> slash) (rev p)) in (take (length p - length f) p, f))"

definition path_Dir :: "string \<Rightarrow> string" where
  "path_Dir p = path_Clean (fst (path_Split p))"

definition path_Base :: "string \<Rightarrow> string" where
  "path_Base p =
     (if p = [] then ''.''
      else let q = rev (dropWhile (\<lambda>c. c = slash) (rev p));
               b = snd (path_Split q)
           in if b = [] then [slash] else b)"

section \<open>Components\<close>

definition plain_comp :: "string \<Rightarrow> bool" where
  "plain_comp c \<longleftrightarrow> c \<noteq> [] \<and> c \<noteq> ''.'' \<and> c \<noteq> ''..'' \<and> slash \<notin> set c"

definition abs_path :: "string list \<Rightarrow> string" where
  "abs_path cs = slash # join_slash cs"

text \<open>The cleaned rooted paths: the values \<open>path.Clean("/" + p)\<close> can take.\<close>

definition clean_abs :: "string \<Rightarrow> bool" where
  "clean_abs p \<longleftrightarrow> path_IsAbs p \<and> path_Clean p = p"

text \<open>The components of a path after lexical resolution from the root.\<close>

definition rooted_comps :: "string \<Rightarrow> string list" where
  "rooted_comps p = rev (clean_loop True (split_slash p) [])"

abbreviation plain_list :: "string list \<Rightarrow> bool" where
  "plain_list cs \<equiv> list_all plain_comp cs"

lemma plain_compD:
  assumes "plain_comp c"
  shows "c \<noteq> []" and "c \<noteq> ''.''" and "c \<noteq> ''..''" and "slash \<notin> set c"
  using assms by (simp_all add: plain_comp_def)

lemma join_slash_Cons: "join_slash (c # cs) = (if cs = [] then c else c @ slash # join_slash cs)"
  by (cases cs) auto

lemma join_slash_append:
  "join_slash (xs @ ys) =
     (if xs = [] then join_slash ys else if ys = [] then join_slash xs
      else join_slash xs @ slash # join_slash ys)"
  by (induction xs) (auto simp: join_slash_Cons)

lemma split_slash_nonempty [simp]: "split_slash s \<noteq> []"
  by (induction s) (auto split: list.splits)

lemma split_slash_no_slash: "c \<in> set (split_slash s) \<Longrightarrow> slash \<notin> set c"
  by (induction s arbitrary: c) (auto split: list.splits if_splits)

lemma split_slash_append_slash:
  "split_slash (xs @ slash # ys) = split_slash xs @ split_slash ys"
  by (induction xs) (auto split: list.splits simp: Cons_eq_append_conv append_eq_Cons_conv)

lemma split_slash_single: "slash \<notin> set c \<Longrightarrow> split_slash c = [c]"
  by (induction c) auto

lemma split_join_slash:
  assumes "cs \<noteq> []" and "\<forall>c \<in> set cs. slash \<notin> set c"
  shows "split_slash (join_slash cs) = cs"
  using assms
  by (induction cs rule: join_slash.induct)
     (auto simp: split_slash_single split_slash_append_slash)

lemma split_join_plain: "cs \<noteq> [] \<Longrightarrow> plain_list cs \<Longrightarrow> split_slash (join_slash cs) = cs"
  by (rule split_join_slash) (auto simp: list_all_iff plain_comp_def)

lemma join_split_slash: "join_slash (split_slash s) = s"
proof (induction s)
  case Nil
  then show ?case by simp
next
  case (Cons c s)
  then show ?case
    by (cases "split_slash s") (auto simp: join_slash_Cons)
qed

section \<open>The component loop\<close>

lemma clean_loop_append:
  "clean_loop r (xs @ ys) out = clean_loop r ys (clean_loop r xs out)"
  by (induction xs arbitrary: out) (auto split: list.splits)

lemma clean_loop_plain:
  "plain_list cs \<Longrightarrow> clean_loop r cs out = rev cs @ out"
  by (induction cs arbitrary: out) (auto dest: plain_compD)

lemma clean_loop_rooted_plain:
  assumes "\<forall>c \<in> set cs. slash \<notin> set c" and "plain_list out"
  shows "plain_list (clean_loop True cs out)"
  using assms
proof (induction cs arbitrary: out)
  case Nil
  then show ?case by simp
next
  case (Cons c cs)
  have *: "plain_comp c" if "c \<noteq> []" "c \<noteq> ''.''" "c \<noteq> ''..''"
    using that Cons.prems by (simp add: plain_comp_def)
  show ?case
  proof (cases out)
    case Nil
    with Cons * show ?thesis by simp
  next
    case (Cons d ds)
    with Cons.prems have "d \<noteq> ''..''" by (auto dest: plain_compD)
    with Cons.prems Cons.IH Cons * show ?thesis by simp
  qed
qed

lemma rooted_comps_plain [simp, intro]: "plain_list (rooted_comps p)"
  unfolding rooted_comps_def
  using clean_loop_rooted_plain [of "split_slash p" "[]"] split_slash_no_slash by simp

lemma rooted_comps_slash [path_simps]: "rooted_comps (slash # p) = rooted_comps p"
  by (simp add: rooted_comps_def)

lemma rooted_comps_join [path_simps]:
  assumes "plain_list cs"
  shows "rooted_comps (join_slash cs) = cs"
proof (cases "cs = []")
  case True
  then show ?thesis by (simp add: rooted_comps_def)
next
  case False
  with assms show ?thesis
    by (simp add: rooted_comps_def split_join_plain clean_loop_plain)
qed

lemma rooted_comps_append_slash:
  "rooted_comps (p @ slash # q) = rev (clean_loop True (split_slash q) (rev (rooted_comps p)))"
  by (simp add: rooted_comps_def split_slash_append_slash clean_loop_append)

lemma rooted_comps_join_append [path_simps]:
  assumes "plain_list xs" and "plain_list ys"
  shows "rooted_comps (join_slash xs @ slash # join_slash ys) = xs @ ys"
proof (cases "ys = []")
  case True
  with assms show ?thesis by (simp add: rooted_comps_append_slash rooted_comps_join)
next
  case False
  with assms show ?thesis
    by (simp add: rooted_comps_append_slash rooted_comps_join split_join_plain clean_loop_plain)
qed

lemma rooted_comps_abs_path [path_simps]: "plain_list cs \<Longrightarrow> rooted_comps (abs_path cs) = cs"
  by (simp add: abs_path_def path_simps)

section \<open>Cleaned rooted paths\<close>

lemma abs_path_inj:
  assumes "plain_list xs" and "plain_list ys"
  shows "abs_path xs = abs_path ys \<longleftrightarrow> xs = ys"
  using rooted_comps_abs_path assms by metis

lemma abs_path_Nil [simp]: "abs_path [] = ''/''"
  by (simp add: abs_path_def)

lemma abs_path_nonempty [simp]: "abs_path cs \<noteq> []"
  by (simp add: abs_path_def)

lemma path_IsAbs_Cons [simp]: "path_IsAbs (c # s) \<longleftrightarrow> c = slash"
  by (simp add: path_IsAbs_def)

lemma path_IsAbs_Nil [simp]: "\<not> path_IsAbs []"
  by (simp add: path_IsAbs_def)

lemma path_IsAbs_abs_path [simp]: "path_IsAbs (abs_path cs)"
  by (simp add: abs_path_def)

lemma path_Clean_rooted: "path_IsAbs p \<Longrightarrow> path_Clean p = abs_path (rooted_comps p)"
  by (cases p) (auto simp: path_Clean_def abs_path_def rooted_comps_def Let_def)

lemma path_Clean_slash [path_simps]: "path_Clean (slash # p) = abs_path (rooted_comps p)"
  by (simp add: path_Clean_rooted rooted_comps_slash)

lemma path_Clean_abs_path [path_simps]:
  "plain_list cs \<Longrightarrow> path_Clean (abs_path cs) = abs_path cs"
  by (simp add: path_Clean_rooted path_simps)

lemma clean_abs_iff: "clean_abs p \<longleftrightarrow> (\<exists>cs. plain_list cs \<and> p = abs_path cs)"
  unfolding clean_abs_def
  using path_Clean_abs_path path_Clean_rooted rooted_comps_plain by (metis path_IsAbs_abs_path)

lemma clean_abs_abs_path [simp, intro]: "plain_list cs \<Longrightarrow> clean_abs (abs_path cs)"
  by (auto simp: clean_abs_iff)

lemma clean_absE:
  assumes "clean_abs p"
  obtains cs where "plain_list cs" and "p = abs_path cs" and "rooted_comps p = cs"
  using assms by (auto simp: clean_abs_iff path_simps)

lemma path_Join_abs_path:
  "path_Join [abs_path cs, e] = abs_path (rooted_comps (abs_path cs @ slash # e))"
proof -
  have "path_Join [abs_path cs, e] = path_Clean (abs_path cs @ slash # e)"
    by (simp add: path_Join_def join_append_def)
  also have "\<dots> = abs_path (rooted_comps (abs_path cs @ slash # e))"
    by (rule path_Clean_rooted) (simp add: abs_path_def)
  finally show ?thesis .
qed

lemma path_Join_plain [path_simps]:
  assumes "plain_list cs" and "plain_list ds"
  shows "path_Join [abs_path cs, join_slash ds] = abs_path (cs @ ds)"
proof (cases "ds = []")
  case True
  with assms show ?thesis by (simp add: path_Join_abs_path rooted_comps_append_slash path_simps)
next
  case False
  with assms show ?thesis
    by (simp add: path_Join_abs_path rooted_comps_append_slash path_simps split_join_plain
        clean_loop_plain)
qed

section \<open>Dir and Base\<close>

lemma path_Split_snoc: "slash \<notin> set c \<Longrightarrow> path_Split (x @ slash # c) = (x @ [slash], c)"
proof -
  assume "slash \<notin> set c"
  then have "takeWhile (\<lambda>d. d \<noteq> slash) (rev c @ slash # rev x) = rev c"
    by (subst takeWhile_append2) auto
  then show ?thesis by (simp add: path_Split_def)
qed

lemma abs_path_snoc:
  "abs_path (cs @ [c]) = (if cs = [] then [] else abs_path cs) @ slash # c"
  by (simp add: abs_path_def join_slash_append)

lemma rooted_comps_trailing: "rooted_comps (p @ [slash]) = rooted_comps p"
  using rooted_comps_append_slash [of p "[]"] by simp

lemma path_Dir_snoc [path_simps]:
  assumes "plain_list cs" and "plain_comp c"
  shows "path_Dir (abs_path (cs @ [c])) = abs_path cs"
proof (cases "cs = []")
  case True
  with assms show ?thesis
    using path_Split_snoc [of c "[]"] path_Clean_slash [of "[]"]
    by (simp add: abs_path_def path_Dir_def plain_comp_def rooted_comps_def)
next
  case False
  with assms have "path_Dir (abs_path (cs @ [c])) = path_Clean (abs_path cs @ [slash])"
    by (simp add: abs_path_snoc path_Dir_def path_Split_snoc plain_comp_def)
  also have "\<dots> = abs_path cs"
    using assms by (subst path_Clean_rooted) (simp_all add: abs_path_def rooted_comps_trailing
        rooted_comps_slash rooted_comps_join)
  finally show ?thesis .
qed

lemma path_Base_snoc [path_simps]:
  assumes "plain_comp c"
  shows "path_Base (abs_path (cs @ [c])) = c"
proof -
  obtain d x where c: "c = d @ [x]" "x \<noteq> slash"
    using plain_compD(1,4) [OF assms] by (cases c rule: rev_cases) auto
  then have "rev (dropWhile (\<lambda>d. d = slash) (rev (abs_path (cs @ [c])))) = abs_path (cs @ [c])"
    by (simp add: abs_path_snoc)
  with assms show ?thesis
    by (simp add: path_Base_def abs_path_snoc path_Split_snoc plain_comp_def Let_def)
qed

lemma path_Dir_root [path_simps]: "path_Dir ''/'' = ''/''"
  by code_simp

lemma path_Base_root [path_simps]: "path_Base ''/'' = ''/''"
  by code_simp

lemma path_Join_plain_comp [path_simps]:
  "plain_list cs \<Longrightarrow> plain_comp n \<Longrightarrow> path_Join [abs_path cs, n] = abs_path (cs @ [n])"
  using path_Join_plain [of cs "[n]"] by simp

lemma clean_abs_snocE:
  assumes "clean_abs p" and "p \<noteq> ''/''"
  obtains cs c where "plain_list cs" and "plain_comp c" and "p = abs_path (cs @ [c])"
proof -
  obtain ds where d: "plain_list ds" "p = abs_path ds" using assms(1) by (auto elim: clean_absE)
  with assms(2) obtain cs c where "ds = cs @ [c]" by (cases ds rule: rev_cases) auto
  with d that [of cs c] show thesis by simp
qed

end
