(* ===== verification/RemoteLib.thy ===== *)
theory RemoteLib
  imports Effects Errors GoPath
begin

text \<open>
  The libraries the gateway talks to the remote side with: \<open>golang.org/x/crypto/ssh\<close>,
  \<open>github.com/pkg/sftp\<close> and the network dialer. They are not part of the repository, so they
  are parameters: a record of functions on an arbitrary state \<open>'s\<close> of the remote side, one
  per library call the code makes. Nothing is assumed of them here; a theorem that relies on
  their documented behaviour states it as a hypothesis.

  Every call goes through \<open>send\<close>, which runs the library function and appends the request
  to the trace \<open>wire\<close>. The trace is what the confinement and authorization theorems speak
  about.
\<close>

type_synonym handle = nat

text \<open>\<open>os.FileInfo\<close>, as far as the code reads it.\<close>

record FileInfo =
  info_Name :: string
  info_Size :: int
  info_IsSymlink :: bool
  info_IsDir :: bool

text \<open>Flags of \<open>os.OpenFile\<close>, with their values on Linux.\<close>

abbreviation (input) O_RDONLY :: int where "O_RDONLY \<equiv> 0"
abbreviation (input) O_WRONLY :: int where "O_WRONLY \<equiv> 1"
abbreviation (input) O_CREATE :: int where "O_CREATE \<equiv> 64"
abbreviation (input) O_TRUNC :: int where "O_TRUNC \<equiv> 512"
abbreviation (input) O_APPEND :: int where "O_APPEND \<equiv> 1024"

datatype request =
    DialTCP string duration
  | Handshake string string handle duration
  | CloseConn
  | OpenSFTP
  | CloseSFTP
  | CloseSSH
  | Stat string
  | Lstat string
  | ReadLink string
  | ReadDir string
  | OpenFile string int
  | Remove string
  | RemoveDirectory string
  | Mkdir string
  | Rename string string
  | PosixRename string string
  | WriteFile handle bytes
  | ReadFile handle
  | SeekFile handle int int
  | CloseFile handle

text \<open>The remote paths a request names.\<close>

fun request_paths :: "request \<Rightarrow> string list" where
  "request_paths (Stat p) = [p]"
| "request_paths (Lstat p) = [p]"
| "request_paths (ReadLink p) = [p]"
| "request_paths (ReadDir p) = [p]"
| "request_paths (OpenFile p fl) = [p]"
| "request_paths (Remove p) = [p]"
| "request_paths (RemoveDirectory p) = [p]"
| "request_paths (Mkdir p) = [p]"
| "request_paths (Rename p q) = [p, q]"
| "request_paths (PosixRename p q) = [p, q]"
| "request_paths _ = []"

text \<open>The requests that can change the remote file tree.\<close>

fun mutating :: "request \<Rightarrow> bool" where
  "mutating (OpenFile p fl) = (fl \<noteq> O_RDONLY)"
| "mutating (Remove p) = True"
| "mutating (RemoveDirectory p) = True"
| "mutating (Mkdir p) = True"
| "mutating (Rename p q) = True"
| "mutating (PosixRename p q) = True"
| "mutating (WriteFile h b) = True"
| "mutating _ = False"

record 's world =
  remote :: 's
  wire :: "request list"

text \<open>A receiver is an \<open>option\<close>: \<^term>\<open>None\<close> is a nil pointer, which the library gets to see.\<close>

record 's sftp_lib =
  lib_NewClient :: "handle \<Rightarrow> 's \<Rightarrow> handle result \<times> 's"
  lib_CloseSFTP :: "handle \<Rightarrow> 's \<Rightarrow> go_error option \<times> 's"
  lib_CloseSSH :: "handle \<Rightarrow> 's \<Rightarrow> go_error option \<times> 's"
  lib_HasExtension :: "handle option \<Rightarrow> string \<Rightarrow> 's \<Rightarrow> bool"
  lib_Stat :: "handle option \<Rightarrow> string \<Rightarrow> 's \<Rightarrow> FileInfo result \<times> 's"
  lib_Lstat :: "handle option \<Rightarrow> string \<Rightarrow> 's \<Rightarrow> FileInfo result \<times> 's"
  lib_ReadLink :: "handle option \<Rightarrow> string \<Rightarrow> 's \<Rightarrow> string result \<times> 's"
  lib_ReadDirContext :: "handle option \<Rightarrow> duration \<Rightarrow> string \<Rightarrow> 's \<Rightarrow> FileInfo list result \<times> 's"
  lib_OpenFile :: "handle option \<Rightarrow> string \<Rightarrow> int \<Rightarrow> 's \<Rightarrow> handle result \<times> 's"
  lib_Remove :: "handle option \<Rightarrow> string \<Rightarrow> 's \<Rightarrow> go_error option \<times> 's"
  lib_RemoveDirectory :: "handle option \<Rightarrow> string \<Rightarrow> 's \<Rightarrow> go_error option \<times> 's"
  lib_Mkdir :: "handle option \<Rightarrow> string \<Rightarrow> 's \<Rightarrow> go_error option \<times> 's"
  lib_Rename :: "handle option \<Rightarrow> string \<Rightarrow> string \<Rightarrow> 's \<Rightarrow> go_error option \<times> 's"
  lib_PosixRename :: "handle option \<Rightarrow> string \<Rightarrow> string \<Rightarrow> 's \<Rightarrow> go_error option \<times> 's"
  file_Write :: "handle \<Rightarrow> bytes \<Rightarrow> 's \<Rightarrow> (int \<times> go_error option) \<times> 's"
  file_Read :: "handle \<Rightarrow> nat \<Rightarrow> 's \<Rightarrow> (bytes \<times> go_error option) \<times> 's"
  file_Seek :: "handle \<Rightarrow> int \<Rightarrow> int \<Rightarrow> 's \<Rightarrow> (int \<times> go_error option) \<times> 's"
  file_Close :: "handle \<Rightarrow> 's \<Rightarrow> go_error option \<times> 's"

definition send :: "request \<Rightarrow> ('s \<Rightarrow> 'a \<times> 's) \<Rightarrow> (('s, 'm) world_scheme, 'a) state" where
  "send q f = State (\<lambda>w. case f (remote w) of (a, s) \<Rightarrow> (a, w\<lparr>remote := s, wire := wire w @ [q]\<rparr>))"

lemma run_send:
  "run_state (send q f) w = (fst (f (remote w)), w\<lparr>remote := snd (f (remote w)), wire := wire w @ [q]\<rparr>)"
  by (simp add: send_def split: prod.splits)

lemma emits_send [emits_rules]: "P q \<Longrightarrow> emits wire P (send q f)"
  by (auto simp: emits_def state_io_rel_def grows_def run_send)

lemma keeps_send [keeps_rules]:
  "(\<And>w s ws. g (w\<lparr>remote := s, wire := ws\<rparr>) = g w) \<Longrightarrow> keeps g (send q f)"
  by (auto simp: keeps_def state_io_rel_def run_send)

end
