(* ===== verification/Filesystem.thy ===== *)
theory Filesystem
  imports GoPath Errors
begin

text \<open>
  Package \<open>internal/filesystem\<close>: the \<open>Mapper\<close> that confines an FTP user to a virtual
  root and translates virtual paths to remote ones (\<open>mapper.go\<close>). The model works on the
  byte strings the code works on; the lemmas move to the list of path components, where
  containment is the prefix order. The theorems show that every path the mapper hands out is
  cleaned, absolute and inside its root, that the two translations are inverse to each other, and
  when an argument is rejected.
\<close>

section \<open>mapper.go\<close>

record Mapper =
  virtualRoot :: string
  remoteRoot :: string

definition WithinRoot :: "string \<Rightarrow> string \<Rightarrow> bool" where
  "WithinRoot root p =
     (if root = ''/'' then path_IsAbs p
      else if p = root then True
      else HasPrefix p (root @ ''/''))"

definition cleanRoot :: "string \<Rightarrow> string" where
  "cleanRoot p = (let p = (if p = [] then ''/'' else p) in path_Clean (''/'' @ p))"

definition NewMapper :: "string \<Rightarrow> string \<Rightarrow> Mapper" where
  "NewMapper vroot rroot = \<lparr>virtualRoot = cleanRoot vroot, remoteRoot = cleanRoot rroot\<rparr>"

definition withinVirtualRoot :: "Mapper \<Rightarrow> string \<Rightarrow> bool" where
  "withinVirtualRoot m p = WithinRoot (virtualRoot m) p"

definition withinRemoteRoot :: "Mapper \<Rightarrow> string \<Rightarrow> bool" where
  "withinRemoteRoot m p = WithinRoot (remoteRoot m) p"

abbreviation NUL :: char where "NUL \<equiv> CHR 0x00"

definition errInvalidArg :: go_error where
  "errInvalidArg = New KindInvalidPath ''filesystem.ResolveVirtual'' (''ruta inv'' @ a_acute @ ''lida'')"

definition errOutsideVirtual :: "string \<Rightarrow> go_error" where
  "errOutsideVirtual op = New KindInvalidPath op (''ruta fuera de la ra'' @ i_acute @ ''z permitida'')"

definition errOutsideRemote :: "string \<Rightarrow> go_error" where
  "errOutsideRemote op =
     New KindInvalidPath op (''ruta remota fuera de la ra'' @ i_acute @ ''z permitida'')"

definition ResolveVirtual :: "Mapper \<Rightarrow> string \<Rightarrow> string \<Rightarrow> string result" where
  "ResolveVirtual m cwd arg =
     (if NUL \<in> set arg then Inl errInvalidArg
      else
        let cwd = (if cwd = [] then virtualRoot m else cwd);
            joined = (if path_IsAbs arg then arg else path_Join [cwd, arg]);
            resolved = path_Clean (''/'' @ joined)
        in if \<not> withinVirtualRoot m resolved
           then Inl (errOutsideVirtual ''filesystem.ResolveVirtual'')
           else Inr resolved)"

definition ToRemote :: "Mapper \<Rightarrow> string \<Rightarrow> string result" where
  "ToRemote m virtualPath =
     (if \<not> withinVirtualRoot m virtualPath then Inl (errOutsideVirtual ''filesystem.ToRemote'')
      else
        let rel = TrimPrefix virtualPath (virtualRoot m);
            rel = TrimPrefix rel ''/'';
            remote = path_Clean (path_Join [remoteRoot m, rel])
        in if \<not> withinRemoteRoot m remote then Inl (errOutsideRemote ''filesystem.ToRemote'')
           else Inr remote)"

definition ToVirtual :: "Mapper \<Rightarrow> string \<Rightarrow> string result" where
  "ToVirtual m remotePath =
     (let cleaned = path_Clean (''/'' @ remotePath)
      in if \<not> withinRemoteRoot m cleaned then Inl (errOutsideRemote ''filesystem.ToVirtual'')
         else
           let rel = TrimPrefix cleaned (remoteRoot m);
               rel = TrimPrefix rel ''/''
           in Inr (path_Clean (path_Join [virtualRoot m, rel])))"

section \<open>Containment on components\<close>

text \<open>A mapper built by \<open>NewMapper\<close>: both roots are cleaned absolute paths.\<close>

definition wf_mapper :: "Mapper \<Rightarrow> bool" where
  "wf_mapper m \<longleftrightarrow> clean_abs (virtualRoot m) \<and> clean_abs (remoteRoot m)"

lemma cleanRoot_clean_abs [simp]: "clean_abs (cleanRoot p)"
  by (simp add: cleanRoot_def Let_def path_simps)

lemma NewMapper_roots [simp]:
  "virtualRoot (NewMapper v r) = cleanRoot v" "remoteRoot (NewMapper v r) = cleanRoot r"
  by (simp_all add: NewMapper_def)

lemma wf_NewMapper [simp]: "wf_mapper (NewMapper v r)"
  by (simp add: wf_mapper_def NewMapper_def)

lemma wf_mapperE:
  assumes "wf_mapper m"
  obtains vs rs where "plain_list vs" and "plain_list rs"
    and "virtualRoot m = abs_path vs" and "remoteRoot m = abs_path rs"
  using assms unfolding wf_mapper_def clean_abs_iff by blast

lemma prefix_join_slash:
  assumes "plain_list rs" and "plain_list ps" and "rs \<noteq> []"
  shows "prefix (join_slash rs @ [slash]) (join_slash ps) \<longleftrightarrow> (\<exists>q qs. ps = rs @ q # qs)"
proof
  assume "prefix (join_slash rs @ [slash]) (join_slash ps)"
  then obtain u where u: "join_slash ps = join_slash rs @ slash # u"
    by (auto elim: prefixE)
  then have "split_slash (join_slash ps) = rs @ split_slash u"
    using assms by (simp add: split_slash_append_slash split_join_plain)
  moreover have "ps \<noteq> []" using u by auto
  ultimately have "ps = rs @ split_slash u"
    using assms by (simp add: split_join_plain)
  then show "\<exists>q qs. ps = rs @ q # qs"
    by (metis split_slash_nonempty list.exhaust)
next
  assume "\<exists>q qs. ps = rs @ q # qs"
  with assms(3) show "prefix (join_slash rs @ [slash]) (join_slash ps)"
    by (auto simp: join_slash_append)
qed

lemma WithinRoot_abs_path [path_simps]:
  assumes "plain_list rs" and "plain_list ps"
  shows "WithinRoot (abs_path rs) (abs_path ps) \<longleftrightarrow> prefix rs ps"
proof (cases "rs = []")
  case True
  then show ?thesis by (simp add: WithinRoot_def)
next
  case False
  then have "abs_path rs \<noteq> ''/''"
    using assms abs_path_inj [of rs "[]"] by simp
  moreover have "prefix (abs_path rs @ ''/'') (abs_path ps) \<longleftrightarrow> (\<exists>q qs. ps = rs @ q # qs)"
    using prefix_join_slash [OF assms False] by (simp add: abs_path_def)
  ultimately show ?thesis
    using assms
    by (auto simp: WithinRoot_def HasPrefix_def abs_path_inj prefix_def neq_Nil_conv)
qed

lemma join_slash_hd: "plain_list cs \<Longrightarrow> join_slash cs \<noteq> slash # s"
proof (cases cs)
  case (Cons c cs')
  assume "plain_list cs"
  then obtain x c' where "c = x # c'" and "x \<noteq> slash"
    using Cons by (cases c) (auto simp: plain_comp_def)
  then show ?thesis using Cons by (simp add: join_slash_Cons)
qed simp

lemma TrimPrefix_slash_join:
  "plain_list cs \<Longrightarrow> TrimPrefix (join_slash cs) [slash] = join_slash cs"
  by (rule TrimPrefix_no_prefix) (auto simp: prefix_def join_slash_hd)

lemma TrimPrefix_root [path_simps]:
  assumes "plain_list rs" and "plain_list qs"
  shows "TrimPrefix (TrimPrefix (abs_path (rs @ qs)) (abs_path rs)) [slash] = join_slash qs"
proof -
  consider "rs = []" | "qs = []" | "rs \<noteq> []" "qs \<noteq> []" by blast
  then show ?thesis
  proof cases
    case 1
    with assms show ?thesis by (simp add: abs_path_def TrimPrefix_slash_join)
  next
    case 2
    have "TrimPrefix (abs_path rs @ []) (abs_path rs) = []" by (rule TrimPrefix_append)
    with 2 show ?thesis by (simp add: TrimPrefix_def HasPrefix_def)
  next
    case 3
    then have "abs_path (rs @ qs) = abs_path rs @ slash # join_slash qs"
      by (simp add: abs_path_def join_slash_append)
    then show ?thesis by simp
  qed
qed

section \<open>The operations on components\<close>

lemma ResolveVirtual_unfold:
  assumes "NUL \<notin> set arg"
  shows "ResolveVirtual m cwd arg =
    (let p = path_Clean (slash # (if path_IsAbs arg then arg
                else path_Join [if cwd = [] then virtualRoot m else cwd, arg]))
     in if WithinRoot (virtualRoot m) p then Inr p
        else Inl (errOutsideVirtual ''filesystem.ResolveVirtual''))"
  using assms by (simp add: ResolveVirtual_def withinVirtualRoot_def Let_def)

lemma ResolveVirtual_abs:
  assumes "virtualRoot m = abs_path vs" and "plain_list vs"
    and "path_IsAbs arg" and "NUL \<notin> set arg"
  shows "ResolveVirtual m cwd arg =
    (if prefix vs (rooted_comps arg) then Inr (abs_path (rooted_comps arg))
     else Inl (errOutsideVirtual ''filesystem.ResolveVirtual''))"
  using assms by (simp add: ResolveVirtual_unfold path_simps)

lemma ToRemote_abs_path:
  assumes "virtualRoot m = abs_path vs" and "remoteRoot m = abs_path rs"
    and "plain_list vs" and "plain_list rs" and "plain_list qs"
  shows "ToRemote m (abs_path (vs @ qs)) = Inr (abs_path (rs @ qs))"
  using assms
  by (simp add: ToRemote_def withinVirtualRoot_def withinRemoteRoot_def path_simps Let_def)

lemma ToVirtual_abs_path:
  assumes "virtualRoot m = abs_path vs" and "remoteRoot m = abs_path rs"
    and "plain_list vs" and "plain_list rs" and "plain_list qs"
  shows "ToVirtual m (abs_path (rs @ qs)) = Inr (abs_path (vs @ qs))"
proof -
  have "path_Clean (slash # abs_path (rs @ qs)) = abs_path (rs @ qs)"
    using assms by (simp add: path_simps)
  with assms show ?thesis
    by (simp add: ToVirtual_def withinRemoteRoot_def path_simps Let_def)
qed

section \<open>Confinement\<close>

lemma ResolveVirtual_InrD:
  assumes "ResolveVirtual m cwd arg = Inr p"
  shows "clean_abs p \<and> WithinRoot (virtualRoot m) p"
  using assms
  by (auto simp: ResolveVirtual_def withinVirtualRoot_def Let_def path_simps split: if_splits)

lemma ResolveVirtual_Inl_kind:
  "ResolveVirtual m cwd arg = Inl e \<Longrightarrow> KindOf e = KindInvalidPath"
  by (auto simp: ResolveVirtual_def Let_def errInvalidArg_def errOutsideVirtual_def split: if_splits)

lemma within_decomp:
  assumes "clean_abs root" and "clean_abs p" and "WithinRoot root p"
  obtains rs qs where "plain_list rs" and "plain_list qs" and "root = abs_path rs"
    and "p = abs_path (rs @ qs)"
proof -
  obtain rs ps where r: "plain_list rs" "root = abs_path rs" and p: "plain_list ps" "p = abs_path ps"
    using assms(1,2) unfolding clean_abs_iff by blast
  with assms(3) have "prefix rs ps" by (simp add: path_simps)
  then obtain qs where "ps = rs @ qs" by (auto elim: prefixE)
  with r p that show thesis by simp
qed

lemma ToRemote_within:
  assumes "wf_mapper m" and "clean_abs p" and "WithinRoot (virtualRoot m) p"
  shows "\<exists>q. ToRemote m p = Inr q \<and> clean_abs q \<and> WithinRoot (remoteRoot m) q \<and> ToVirtual m q = Inr p"
proof -
  have v: "clean_abs (virtualRoot m)" using assms(1) by (simp add: wf_mapper_def)
  obtain vs qs where q: "plain_list vs" "plain_list qs" "virtualRoot m = abs_path vs"
    "p = abs_path (vs @ qs)"
    using within_decomp [OF v assms(2,3)] by blast
  obtain rs where r: "plain_list rs" "remoteRoot m = abs_path rs"
    using assms(1) by (auto elim: wf_mapperE)
  show ?thesis
    using ToRemote_abs_path [OF q(3) r(2) q(1) r(1) q(2)] ToVirtual_abs_path [OF q(3) r(2) q(1) r(1) q(2)]
      q r by (simp add: path_simps)
qed

lemma ToVirtual_within:
  assumes "wf_mapper m" and "clean_abs q" and "WithinRoot (remoteRoot m) q"
  shows "\<exists>p. ToVirtual m q = Inr p \<and> clean_abs p \<and> WithinRoot (virtualRoot m) p \<and> ToRemote m p = Inr q"
proof -
  have v: "clean_abs (remoteRoot m)" using assms(1) by (simp add: wf_mapper_def)
  obtain rs qs where q: "plain_list rs" "plain_list qs" "remoteRoot m = abs_path rs"
    "q = abs_path (rs @ qs)"
    using within_decomp [OF v assms(2,3)] by blast
  obtain vs where r: "plain_list vs" "virtualRoot m = abs_path vs"
    using assms(1) by (auto elim: wf_mapperE)
  show ?thesis
    using ToRemote_abs_path [OF r(2) q(3) r(1) q(1) q(2)] ToVirtual_abs_path [OF r(2) q(3) r(1) q(1) q(2)]
      q r by (simp add: path_simps)
qed

section \<open>The contract of a path mapper\<close>

text \<open>
  What the FTP driver relies on: resolving yields paths of the virtual side only, and every such
  path has a name on the remote side. The driver's two-step translation is analysed once, for any
  mapper with these laws.
\<close>

locale path_mapper =
  fixes wf :: "'m \<Rightarrow> bool"
    and resolve :: "'m \<Rightarrow> string \<Rightarrow> string \<Rightarrow> string result"
    and to_remote :: "'m \<Rightarrow> string \<Rightarrow> string result"
    and in_virtual :: "'m \<Rightarrow> string \<Rightarrow> bool"
    and in_remote :: "'m \<Rightarrow> string \<Rightarrow> bool"
  assumes resolve_in: "wf m \<Longrightarrow> resolve m cwd arg = Inr p \<Longrightarrow> in_virtual m p"
    and to_remote_total: "wf m \<Longrightarrow> in_virtual m p \<Longrightarrow> \<exists>q. to_remote m p = Inr q \<and> in_remote m q"
begin

lemma two_steps_confined:
  assumes "wf m" and "resolve m cwd arg = Inr p" and "to_remote m p = Inr q"
  shows "in_remote m q"
proof -
  have "in_virtual m p" using assms(1,2) by (rule resolve_in)
  with to_remote_total [OF assms(1)] assms(3) show ?thesis by fastforce
qed

lemma two_steps_total:
  assumes "wf m" and "resolve m cwd arg = Inr p"
  shows "\<exists>q. to_remote m p = Inr q"
  using assms resolve_in to_remote_total by blast

end

abbreviation in_remote_root :: "Mapper \<Rightarrow> string \<Rightarrow> bool" where
  "in_remote_root m q \<equiv> clean_abs q \<and> WithinRoot (remoteRoot m) q"

interpretation mapper: path_mapper wf_mapper ResolveVirtual ToRemote
  "\<lambda>m p. clean_abs p \<and> WithinRoot (virtualRoot m) p" in_remote_root
proof unfold_locales
  fix m cwd arg p
  assume "ResolveVirtual m cwd arg = Inr p"
  then show "clean_abs p \<and> WithinRoot (virtualRoot m) p" by (rule ResolveVirtual_InrD)
next
  fix m p
  assume "wf_mapper m" and "clean_abs p \<and> WithinRoot (virtualRoot m) p"
  then show "\<exists>q. ToRemote m p = Inr q \<and> in_remote_root m q"
    using ToRemote_within by blast
qed

lemma WithinRoot_iff_prefix:
  assumes "clean_abs root" and "clean_abs p"
  shows "WithinRoot root p \<longleftrightarrow> prefix (rooted_comps root) (rooted_comps p)"
  using assms by (auto elim!: clean_absE simp: path_simps)

lemma clean_abs_no_dotdot:
  assumes "clean_abs p"
  shows "''..'' \<notin> set (split_slash p)"
proof -
  from assms obtain cs where "plain_list cs" "p = abs_path cs"
    by (auto elim: clean_absE)
  then show ?thesis
    by (cases "cs = []") (auto simp: abs_path_def split_join_plain list_all_iff plain_comp_def)
qed

text \<open>
  The string test of \<open>WithinRoot\<close> is exactly containment of the component lists; in
  particular a sibling whose name merely extends the root's name (\<open>/data2\<close> for
  \<open>/data\<close>) is never inside the root.
\<close>

theorem WithinRoot_is_component_prefix:
  assumes "clean_abs root" and "clean_abs p"
  shows "(WithinRoot root p \<longleftrightarrow> prefix (rooted_comps root) (rooted_comps p))
    \<and> (root \<noteq> ''/'' \<longrightarrow> (\<forall>c s. p = root @ c # s \<longrightarrow> WithinRoot root p \<longrightarrow> c = slash))"
  using WithinRoot_iff_prefix [OF assms] by (auto simp: WithinRoot_def HasPrefix_def)

theorem WithinRoot_is_component_prefix_witness:
  "WithinRoot ''/data'' ''/data/x'' \<and> \<not> WithinRoot ''/data'' ''/data2/x''"
proof -
  have c: "clean_abs ''/data''" "clean_abs ''/data/x''" "clean_abs ''/data2/x''"
    by code_simp+
  show ?thesis
    using WithinRoot_is_component_prefix [OF c(1,2)] WithinRoot_is_component_prefix [OF c(1,3)]
    by (simp add: rooted_comps_def)
qed

text \<open>
  (C23) Confinement of client paths: whatever the working directory and the argument sent by the
  client, a path that \<open>ResolveVirtual\<close> returns is absolute, cleaned, free of \<open>..\<close>
  components, and has the virtual root's components as a prefix.
\<close>

theorem ResolveVirtual_confined:
  assumes "ResolveVirtual (NewMapper vroot rroot) cwd arg = Inr p"
  shows "clean_abs p \<and> WithinRoot (cleanRoot vroot) p \<and> ''..'' \<notin> set (split_slash p)
    \<and> prefix (rooted_comps (cleanRoot vroot)) (rooted_comps p)"
proof -
  from assms have p: "clean_abs p" "WithinRoot (cleanRoot vroot) p"
    by (auto dest: ResolveVirtual_InrD)
  then show ?thesis
    by (simp add: clean_abs_no_dotdot WithinRoot_iff_prefix)
qed

theorem ResolveVirtual_confined_witness:
  "ResolveVirtual (NewMapper ''/in'' ''/data'') ''/in/a'' ''../b//./c'' = Inr ''/in/b/c''
   \<and> WithinRoot (cleanRoot ''/in'') ''/in/b/c''"
proof -
  have "ResolveVirtual (NewMapper ''/in'' ''/data'') ''/in/a'' ''../b//./c'' = Inr ''/in/b/c''"
    by code_simp
  with ResolveVirtual_confined [OF this] show ?thesis by simp
qed

text \<open>
  Completeness of \<open>ResolveVirtual\<close>: an argument is rejected only for a NUL byte or because
  its lexical resolution leaves the virtual root, always with an error of kind
  \<open>invalid_path\<close>; every other argument is accepted and resolved from the working directory
  (or from the root when it is absolute), component by component.
\<close>

theorem ResolveVirtual_accepts:
  assumes "clean_abs cwd"
  shows "ResolveVirtual (NewMapper vroot rroot) cwd arg =
    (let cs = rooted_comps (if path_IsAbs arg then arg else cwd @ slash # arg)
     in if NUL \<in> set arg then Inl errInvalidArg
        else if prefix (rooted_comps (cleanRoot vroot)) cs then Inr (abs_path cs)
        else Inl (errOutsideVirtual ''filesystem.ResolveVirtual''))
    \<and> KindOf errInvalidArg = KindInvalidPath
    \<and> KindOf (errOutsideVirtual ''filesystem.ResolveVirtual'') = KindInvalidPath"
proof -
  obtain cs where cs: "plain_list cs" "cwd = abs_path cs"
    using assms by (auto elim: clean_absE)
  have j: "rooted_comps (path_Join [cwd, arg]) = rooted_comps (cwd @ slash # arg)"
    using cs by (simp add: path_Join_abs_path path_simps)
  have w: "WithinRoot (cleanRoot vroot) (abs_path (rooted_comps x))
      \<longleftrightarrow> prefix (rooted_comps (cleanRoot vroot)) (rooted_comps x)" for x
    by (simp add: WithinRoot_iff_prefix path_simps)
  have ne: "cwd \<noteq> []" using cs(2) by simp
  show ?thesis
    by (auto simp: ne ResolveVirtual_def withinVirtualRoot_def Let_def path_simps j w
        errInvalidArg_def errOutsideVirtual_def)
qed

theorem ResolveVirtual_accepts_witness:
  "ResolveVirtual (NewMapper ''/in'' ''/data'') ''/in'' ''../etc'' =
     Inl (errOutsideVirtual ''filesystem.ResolveVirtual'')"
proof -
  have c: "clean_abs ''/in''" by code_simp
  have "\<not> prefix (rooted_comps (cleanRoot ''/in'')) (rooted_comps ''/in/../etc'')"
    by code_simp
  with ResolveVirtual_accepts [OF c, of "''/in''" "''/data''" "''../etc''"] show ?thesis
    by (simp add: Let_def)
qed

text \<open>
  (C24) The translation to the remote side is total on resolved paths, lands inside the remote
  root, and \<open>ToVirtual\<close> undoes it: for every path inside the virtual root, \<open>ToRemote\<close>
  returns a cleaned path inside the remote root from which \<open>ToVirtual\<close> recovers the path.
\<close>

theorem ToRemote_ToVirtual_roundtrip:
  assumes "clean_abs p" and "WithinRoot (cleanRoot vroot) p"
  shows "\<exists>q. ToRemote (NewMapper vroot rroot) p = Inr q \<and> clean_abs q
    \<and> WithinRoot (cleanRoot rroot) q \<and> ToVirtual (NewMapper vroot rroot) q = Inr p"
  using ToRemote_within [of "NewMapper vroot rroot" p] assms by simp

theorem ToRemote_ToVirtual_roundtrip_witness:
  "ToRemote (NewMapper ''/in'' ''/srv/data/'') ''/in/b/c'' = Inr ''/srv/data/b/c''
   \<and> ToVirtual (NewMapper ''/in'' ''/srv/data/'') ''/srv/data/b/c'' = Inr ''/in/b/c''"
proof -
  have c: "clean_abs ''/in/b/c''" "WithinRoot (cleanRoot ''/in'') ''/in/b/c''"
    by code_simp+
  have "ToRemote (NewMapper ''/in'' ''/srv/data/'') ''/in/b/c'' = Inr ''/srv/data/b/c''"
    by code_simp
  with ToRemote_ToVirtual_roundtrip [OF c, of "''/srv/data/''"] show ?thesis by auto
qed

text \<open>
  The converse: a remote path inside the remote root has a virtual name inside the virtual
  root, which maps back to it, and any remote path outside the remote root is refused.
\<close>

theorem ToVirtual_ToRemote_roundtrip:
  assumes "clean_abs q"
  shows "if WithinRoot (cleanRoot rroot) q
    then \<exists>p. ToVirtual (NewMapper vroot rroot) q = Inr p \<and> clean_abs p
      \<and> WithinRoot (cleanRoot vroot) p \<and> ToRemote (NewMapper vroot rroot) p = Inr q
    else ToVirtual (NewMapper vroot rroot) q = Inl (errOutsideRemote ''filesystem.ToVirtual'')"
proof (cases "WithinRoot (cleanRoot rroot) q")
  case True
  then show ?thesis
    using ToVirtual_within [of "NewMapper vroot rroot" q] assms by simp
next
  case False
  with assms show ?thesis
    by (auto elim!: clean_absE
        simp: ToVirtual_def withinRemoteRoot_def path_simps Let_def)
qed

theorem ToVirtual_ToRemote_roundtrip_witness:
  "ToVirtual (NewMapper ''/'' ''/data'') ''/etc/passwd'' =
     Inl (errOutsideRemote ''filesystem.ToVirtual'')"
proof -
  have c: "clean_abs ''/etc/passwd''" "\<not> WithinRoot (cleanRoot ''/data'') ''/etc/passwd''"
    by code_simp+
  from ToVirtual_ToRemote_roundtrip [OF c(1), of "''/data''" "''/''"] c(2) show ?thesis by simp
qed

end
