(* ===== verification/TreeServer.thy ===== *)
theory TreeServer
  imports RemoteLib
begin

text \<open>
  A small SFTP server in memory, used as the concrete remote side on which theorems with
  hypotheses about the library are evaluated. It is an instance of the parameter
  \<open>sftp_lib\<close> and models no code of the repository: paths map to files, directories and
  symbolic links, and an open file remembers its path and its read offset.
\<close>

datatype node = FileNode bytes | DirNode | LinkNode string

record tree =
  nodes :: "(string \<times> node) list"
  opened :: "(handle \<times> (string \<times> nat)) list"
  fresh :: handle
  posix :: bool
  alive :: bool

definition tree_missing :: go_error where
  "tree_missing = ForeignError ''file does not exist'' [ErrNotExist] None"

definition tree_failure :: go_error where
  "tree_failure = ForeignError ''failure'' [] None"

definition tree_lost :: go_error where
  "tree_lost = ForeignError ''connection lost'' [] None"

definition node_info :: "string \<Rightarrow> node \<Rightarrow> FileInfo" where
  "node_info p n = \<lparr>info_Name = path_Base p,
     info_Size = (case n of FileNode b \<Rightarrow> int (length b) | _ \<Rightarrow> 0),
     info_IsSymlink = (case n of LinkNode t \<Rightarrow> True | _ \<Rightarrow> False), info_IsDir = (n = DirNode)\<rparr>"

definition set_node :: "string \<Rightarrow> node \<Rightarrow> tree \<Rightarrow> tree" where
  "set_node p n s = s\<lparr>nodes := (p, n) # filter (\<lambda>x. fst x \<noteq> p) (nodes s)\<rparr>"

definition drop_node :: "string \<Rightarrow> tree \<Rightarrow> tree" where
  "drop_node p s = s\<lparr>nodes := filter (\<lambda>x. fst x \<noteq> p) (nodes s)\<rparr>"

definition tree_Lstat :: "handle option \<Rightarrow> string \<Rightarrow> tree \<Rightarrow> FileInfo result \<times> tree" where
  "tree_Lstat h p s = (if \<not> alive s then Inl tree_lost
     else case map_of (nodes s) p of None \<Rightarrow> Inl tree_missing | Some n \<Rightarrow> Inr (node_info p n), s)"

definition tree_Stat :: "handle option \<Rightarrow> string \<Rightarrow> tree \<Rightarrow> FileInfo result \<times> tree" where
  "tree_Stat h p s = (if \<not> alive s then Inl tree_lost
     else case map_of (nodes s) p of
       None \<Rightarrow> Inl tree_missing
     | Some (LinkNode t) \<Rightarrow> (case map_of (nodes s) t of None \<Rightarrow> Inl tree_missing | Some n \<Rightarrow> Inr (node_info p n))
     | Some n \<Rightarrow> Inr (node_info p n), s)"

definition tree_ReadLink :: "handle option \<Rightarrow> string \<Rightarrow> tree \<Rightarrow> string result \<times> tree" where
  "tree_ReadLink h p s = (case map_of (nodes s) p of
     Some (LinkNode t) \<Rightarrow> Inr t | Some _ \<Rightarrow> Inl tree_failure | None \<Rightarrow> Inl tree_missing, s)"

definition tree_ReadDir :: "handle option \<Rightarrow> duration \<Rightarrow> string \<Rightarrow> tree \<Rightarrow> FileInfo list result \<times> tree" where
  "tree_ReadDir h t p s = (if \<not> alive s then Inl tree_lost
     else Inr (map (\<lambda>x. node_info (fst x) (snd x))
       (filter (\<lambda>x. path_Dir (fst x) = p \<and> plain_comp (path_Base (fst x))) (nodes s))), s)"

definition tree_OpenFile :: "handle option \<Rightarrow> string \<Rightarrow> int \<Rightarrow> tree \<Rightarrow> handle result \<times> tree" where
  "tree_OpenFile h p fl s =
     (if \<not> alive s then (Inl tree_lost, s)
      else if fl = O_RDONLY \<and> map_of (nodes s) p = None then (Inl tree_missing, s)
      else (let s = (if fl = O_RDONLY then s else set_node p (FileNode []) s)
            in (Inr (fresh s), s\<lparr>opened := (fresh s, (p, 0)) # opened s, fresh := Suc (fresh s)\<rparr>)))"

definition tree_Remove :: "handle option \<Rightarrow> string \<Rightarrow> tree \<Rightarrow> go_error option \<times> tree" where
  "tree_Remove h p s = (if \<not> alive s then (Some tree_lost, s)
     else if map_of (nodes s) p = None then (Some tree_missing, s) else (None, drop_node p s))"

definition tree_Mkdir :: "handle option \<Rightarrow> string \<Rightarrow> tree \<Rightarrow> go_error option \<times> tree" where
  "tree_Mkdir h p s = (if \<not> alive s then (Some tree_lost, s)
     else if map_of (nodes s) p \<noteq> None then (Some tree_failure, s) else (None, set_node p DirNode s))"

definition tree_PosixRename :: "handle option \<Rightarrow> string \<Rightarrow> string \<Rightarrow> tree \<Rightarrow> go_error option \<times> tree" where
  "tree_PosixRename h p q s = (if \<not> alive s then (Some tree_lost, s)
     else case map_of (nodes s) p of
       None \<Rightarrow> (Some tree_missing, s)
     | Some n \<Rightarrow> (None, set_node q n (drop_node p s)))"

definition tree_Rename :: "handle option \<Rightarrow> string \<Rightarrow> string \<Rightarrow> tree \<Rightarrow> go_error option \<times> tree" where
  "tree_Rename h p q s = (if map_of (nodes s) q \<noteq> None then (Some tree_failure, s) else tree_PosixRename h p q s)"

definition tree_Write :: "handle \<Rightarrow> bytes \<Rightarrow> tree \<Rightarrow> (int \<times> go_error option) \<times> tree" where
  "tree_Write f b s = (case map_of (opened s) f of
     None \<Rightarrow> ((0, Some tree_failure), s)
   | Some (p, off) \<Rightarrow> (case map_of (nodes s) p of
       Some (FileNode d) \<Rightarrow> ((int (length b), None), set_node p (FileNode (d @ b)) s)
     | _ \<Rightarrow> ((0, Some tree_failure), s)))"

definition tree_Read :: "handle \<Rightarrow> nat \<Rightarrow> tree \<Rightarrow> (bytes \<times> go_error option) \<times> tree" where
  "tree_Read f n s = (case map_of (opened s) f of
     None \<Rightarrow> (([], Some tree_failure), s)
   | Some (p, off) \<Rightarrow> (case map_of (nodes s) p of
       Some (FileNode d) \<Rightarrow> (let b = take n (drop off d)
         in ((b, if length d \<le> off then Some (ForeignError ''EOF'' [EOF] None) else None),
             s\<lparr>opened := (f, (p, off + length b)) # opened s\<rparr>))
     | _ \<Rightarrow> (([], Some tree_failure), s)))"

definition tree_Seek :: "handle \<Rightarrow> int \<Rightarrow> int \<Rightarrow> tree \<Rightarrow> (int \<times> go_error option) \<times> tree" where
  "tree_Seek f i j s = (case map_of (opened s) f of
     None \<Rightarrow> ((0, Some tree_failure), s)
   | Some (p, off) \<Rightarrow> ((i, None), s\<lparr>opened := (f, (p, nat i)) # opened s\<rparr>))"

definition tree_Close :: "handle \<Rightarrow> tree \<Rightarrow> go_error option \<times> tree" where
  "tree_Close f s = (None, s\<lparr>opened := filter (\<lambda>x. fst x \<noteq> f) (opened s)\<rparr>)"

definition tree_lib :: "tree sftp_lib" where
  "tree_lib = \<lparr>lib_NewClient = (\<lambda>h s. if alive s then (Inr (Suc h), s) else (Inl tree_lost, s)),
     lib_CloseSFTP = (\<lambda>h s. (None, s)), lib_CloseSSH = (\<lambda>h s. (None, s)),
     lib_HasExtension = (\<lambda>h e s. posix s),
     lib_Stat = tree_Stat, lib_Lstat = tree_Lstat, lib_ReadLink = tree_ReadLink,
     lib_ReadDirContext = tree_ReadDir, lib_OpenFile = tree_OpenFile, lib_Remove = tree_Remove,
     lib_RemoveDirectory = tree_Remove, lib_Mkdir = tree_Mkdir, lib_Rename = tree_Rename,
     lib_PosixRename = tree_PosixRename, file_Write = tree_Write, file_Read = tree_Read,
     file_Seek = tree_Seek, file_Close = tree_Close\<rparr>"

lemmas tree_defs = tree_Stat_def tree_Lstat_def tree_ReadLink_def tree_ReadDir_def tree_OpenFile_def
  tree_Remove_def tree_Mkdir_def tree_PosixRename_def tree_Rename_def tree_Write_def tree_Read_def
  tree_Seek_def tree_Close_def set_node_def drop_node_def node_info_def

definition empty_tree :: tree where
  "empty_tree = \<lparr>nodes = [(''/data'', DirNode)], opened = [], fresh = 1, posix = True, alive = True\<rparr>"

text \<open>The contents of the files, the path of an open file and its read offset.\<close>

definition node_data :: "node \<Rightarrow> bytes option" where
  "node_data n = (case n of FileNode d \<Rightarrow> Some d | _ \<Rightarrow> None)"

definition tree_view :: "tree \<Rightarrow> string \<Rightarrow> bytes option" where
  "tree_view s p = Option.bind (map_of (nodes s) p) node_data"

definition tree_file :: "tree \<Rightarrow> handle \<Rightarrow> string option" where
  "tree_file s h = (if h < fresh s then map_option fst (map_of (opened s) h) else None)"

definition tree_offset :: "tree \<Rightarrow> handle \<Rightarrow> nat" where
  "tree_offset s h = (case map_of (opened s) h of None \<Rightarrow> 0 | Some (p, off) \<Rightarrow> off)"

lemma map_of_filter_neq: "map_of (filter (\<lambda>x. fst x \<noteq> p) xs) = (map_of xs)(p := None)"
  by (induction xs) (auto simp: fun_eq_iff)

lemma tree_view_set [simp]: "tree_view (set_node p n s) = (tree_view s)(p := node_data n)"
  by (auto simp: tree_view_def set_node_def map_of_filter_neq fun_eq_iff)

lemma tree_view_drop [simp]: "tree_view (drop_node p s) = (tree_view s)(p := None)"
  by (auto simp: tree_view_def drop_node_def map_of_filter_neq fun_eq_iff)

lemma tree_view_opened [simp]: "tree_view (s\<lparr>opened := x\<rparr>) = tree_view s" "tree_view (s\<lparr>fresh := k\<rparr>) = tree_view s"
  by (simp_all add: tree_view_def fun_eq_iff)

lemma tree_file_nodes [simp]: "tree_file (set_node p n s) = tree_file s"
  by (simp add: tree_file_def set_node_def fun_eq_iff)

end
