(* ===== verification/SftpClient.thy ===== *)
theory SftpClient
  imports RemoteLib Filesystem TreeServer
begin

text \<open>
  Package \<open>internal/sftpclient\<close> (\<open>client.go\<close>): the SFTP client confined to a remote root,
  with the translation of library errors into domain errors and the check against symbolic links
  that leave the root. Every operation is a computation over the remote world of
  \<open>RemoteLib\<close>; \<open>L\<close> is the library.
\<close>

abbreviation posixRenameExtension :: string where
  "posixRenameExtension \<equiv> ''posix-rename@openssh.com''"

record Client =
  ssh :: "handle option"
  sftp :: "handle option"
  root :: string

section \<open>Error translation\<close>

definition translateError :: "string \<Rightarrow> go_error \<Rightarrow> go_error" where
  "translateError op err =
     (if std_Is err EOF then err
      else if std_Is err DeadlineExceeded
      then Wrap KindTimeout op
        (''tiempo de espera agotado en la operaci'' @ o_acute @ ''n SFTP remota'') err
      else if std_Is err ErrNotExist
      then Wrap KindNotFound op ''ruta remota no encontrada'' err
      else if std_Is err ErrPermission
      then Wrap KindRemotePermissionDenied op ''permiso denegado en el servidor remoto'' err
      else if std_As_timeout err = Some True
      then Wrap KindTimeout op ''tiempo de espera agotado en el servidor remoto'' err
      else Wrap KindInternal op (''error en la operaci'' @ o_acute @ ''n SFTP remota'') err)"

text \<open>The tail of most operations: \<open>if err != nil { return translateError(op, err) }; return nil\<close>.\<close>

definition translated :: "string \<Rightarrow> go_error option \<Rightarrow> go_error option" where
  "translated op = map_option (translateError op)"

section \<open>Opening and closing\<close>

definition New_Client :: "'s sftp_lib \<Rightarrow> handle \<Rightarrow> string \<Rightarrow> (('s, 'm) world_scheme, Client result) state" where
  "New_Client L sshClient rt = do {
     raw \<leftarrow> send OpenSFTP (lib_NewClient L sshClient);
     case raw of
       Inl err \<Rightarrow> do {
         _ \<leftarrow> send CloseSSH (lib_CloseSSH L sshClient);
         return (Inl (Wrap KindSSHConnection ''sftpclient.New'' ''no se pudo abrir el canal SFTP'' err))
       }
     | Inr h \<Rightarrow> return (Inr \<lparr>ssh = Some sshClient, sftp = Some h, root = path_Clean (''/'' @ rt)\<rparr>)
   }"

definition Client_Close :: "'s sftp_lib \<Rightarrow> Client \<Rightarrow> (('s, 'm) world_scheme, go_error option) state" where
  "Client_Close L c = do {
     sftpErr \<leftarrow> (case sftp c of None \<Rightarrow> return None | Some h \<Rightarrow> send CloseSFTP (lib_CloseSFTP L h));
     sshErr \<leftarrow> (case ssh c of None \<Rightarrow> return None | Some h \<Rightarrow> send CloseSSH (lib_CloseSSH L h));
     return (if sftpErr \<noteq> None then sftpErr else sshErr)
   }"

definition HasPosixRename :: "'s sftp_lib \<Rightarrow> Client \<Rightarrow> (('s, 'm) world_scheme, bool) state" where
  "HasPosixRename L c = gets (\<lambda>w. lib_HasExtension L (sftp c) posixRenameExtension (remote w))"

section \<open>The symbolic-link check\<close>

definition errEscapingSymlink :: go_error where
  "errEscapingSymlink = New KindInvalidPath ''sftpclient.checkNoEscapingSymlink''
     (''la ruta remota es un enlace simb'' @ o_acute @ ''lico fuera de la ra'' @ i_acute @ ''z permitida'')"

definition checkNoEscapingSymlink ::
  "'s sftp_lib \<Rightarrow> Client \<Rightarrow> string \<Rightarrow> (('s, 'm) world_scheme, go_error option) state" where
  "checkNoEscapingSymlink L c remotePath = do {
     lstat \<leftarrow> send (Lstat remotePath) (lib_Lstat L (sftp c) remotePath);
     case lstat of
       Inl err \<Rightarrow>
         if std_Is err ErrNotExist then return None
         else return (Some (translateError ''sftpclient.checkNoEscapingSymlink'' err))
     | Inr info \<Rightarrow>
         if \<not> info_IsSymlink info then return None
         else do {
           target \<leftarrow> send (ReadLink remotePath) (lib_ReadLink L (sftp c) remotePath);
           case target of
             Inl err \<Rightarrow> return (Some (translateError ''sftpclient.checkNoEscapingSymlink'' err))
           | Inr target \<Rightarrow>
               let resolved = (if \<not> path_IsAbs target then path_Join [path_Dir remotePath, target]
                               else target);
                   resolved = path_Clean resolved
               in if \<not> WithinRoot (root c) resolved then return (Some errEscapingSymlink)
                  else return None
         }
   }"

section \<open>Operations\<close>

definition Client_Stat :: "'s sftp_lib \<Rightarrow> Client \<Rightarrow> string \<Rightarrow> (('s, 'm) world_scheme, FileInfo result) state" where
  "Client_Stat L c remotePath = do {
     err \<leftarrow> checkNoEscapingSymlink L c remotePath;
     case err of
       Some e \<Rightarrow> return (Inl e)
     | None \<Rightarrow> do {
         info \<leftarrow> send (Stat remotePath) (lib_Stat L (sftp c) remotePath);
         case info of
           Inl e \<Rightarrow> return (Inl (translateError ''sftpclient.Stat'' e))
         | Inr i \<Rightarrow> return (Inr i)
       }
   }"

text \<open>The loop of \<open>ReadDir\<close> that drops symbolic links leaving the root.\<close>

fun safe_entries :: "'s sftp_lib \<Rightarrow> Client \<Rightarrow> string \<Rightarrow> FileInfo list \<Rightarrow> (('s, 'm) world_scheme, FileInfo list) state" where
  "safe_entries L c remotePath [] = return []"
| "safe_entries L c remotePath (entry # es) = do {
     skip \<leftarrow> (if info_IsSymlink entry then do {
                 err \<leftarrow> checkNoEscapingSymlink L c (path_Join [remotePath, info_Name entry]);
                 return (err \<noteq> None)
               } else return False);
     rest \<leftarrow> safe_entries L c remotePath es;
     return (if skip then rest else entry # rest)
   }"

definition Client_ReadDir ::
  "'s sftp_lib \<Rightarrow> Client \<Rightarrow> string \<Rightarrow> duration \<Rightarrow> (('s, 'm) world_scheme, FileInfo list result) state" where
  "Client_ReadDir L c remotePath timeout = do {
     err \<leftarrow> checkNoEscapingSymlink L c remotePath;
     case err of
       Some e \<Rightarrow> return (Inl e)
     | None \<Rightarrow> do {
         entries \<leftarrow> send (ReadDir remotePath) (lib_ReadDirContext L (sftp c) timeout remotePath);
         case entries of
           Inl e \<Rightarrow> return (Inl (translateError ''sftpclient.ReadDir'' e))
         | Inr es \<Rightarrow> do { safe \<leftarrow> safe_entries L c remotePath es; return (Inr safe) }
       }
   }"

definition Client_OpenRead :: "'s sftp_lib \<Rightarrow> Client \<Rightarrow> string \<Rightarrow> (('s, 'm) world_scheme, handle result) state" where
  "Client_OpenRead L c remotePath = do {
     err \<leftarrow> checkNoEscapingSymlink L c remotePath;
     case err of
       Some e \<Rightarrow> return (Inl e)
     | None \<Rightarrow> do {
         f \<leftarrow> send (OpenFile remotePath O_RDONLY) (lib_OpenFile L (sftp c) remotePath O_RDONLY);
         case f of
           Inl e \<Rightarrow> return (Inl (translateError ''sftpclient.OpenRead'' e))
         | Inr h \<Rightarrow> return (Inr h)
       }
   }"

text \<open>\<open>O_WRONLY | O_CREATE | O_TRUNC\<close>: \<open>1 + 64 + 512\<close>.\<close>

abbreviation (input) create_flags :: int where "create_flags \<equiv> 577"

definition Client_CreateTemp :: "'s sftp_lib \<Rightarrow> Client \<Rightarrow> string \<Rightarrow> (('s, 'm) world_scheme, handle result) state" where
  "Client_CreateTemp L c remotePath = do {
     f \<leftarrow> send (OpenFile remotePath create_flags) (lib_OpenFile L (sftp c) remotePath create_flags);
     case f of
       Inl e \<Rightarrow> return (Inl (translateError ''sftpclient.CreateTemp'' e))
     | Inr h \<Rightarrow> return (Inr h)
   }"

definition errDestExists :: go_error where
  "errDestExists = New KindConflict ''sftpclient.Commit'' ''el archivo destino ya existe''"

definition rejectIfExists :: "'s sftp_lib \<Rightarrow> Client \<Rightarrow> string \<Rightarrow> (('s, 'm) world_scheme, go_error option) state" where
  "rejectIfExists L c remotePath = do {
     info \<leftarrow> send (Stat remotePath) (lib_Stat L (sftp c) remotePath);
     return (case info of Inr _ \<Rightarrow> Some errDestExists | Inl _ \<Rightarrow> None)
   }"

definition Client_Commit ::
  "'s sftp_lib \<Rightarrow> Client \<Rightarrow> string \<Rightarrow> string \<Rightarrow> bool \<Rightarrow> (('s, 'm) world_scheme, go_error option) state" where
  "Client_Commit L c tempPath finalPath overwrite = do {
     err \<leftarrow> checkNoEscapingSymlink L c finalPath;
     case err of
       Some e \<Rightarrow> return (Some e)
     | None \<Rightarrow> do {
         posix \<leftarrow> HasPosixRename L c;
         if posix then do {
           rej \<leftarrow> (if \<not> overwrite then rejectIfExists L c finalPath else return None);
           case rej of
             Some e \<Rightarrow> return (Some e)
           | None \<Rightarrow> do {
               err \<leftarrow> send (PosixRename tempPath finalPath) (lib_PosixRename L (sftp c) tempPath finalPath);
               return (translated ''sftpclient.Commit'' err)
             }
         } else do {
           stat \<leftarrow> send (Stat finalPath) (lib_Stat L (sftp c) finalPath);
           let exists = (\<not> isl stat);
           if exists \<and> \<not> overwrite then return (Some errDestExists)
           else do {
             err \<leftarrow> (if exists then send (Remove finalPath) (lib_Remove L (sftp c) finalPath)
                      else return None);
             case err of
               Some e \<Rightarrow> return (Some (translateError ''sftpclient.Commit'' e))
             | None \<Rightarrow> do {
                 err \<leftarrow> send (Rename tempPath finalPath) (lib_Rename L (sftp c) tempPath finalPath);
                 return (translated ''sftpclient.Commit'' err)
               }
           }
         }
       }
   }"

definition Client_Remove :: "'s sftp_lib \<Rightarrow> Client \<Rightarrow> string \<Rightarrow> (('s, 'm) world_scheme, go_error option) state" where
  "Client_Remove L c remotePath = do {
     err \<leftarrow> checkNoEscapingSymlink L c remotePath;
     case err of
       Some e \<Rightarrow> return (Some e)
     | None \<Rightarrow> do {
         err \<leftarrow> send (Remove remotePath) (lib_Remove L (sftp c) remotePath);
         return (translated ''sftpclient.Remove'' err)
       }
   }"

definition Client_RemoveDirectory :: "'s sftp_lib \<Rightarrow> Client \<Rightarrow> string \<Rightarrow> (('s, 'm) world_scheme, go_error option) state" where
  "Client_RemoveDirectory L c remotePath = do {
     err \<leftarrow> checkNoEscapingSymlink L c remotePath;
     case err of
       Some e \<Rightarrow> return (Some e)
     | None \<Rightarrow> do {
         err \<leftarrow> send (RemoveDirectory remotePath) (lib_RemoveDirectory L (sftp c) remotePath);
         return (translated ''sftpclient.RemoveDirectory'' err)
       }
   }"

definition Client_Mkdir :: "'s sftp_lib \<Rightarrow> Client \<Rightarrow> string \<Rightarrow> (('s, 'm) world_scheme, go_error option) state" where
  "Client_Mkdir L c remotePath = do {
     err \<leftarrow> send (Mkdir remotePath) (lib_Mkdir L (sftp c) remotePath);
     return (translated ''sftpclient.Mkdir'' err)
   }"

definition errRenameExists :: go_error where
  "errRenameExists = New KindConflict ''sftpclient.Rename'' ''el destino del renombrado ya existe''"

definition Client_Rename ::
  "'s sftp_lib \<Rightarrow> Client \<Rightarrow> string \<Rightarrow> string \<Rightarrow> bool \<Rightarrow> (('s, 'm) world_scheme, go_error option) state" where
  "Client_Rename L c oldPath newPath overwrite = do {
     err1 \<leftarrow> checkNoEscapingSymlink L c oldPath;
     case err1 of
       Some e \<Rightarrow> return (Some e)
     | None \<Rightarrow> do {
     err2 \<leftarrow> checkNoEscapingSymlink L c newPath;
     case err2 of
       Some e \<Rightarrow> return (Some e)
     | None \<Rightarrow> do {
     posix \<leftarrow> HasPosixRename L c;
     if posix then do {
       rej \<leftarrow> (if \<not> overwrite then rejectIfExists L c newPath else return None);
       case rej of
         Some e \<Rightarrow> return (Some e)
       | None \<Rightarrow> do {
           err \<leftarrow> send (PosixRename oldPath newPath) (lib_PosixRename L (sftp c) oldPath newPath);
           return (translated ''sftpclient.Rename'' err)
         }
     } else do {
       stat \<leftarrow> send (Stat newPath) (lib_Stat L (sftp c) newPath);
       err \<leftarrow> (case stat of
                  Inl _ \<Rightarrow> return None
                | Inr _ \<Rightarrow>
                    if \<not> overwrite then return (Some errRenameExists)
                    else do {
                      err \<leftarrow> send (Remove newPath) (lib_Remove L (sftp c) newPath);
                      return (translated ''sftpclient.Rename'' err)
                    });
       case err of
         Some e \<Rightarrow> return (Some e)
       | None \<Rightarrow> do {
           err \<leftarrow> send (Rename oldPath newPath) (lib_Rename L (sftp c) oldPath newPath);
           return (translated ''sftpclient.Rename'' err)
         }
     }}}
   }"

definition Client_Ping :: "'s sftp_lib \<Rightarrow> Client \<Rightarrow> (('s, 'm) world_scheme, go_error option) state" where
  "Client_Ping L c = do {
     r \<leftarrow> send (Stat (root c)) (lib_Stat L (sftp c) (root c));
     return (case r of Inl e \<Rightarrow> Some e | Inr _ \<Rightarrow> None)
   }"

lemmas client_defs = New_Client_def Client_Close_def HasPosixRename_def checkNoEscapingSymlink_def
  Client_Stat_def Client_ReadDir_def Client_OpenRead_def Client_CreateTemp_def rejectIfExists_def
  Client_Commit_def Client_Remove_def Client_RemoveDirectory_def Client_Mkdir_def Client_Rename_def
  Client_Ping_def

section \<open>What each operation sends\<close>

text \<open>
  One rule per operation: the requests it can send, as premises. They are used backwards, so a
  predicate on requests is established for a caller by checking it on the requests of its callees.
\<close>

lemma emits_checkNoEscapingSymlink [emits_rules]:
  "P (Lstat p) \<Longrightarrow> P (ReadLink p) \<Longrightarrow> emits wire P (checkNoEscapingSymlink L c p)"
  by (auto simp: checkNoEscapingSymlink_def Let_def intro!: emits_rules)

lemma emits_New_Client [emits_rules]:
  "P OpenSFTP \<Longrightarrow> P CloseSSH \<Longrightarrow> emits wire P (New_Client L h rt)"
  by (auto simp: New_Client_def intro!: emits_rules)

lemma emits_Client_Close [emits_rules]:
  "P CloseSFTP \<Longrightarrow> P CloseSSH \<Longrightarrow> emits wire P (Client_Close L c)"
  by (auto simp: Client_Close_def intro!: emits_rules)

lemma emits_HasPosixRename [emits_rules]: "emits wire P (HasPosixRename L c)"
  by (auto simp: HasPosixRename_def intro!: emits_rules)

lemma emits_Client_Stat [emits_rules]:
  "P (Lstat p) \<Longrightarrow> P (ReadLink p) \<Longrightarrow> P (Stat p) \<Longrightarrow> emits wire P (Client_Stat L c p)"
  by (auto simp: Client_Stat_def intro!: emits_rules)

lemma emits_Client_OpenRead [emits_rules]:
  "P (Lstat p) \<Longrightarrow> P (ReadLink p) \<Longrightarrow> P (OpenFile p O_RDONLY) \<Longrightarrow> emits wire P (Client_OpenRead L c p)"
  by (auto simp: Client_OpenRead_def intro!: emits_rules)

lemma emits_Client_CreateTemp [emits_rules]:
  "P (OpenFile p create_flags) \<Longrightarrow> emits wire P (Client_CreateTemp L c p)"
  by (auto simp: Client_CreateTemp_def intro!: emits_rules)

lemma emits_rejectIfExists [emits_rules]: "P (Stat p) \<Longrightarrow> emits wire P (rejectIfExists L c p)"
  by (auto simp: rejectIfExists_def intro!: emits_rules)

lemma emits_Client_Commit [emits_rules]:
  "P (Lstat q) \<Longrightarrow> P (ReadLink q) \<Longrightarrow> P (Stat q) \<Longrightarrow> P (PosixRename p q) \<Longrightarrow> P (Rename p q)
   \<Longrightarrow> (ow \<Longrightarrow> P (Remove q)) \<Longrightarrow> emits wire P (Client_Commit L c p q ow)"
  by (auto simp: Client_Commit_def Let_def intro!: emits_rules)

lemma emits_Client_Remove [emits_rules]:
  "P (Lstat p) \<Longrightarrow> P (ReadLink p) \<Longrightarrow> P (Remove p) \<Longrightarrow> emits wire P (Client_Remove L c p)"
  by (auto simp: Client_Remove_def intro!: emits_rules)

lemma emits_Client_RemoveDirectory [emits_rules]:
  "P (Lstat p) \<Longrightarrow> P (ReadLink p) \<Longrightarrow> P (RemoveDirectory p) \<Longrightarrow> emits wire P (Client_RemoveDirectory L c p)"
  by (auto simp: Client_RemoveDirectory_def intro!: emits_rules)

lemma emits_Client_Mkdir [emits_rules]: "P (Mkdir p) \<Longrightarrow> emits wire P (Client_Mkdir L c p)"
  by (auto simp: Client_Mkdir_def intro!: emits_rules)

lemma emits_Client_Rename [emits_rules]:
  "P (Lstat p) \<Longrightarrow> P (ReadLink p) \<Longrightarrow> P (Lstat q) \<Longrightarrow> P (ReadLink q) \<Longrightarrow> P (Stat q)
   \<Longrightarrow> P (PosixRename p q) \<Longrightarrow> P (Rename p q) \<Longrightarrow> (ow \<Longrightarrow> P (Remove q))
   \<Longrightarrow> emits wire P (Client_Rename L c p q ow)"
  by (auto simp: Client_Rename_def intro!: emits_rules)

lemma emits_safe_entries:
  assumes "\<And>e. e \<in> set es \<Longrightarrow> P (Lstat (path_Join [p, info_Name e])) \<and> P (ReadLink (path_Join [p, info_Name e]))"
  shows "emits wire P (safe_entries L c p es)"
  using assms by (induction es) (auto intro!: emits_rules)

text \<open>
  A directory listing names entries of that directory: no entry's name is empty, \<open>.\<close>,
  \<open>..\<close> or has a slash. \<open>pkg/sftp\<close> drops the first two and applies \<open>path.Base\<close>
  to every name it returns.
\<close>

definition plain_listings :: "'s sftp_lib \<Rightarrow> bool" where
  "plain_listings L \<longleftrightarrow> (\<forall>h t p s es s'. lib_ReadDirContext L h t p s = (Inr es, s')
     \<longrightarrow> (\<forall>e \<in> set es. plain_comp (info_Name e)))"

lemma emits_Client_ReadDir:
  assumes "P (Lstat p)" "P (ReadLink p)" "P (ReadDir p)" and "plain_listings L"
    and "\<And>n. plain_comp n \<Longrightarrow> P (Lstat (path_Join [p, n])) \<and> P (ReadLink (path_Join [p, n]))"
  shows "emits wire P (Client_ReadDir L c p t)"
proof -
  have *: "emits wire P (safe_entries L c p es)"
    if "run_state (send (ReadDir p) (lib_ReadDirContext L (sftp c) t p)) w = (Inr es, w')" for w w' es
  proof (rule emits_safe_entries)
    fix e assume "e \<in> set es"
    then have "plain_comp (info_Name e)"
      using that assms(4) unfolding plain_listings_def run_send by (metis fst_conv prod.collapse)
    then show "P (Lstat (path_Join [p, info_Name e])) \<and> P (ReadLink (path_Join [p, info_Name e]))"
      by (rule assms(5))
  qed
  have rd: "emits wire P (send (ReadDir p) (lib_ReadDirContext L (sftp c) t p) \<bind>
      (\<lambda>entries. case entries of Inl e \<Rightarrow> return (Inl (translateError ''sftpclient.ReadDir'' e))
        | Inr es \<Rightarrow> safe_entries L c p es \<bind> (\<lambda>safe. return (Inr safe))))"
    by (rule emits_bind_results) (auto intro!: emits_rules assms * split: sum.split)
  show ?thesis
    unfolding Client_ReadDir_def
    by (rule emits_bind, rule emits_checkNoEscapingSymlink [of P, OF assms(1,2)], rule emits_option,
        rule rd, rule emits_return)
qed

section \<open>Error kinds\<close>

lemma KindOf_translateError:
  "KindOf (translateError op err) =
     (if std_Is err EOF then KindOf err
      else if std_Is err DeadlineExceeded then KindTimeout
      else if std_Is err ErrNotExist then KindNotFound
      else if std_Is err ErrPermission then KindRemotePermissionDenied
      else if std_As_timeout err = Some True then KindTimeout else KindInternal)"
  by (simp add: translateError_def)

section \<open>Symbolic links that leave the root\<close>

text \<open>
  The path is, at the moment of the check, a symbolic link whose target, made absolute against
  the link's directory, is not inside the client's root.
\<close>

definition escaping_link :: "'s sftp_lib \<Rightarrow> Client \<Rightarrow> string \<Rightarrow> 's \<Rightarrow> bool" where
  "escaping_link L c p s = (case lib_Lstat L (sftp c) p s of
     (Inl _, _) \<Rightarrow> False
   | (Inr info, s1) \<Rightarrow> info_IsSymlink info \<and> (case fst (lib_ReadLink L (sftp c) p s1) of
         Inl _ \<Rightarrow> False
       | Inr t \<Rightarrow> \<not> WithinRoot (root c) (path_Clean (if path_IsAbs t then t else path_Join [path_Dir p, t]))))"

definition refused_link :: "'s sftp_lib \<Rightarrow> Client \<Rightarrow> string \<Rightarrow> ('s, 'm) world_scheme \<Rightarrow> ('s, 'm) world_scheme" where
  "refused_link L c p w =
     w\<lparr>remote := snd (lib_ReadLink L (sftp c) p (snd (lib_Lstat L (sftp c) p (remote w)))),
       wire := wire w @ [Lstat p, ReadLink p]\<rparr>"

lemma check_escaping_link:
  "escaping_link L c p (remote w) \<Longrightarrow>
   run_state (checkNoEscapingSymlink L c p) w = (Some errEscapingSymlink, refused_link L c p w)"
  by (auto simp: checkNoEscapingSymlink_def escaping_link_def refused_link_def run_send Let_def
      split: prod.splits sum.splits)

text \<open>
  (C30) A symbolic link that leaves the root blocks every operation that follows it: stat, listing,
  reading, deleting, removing a directory, renaming it and being the destination of an upload's
  commit all fail with an invalid-path error, after exactly one \<open>Lstat\<close> and one
  \<open>ReadLink\<close> of that path, so the operation itself never reaches the remote server.
\<close>

theorem escaping_symlink_blocked:
  assumes "escaping_link L c p (remote w)"
  shows "run_state (Client_Stat L c p) w = (Inl errEscapingSymlink, refused_link L c p w)
    \<and> run_state (Client_ReadDir L c p t) w = (Inl errEscapingSymlink, refused_link L c p w)
    \<and> run_state (Client_OpenRead L c p) w = (Inl errEscapingSymlink, refused_link L c p w)
    \<and> run_state (Client_Remove L c p) w = (Some errEscapingSymlink, refused_link L c p w)
    \<and> run_state (Client_RemoveDirectory L c p) w = (Some errEscapingSymlink, refused_link L c p w)
    \<and> run_state (Client_Rename L c p q ow) w = (Some errEscapingSymlink, refused_link L c p w)
    \<and> run_state (Client_Commit L c tmp p ow) w = (Some errEscapingSymlink, refused_link L c p w)"
  using check_escaping_link [OF assms]
  by (simp add: Client_Stat_def Client_ReadDir_def Client_OpenRead_def Client_Remove_def
      Client_RemoveDirectory_def Client_Rename_def Client_Commit_def)

definition tree_client :: Client where
  "tree_client = \<lparr>ssh = Some 0, sftp = Some 1, root = ''/data''\<rparr>"

definition linked_tree :: tree where
  "linked_tree = empty_tree\<lparr>nodes := [(''/data'', DirNode), (''/data/out'', LinkNode ''../etc/passwd''),
     (''/data/a'', FileNode [1])]\<rparr>"

theorem escaping_symlink_blocked_witness:
  "run_state (Client_OpenRead tree_lib tree_client ''/data/out'') \<lparr>remote = linked_tree, wire = []\<rparr>
   = (Inl errEscapingSymlink, \<lparr>remote = linked_tree, wire = [Lstat ''/data/out'', ReadLink ''/data/out'']\<rparr>)"
proof -
  have e: "escaping_link tree_lib tree_client ''/data/out'' linked_tree" by code_simp
  have l: "refused_link tree_lib tree_client ''/data/out'' \<lparr>remote = linked_tree, wire = []\<rparr>
    = \<lparr>remote = linked_tree, wire = [Lstat ''/data/out'', ReadLink ''/data/out'']\<rparr>"
    by (simp add: refused_link_def tree_lib_def tree_ReadLink_def tree_Lstat_def)
  show ?thesis
    using escaping_symlink_blocked [of tree_lib tree_client "''/data/out''" "\<lparr>remote = linked_tree, wire = []\<rparr>"] e l
    by simp
qed

section \<open>Overwriting\<close>

text \<open>The remote server answers a stat of the path with success, whatever its state.\<close>

definition always_there :: "'s sftp_lib \<Rightarrow> Client \<Rightarrow> string \<Rightarrow> bool" where
  "always_there L c p \<longleftrightarrow> (\<forall>s. \<not> isl (fst (lib_Stat L (sftp c) p s)))"

lemma always_thereD: "always_there L c p \<Longrightarrow> \<exists>i. fst (lib_Stat L (sftp c) p s) = Inr i"
  unfolding always_there_def by (metis isl_def sum.exhaust_sel)

lemma run_rejectIfExists:
  "always_there L c p \<Longrightarrow> run_state (rejectIfExists L c p) w =
     (Some errDestExists, w\<lparr>remote := snd (lib_Stat L (sftp c) p (remote w)), wire := wire w @ [Stat p]\<rparr>)"
  using always_thereD [of L c p "remote w"] by (auto simp: rejectIfExists_def run_send)

lemma check_silent:
  assumes "run_state (checkNoEscapingSymlink L c p) w = (r, w')"
  obtains qs where "wire w' = wire w @ qs" and "list_all (Not \<circ> mutating) qs"
  by (rule emitsE [OF emits_checkNoEscapingSymlink [of "Not \<circ> mutating" p L c] assms]) (simp_all add: that)


text \<open>The tree server with a stat that always succeeds, as for a path nobody removes.\<close>

definition settled_lib :: "tree sftp_lib" where
  "settled_lib = tree_lib\<lparr>lib_Stat := (\<lambda>h p s. (Inr (node_info p (FileNode [])), s))\<rparr>"


section \<open>Errors of the library\<close>

text \<open>
  What \<open>translateError\<close> makes of a library error: an end of file passes through
  unchanged (so \<open>io.Reader\<close> callers still see it); every other error becomes a domain error
  whose text is one of the fixed messages, never the library's, and whose kind is one of timeout,
  not-found, permission-denied or internal. In particular no library error is ever translated to
  the kinds \<open>ssh_connection\<close> or \<open>disconnected\<close>.
\<close>

theorem translateError_kinds:
  "(std_Is err EOF \<longrightarrow> translateError op err = err)
   \<and> (\<not> std_Is err EOF \<longrightarrow>
        KindOf (translateError op err) \<in> {KindTimeout, KindNotFound, KindRemotePermissionDenied, KindInternal}
        \<and> Unwrap (translateError op err) = Some err
        \<and> (\<forall>err'. KindOf (translateError op err') = KindOf (translateError op err) \<and> \<not> std_Is err' EOF
             \<and> std_Is err' DeadlineExceeded = std_Is err DeadlineExceeded
             \<longrightarrow> Error (translateError op err') = Error (translateError op err)))"
  by (simp add: translateError_def Wrap_def KindOf_def)

theorem translateError_kinds_witness:
  "KindOf (translateError ''sftpclient.Stat'' tree_lost)
     \<in> {KindTimeout, KindNotFound, KindRemotePermissionDenied, KindInternal}"
proof -
  have "\<not> std_Is tree_lost EOF" by (simp add: tree_lost_def)
  then show ?thesis using translateError_kinds [of tree_lost "''sftpclient.Stat''"] by blast
qed

end
