(* ===== verification/Transfers.thy ===== *)
theory Transfers
  imports RemoteLib Filesystem
begin

text \<open>
  Package \<open>internal/transfer\<close>: one FTP upload (\<open>upload.go\<close>) or download
  (\<open>download.go\<close>). As in the code, the package depends only on the interface
  \<open>RemoteFS\<close> (\<open>transfer.go\<close>), here a record of computations over an arbitrary world
  \<open>'w\<close>; the callbacks of the options are computations too. A handle is owned by one
  transfer, so its operations take the handle and return it updated.

  A hasher is the list of bytes fed to it; the digest function is an argument of \<open>Close\<close>.
  The method \<open>Write\<close> of the remote file returns a count that the contract of
  \<open>io.Writer\<close> bounds by the length of the slice.
\<close>

section \<open>transfer.go\<close>

record 'w WriteCloser =
  wc_Write :: "bytes \<Rightarrow> ('w, int \<times> go_error option) state"
  wc_Close :: "('w, go_error option) state"

record 'w ReadSeekCloser =
  rc_Read :: "nat \<Rightarrow> ('w, bytes \<times> go_error option) state"
  rc_Seek :: "int \<Rightarrow> int \<Rightarrow> ('w, int \<times> go_error option) state"
  rc_Close :: "('w, go_error option) state"

record 'w RemoteFS =
  fs_Stat :: "string \<Rightarrow> ('w, FileInfo result) state"
  fs_OpenRead :: "string \<Rightarrow> ('w, 'w ReadSeekCloser result) state"
  fs_CreateTemp :: "string \<Rightarrow> ('w, 'w WriteCloser result) state"
  fs_Commit :: "string \<Rightarrow> string \<Rightarrow> bool \<Rightarrow> ('w, go_error option) state"
  fs_Remove :: "string \<Rightarrow> ('w, go_error option) state"

text \<open>The phases; \<open>PhaseNone\<close> is the empty string, the zero value of the type.\<close>

datatype Phase = PhaseNone | PhaseStarted | PhaseWritten | PhaseCommitted | PhaseFailed

record Result =
  TransferID :: string
  SessionID :: string
  VirtualPath :: string
  RemotePath :: string
  Bytes :: int
  SHA256 :: string
  Phase :: Phase
  Err :: "go_error option"

definition TempPath :: "string \<Rightarrow> string \<Rightarrow> string \<Rightarrow> string" where
  "TempPath finalRemotePath sessionID suff =
     (let dir = path_Dir finalRemotePath;
          base = path_Base finalRemotePath
      in path_Join [dir, base @ suff @ ''-'' @ sessionID])"

definition isNotFound :: "go_error \<Rightarrow> bool" where
  "isNotFound err = Is err KindNotFound"

section \<open>upload.go\<close>

record 'w UploadOptions =
  up_SessionID :: string
  up_TransferID :: string
  up_VirtualPath :: string
  up_MaxSize :: int
  up_Overwrite :: bool
  up_CalculateSHA256 :: bool
  up_TemporarySuffix :: string
  up_OnComplete :: "(Result \<Rightarrow> ('w, unit) state) option"
  up_Release :: "('w, unit) state option"

record 'w UploadHandle =
  u_fs :: "'w RemoteFS"
  u_file :: "'w WriteCloser"
  u_hasher :: "bytes option"
  u_tempPath :: string
  u_finalPath :: string
  u_opts :: "'w UploadOptions"
  u_written :: int
  u_failed :: bool
  u_failErr :: "go_error option"
  u_closed :: bool

definition errUploadExists :: go_error where
  "errUploadExists = New KindConflict ''transfer.NewUpload'' ''el archivo destino ya existe''"

definition NewUpload :: "'w RemoteFS \<Rightarrow> string \<Rightarrow> 'w UploadOptions \<Rightarrow> ('w, 'w UploadHandle result) state" where
  "NewUpload fs finalRemotePath opts = do {
     conflict \<leftarrow> (if \<not> up_Overwrite opts then do {
                     info \<leftarrow> fs_Stat fs finalRemotePath;
                     return (case info of
                         Inr _ \<Rightarrow> Some errUploadExists
                       | Inl err \<Rightarrow> if \<not> isNotFound err then Some err else None)
                   } else return None);
     case conflict of
       Some e \<Rightarrow> return (Inl e)
     | None \<Rightarrow> do {
         let tempPath = TempPath finalRemotePath (up_SessionID opts) (up_TemporarySuffix opts);
         file \<leftarrow> fs_CreateTemp fs tempPath;
         case file of
           Inl err \<Rightarrow> return (Inl err)
         | Inr f \<Rightarrow> return (Inr \<lparr>u_fs = fs, u_file = f,
             u_hasher = (if up_CalculateSHA256 opts then Some [] else None),
             u_tempPath = tempPath, u_finalPath = finalRemotePath, u_opts = opts,
             u_written = 0, u_failed = False, u_failErr = None, u_closed = False\<rparr>)
       }
   }"

definition errTooLarge :: go_error where
  "errTooLarge = New KindAuthorization ''transfer.Write''
     (''el archivo excede el tama'' @ n_tilde @ ''o m'' @ a_acute @ ''ximo permitido'')"

definition Upload_Write :: "'w UploadHandle \<Rightarrow> bytes \<Rightarrow> ('w, (int \<times> go_error option) \<times> 'w UploadHandle) state" where
  "Upload_Write u p =
     (if up_MaxSize (u_opts u) > 0 \<and> wrap64 (u_written u + int (length p)) > up_MaxSize (u_opts u)
      then return ((0, Some errTooLarge), u\<lparr>u_failed := True, u_failErr := Some errTooLarge\<rparr>)
      else do {
        res \<leftarrow> wc_Write (u_file u) p;
        let (n, err) = res;
        let u = u\<lparr>u_written := wrap64 (u_written u + n)\<rparr>;
        let u = (case u_hasher u of
            Some h \<Rightarrow> if n > 0 then u\<lparr>u_hasher := Some (h @ take (nat n) p)\<rparr> else u
          | None \<Rightarrow> u);
        let u = (if err \<noteq> None then u\<lparr>u_failed := True, u_failErr := err\<rparr> else u);
        return ((n, err), u)
      })"

definition Upload_Read :: "'w UploadHandle \<Rightarrow> int \<times> go_error option" where
  "Upload_Read u = (0, Some (New KindInternal ''transfer.Read''
     (''operaci'' @ o_acute @ ''n no soportada durante una subida'')))"

abbreviation (input) io_SeekStart :: int where "io_SeekStart \<equiv> 0"

definition Upload_Seek :: "'w UploadHandle \<Rightarrow> int \<Rightarrow> int \<Rightarrow> int \<times> go_error option" where
  "Upload_Seek u offset whence =
     (if offset = 0 \<and> whence = io_SeekStart then (0, None)
      else (0, Some (New KindUnsupportedCommand ''transfer.Seek''
        (''reanudar subidas (REST) no est'' @ a_acute @ '' soportado''))))"

definition Upload_TransferError :: "'w UploadHandle \<Rightarrow> go_error option \<Rightarrow> 'w UploadHandle" where
  "Upload_TransferError u err =
     (let u = u\<lparr>u_failed := True\<rparr>
      in if u_failErr u = None then u\<lparr>u_failErr := err\<rparr> else u)"

definition run_OnComplete :: "(Result \<Rightarrow> ('w, unit) state) option \<Rightarrow> Result \<Rightarrow> ('w, unit) state" where
  "run_OnComplete cb r = (case cb of None \<Rightarrow> return () | Some f \<Rightarrow> f r)"

definition run_Release :: "('w, unit) state option \<Rightarrow> ('w, unit) state" where
  "run_Release cb = (case cb of None \<Rightarrow> return () | Some m \<Rightarrow> m)"

text \<open>
  \<open>Close\<close>, in the steps of its body: the error of closing the remote file is noted, the
  result is assembled, then the temporary file is removed (after a failure) or committed. The
  deferred \<open>Release\<close> runs when the function returns, after \<open>OnComplete\<close>, on each
  of the paths.
\<close>

definition note_close_error :: "'w UploadHandle \<Rightarrow> go_error option \<Rightarrow> 'w UploadHandle" where
  "note_close_error u closeErr =
     (if closeErr \<noteq> None
      then (let u = u\<lparr>u_failed := True\<rparr>
            in if u_failErr u = None then u\<lparr>u_failErr := closeErr\<rparr> else u)
      else u)"

definition upload_result :: "(bytes \<Rightarrow> bytes) \<Rightarrow> 'w UploadHandle \<Rightarrow> Result" where
  "upload_result sha256 u =
     \<lparr>TransferID = up_TransferID (u_opts u), SessionID = up_SessionID (u_opts u),
      VirtualPath = up_VirtualPath (u_opts u), RemotePath = u_finalPath u, Bytes = u_written u,
      SHA256 = (case u_hasher u of None \<Rightarrow> [] | Some h \<Rightarrow> hex_encode (sha256 h)),
      Phase = PhaseNone, Err = None\<rparr>"

definition upload_finish :: "'w UploadHandle \<Rightarrow> Result \<Rightarrow> ('w, go_error option) state" where
  "upload_finish u res =
     (if u_failed u then do {
        _ \<leftarrow> fs_Remove (u_fs u) (u_tempPath u);
        _ \<leftarrow> run_OnComplete (up_OnComplete (u_opts u))
               (res\<lparr>Phase := PhaseFailed, Err := u_failErr u\<rparr>);
        return (u_failErr u)
      } else do {
        let res = res\<lparr>Phase := PhaseWritten\<rparr>;
        err \<leftarrow> fs_Commit (u_fs u) (u_tempPath u) (u_finalPath u) (up_Overwrite (u_opts u));
        case err of
          Some e \<Rightarrow> do {
            _ \<leftarrow> fs_Remove (u_fs u) (u_tempPath u);
            _ \<leftarrow> run_OnComplete (up_OnComplete (u_opts u))
                   (res\<lparr>Phase := PhaseFailed, Err := Some e\<rparr>);
            return (Some e)
          }
        | None \<Rightarrow> do {
            _ \<leftarrow> run_OnComplete (up_OnComplete (u_opts u)) (res\<lparr>Phase := PhaseCommitted\<rparr>);
            return None
          }
      })"

definition Upload_Close ::
  "(bytes \<Rightarrow> bytes) \<Rightarrow> 'w UploadHandle \<Rightarrow> ('w, go_error option \<times> 'w UploadHandle) state" where
  "Upload_Close sha256 u =
     (if u_closed u then return (None, u)
      else do {
        closeErr \<leftarrow> wc_Close (u_file u);
        let u = note_close_error (u\<lparr>u_closed := True\<rparr>) closeErr;
        err \<leftarrow> upload_finish u (upload_result sha256 u);
        _ \<leftarrow> run_Release (up_Release (u_opts u));
        return (err, u)
      })"

section \<open>download.go\<close>

record 'w DownloadOptions =
  dn_SessionID :: string
  dn_TransferID :: string
  dn_VirtualPath :: string
  dn_CalculateSHA256 :: bool
  dn_OnComplete :: "(Result \<Rightarrow> ('w, unit) state) option"
  dn_Release :: "('w, unit) state option"

record 'w DownloadHandle =
  d_file :: "'w ReadSeekCloser"
  d_hasher :: "bytes option"
  d_remotePath :: string
  d_opts :: "'w DownloadOptions"
  d_read :: int
  d_failed :: bool
  d_failErr :: "go_error option"
  d_closed :: bool

definition NewDownload :: "'w RemoteFS \<Rightarrow> string \<Rightarrow> 'w DownloadOptions \<Rightarrow> ('w, 'w DownloadHandle result) state" where
  "NewDownload fs remotePath opts = do {
     file \<leftarrow> fs_OpenRead fs remotePath;
     case file of
       Inl err \<Rightarrow> return (Inl err)
     | Inr f \<Rightarrow> return (Inr \<lparr>d_file = f,
         d_hasher = (if dn_CalculateSHA256 opts then Some [] else None),
         d_remotePath = remotePath, d_opts = opts, d_read = 0, d_failed = False,
         d_failErr = None, d_closed = False\<rparr>)
   }"

text \<open>\<open>Read\<close> into a buffer of \<open>size\<close> bytes returns the bytes read (Go's \<open>p[:n]\<close>) and the error.\<close>

definition Download_Read :: "'w DownloadHandle \<Rightarrow> nat \<Rightarrow> ('w, (bytes \<times> go_error option) \<times> 'w DownloadHandle) state" where
  "Download_Read d sz = do {
     res \<leftarrow> rc_Read (d_file d) sz;
     let (data, err) = res;
     let d = (if data \<noteq> [] then
                (let d = d\<lparr>d_read := wrap64 (d_read d + int (length data))\<rparr>
                 in case d_hasher d of Some h \<Rightarrow> d\<lparr>d_hasher := Some (h @ data)\<rparr> | None \<Rightarrow> d)
              else d);
     let d = (case err of
                Some e \<Rightarrow> if \<not> std_Is e EOF then d\<lparr>d_failed := True, d_failErr := Some e\<rparr> else d
              | None \<Rightarrow> d);
     return ((data, err), d)
   }"

definition Download_Write :: "'w DownloadHandle \<Rightarrow> int \<times> go_error option" where
  "Download_Write d = (0, Some (New KindInternal ''transfer.Write''
     (''operaci'' @ o_acute @ ''n no soportada durante una descarga'')))"

definition Download_Seek :: "'w DownloadHandle \<Rightarrow> int \<Rightarrow> int \<Rightarrow> ('w, int \<times> go_error option) state" where
  "Download_Seek d offset whence = rc_Seek (d_file d) offset whence"

definition Download_TransferError :: "'w DownloadHandle \<Rightarrow> go_error option \<Rightarrow> 'w DownloadHandle" where
  "Download_TransferError d err =
     (let d = d\<lparr>d_failed := True\<rparr>
      in if d_failErr d = None then d\<lparr>d_failErr := err\<rparr> else d)"

definition download_result :: "(bytes \<Rightarrow> bytes) \<Rightarrow> 'w DownloadHandle \<Rightarrow> go_error option \<Rightarrow> Result" where
  "download_result sha256 d closeErr =
     (let res = \<lparr>TransferID = dn_TransferID (d_opts d), SessionID = dn_SessionID (d_opts d),
        VirtualPath = dn_VirtualPath (d_opts d), RemotePath = d_remotePath d,
        Bytes = d_read d,
        SHA256 = (case d_hasher d of None \<Rightarrow> [] | Some h \<Rightarrow> hex_encode (sha256 h)),
        Phase = PhaseWritten, Err = None\<rparr>
      in if d_failed d then res\<lparr>Phase := PhaseFailed, Err := d_failErr d\<rparr>
         else if closeErr \<noteq> None then res\<lparr>Phase := PhaseFailed, Err := closeErr\<rparr>
         else res\<lparr>Phase := PhaseCommitted\<rparr>)"

definition Download_Close ::
  "(bytes \<Rightarrow> bytes) \<Rightarrow> 'w DownloadHandle \<Rightarrow> ('w, go_error option \<times> 'w DownloadHandle) state" where
  "Download_Close sha256 d =
     (if d_closed d then return (None, d)
      else do {
        let d = d\<lparr>d_closed := True\<rparr>;
        closeErr \<leftarrow> rc_Close (d_file d);
        let res = download_result sha256 d closeErr;
        _ \<leftarrow> run_OnComplete (dn_OnComplete (d_opts d)) res;
        _ \<leftarrow> run_Release (dn_Release (d_opts d));
        return (if d_failed d then d_failErr d else closeErr, d)
      })"

section \<open>Temporary names\<close>

lemma plain_temp_name:
  assumes "plain_comp c" and "slash \<notin> set suff" and "slash \<notin> set sid"
  shows "plain_comp (c @ suff @ ''-'' @ sid)"
  using assms by (auto simp: plain_comp_def Cons_eq_append_conv append_eq_Cons_conv)

lemma TempPath_abs_path [path_simps]:
  assumes "plain_list cs" and "plain_comp c" and "slash \<notin> set suff" and "slash \<notin> set sid"
  shows "TempPath (abs_path (cs @ [c])) sid suff = abs_path (cs @ [c @ suff @ ''-'' @ sid])"
  using assms plain_temp_name [OF assms(2-4)]
  by (simp add: TempPath_def path_simps)

lemma strictly_within_decomp:
  assumes "clean_abs rt" and "clean_abs p" and "WithinRoot rt p" and "p \<noteq> rt"
  obtains rs ps c where "plain_list rs" and "plain_list ps" and "plain_comp c"
    and "rt = abs_path rs" and "p = abs_path (ps @ [c])" and "prefix rs ps"
proof -
  obtain rs xs where d: "plain_list rs" "plain_list xs" "rt = abs_path rs" "p = abs_path (rs @ xs)"
    using within_decomp [OF assms(1-3)] .
  with assms(4) have "xs \<noteq> []" by auto
  then obtain qs c where "xs = qs @ [c]" by (cases xs rule: rev_cases) auto
  with d that [of rs "rs @ qs" c] show thesis by simp
qed

lemma TempPath_neq:
  assumes "clean_abs final" and "final \<noteq> ''/''" and "slash \<notin> set suff" and "slash \<notin> set sid"
  shows "TempPath final sid suff \<noteq> final"
proof -
  obtain cs c where f: "plain_list cs" "plain_comp c" "final = abs_path (cs @ [c])"
    using clean_abs_snocE [OF assms(1,2)] .
  with plain_temp_name [OF f(2) assms(3,4)] assms(3,4) show ?thesis
    by (simp add: TempPath_abs_path abs_path_inj)
qed

lemma TempPath_within:
  assumes "clean_abs rt" and "clean_abs final" and "WithinRoot rt final" and "final \<noteq> rt"
    and "slash \<notin> set suff" and "slash \<notin> set sid"
  shows "WithinRoot rt (TempPath final sid suff)"
proof -
  obtain rs ps c where d: "plain_list rs" "plain_list ps" "plain_comp c" "rt = abs_path rs"
    "final = abs_path (ps @ [c])" "prefix rs ps"
    using strictly_within_decomp [OF assms(1-4)] .
  then show ?thesis
    using plain_temp_name [OF d(3) assms(5,6)] assms(5,6) by (simp add: path_simps)
qed

text \<open>
  The temporary name of an upload (RF-007) for a target strictly below the remote root: it is
  a cleaned path in the same remote directory as the target, still inside the root, different
  from the target, and its last component carries the marker by which listings hide it.
\<close>

theorem TempPath_beside_target:
  assumes "clean_abs rt" and "clean_abs final" and "WithinRoot rt final" and "final \<noteq> rt"
    and "slash \<notin> set suff" and "slash \<notin> set sid"
  shows "clean_abs (TempPath final sid suff) \<and> WithinRoot rt (TempPath final sid suff)
    \<and> path_Dir (TempPath final sid suff) = path_Dir final \<and> TempPath final sid suff \<noteq> final
    \<and> Contains (path_Base (TempPath final sid suff)) (suff @ ''-'')"
proof -
  obtain rs ps c where d: "plain_list rs" "plain_list ps" "plain_comp c" "rt = abs_path rs"
    "final = abs_path (ps @ [c])" "prefix rs ps"
    using strictly_within_decomp [OF assms(1-4)] .
  let ?t = "c @ suff @ ''-'' @ sid"
  have t: "plain_comp ?t" using d(3) assms(5,6) by (rule plain_temp_name)
  have eq: "TempPath final sid suff = abs_path (ps @ [?t])"
    using d(5) TempPath_abs_path [OF d(2,3) assms(5,6)] by simp
  have "WithinRoot rt (abs_path (ps @ [?t]))"
    using d(1,2,4,6) t by (simp add: WithinRoot_abs_path)
  moreover have "path_Dir (abs_path (ps @ [?t])) = path_Dir final"
    using d(2,3,5) t by (simp only: path_Dir_snoc)
  moreover have "abs_path (ps @ [?t]) \<noteq> final"
    using d(2,3,5) t by (simp add: abs_path_inj)
  moreover have "Contains (path_Base (abs_path (ps @ [?t]))) (suff @ ''-'')"
    using Contains_append [of c "suff @ ''-''" sid] path_Base_snoc [OF t] by simp
  moreover have "clean_abs (abs_path (ps @ [?t]))" using d(2) t by simp
  ultimately show ?thesis unfolding eq by blast
qed

theorem TempPath_beside_target_witness:
  "WithinRoot ''/data'' (TempPath ''/data/in/a.xml'' ''00ff'' ''.part'')
   \<and> TempPath ''/data/in/a.xml'' ''00ff'' ''.part'' = ''/data/in/a.xml.part-00ff''"
proof -
  have c: "clean_abs ''/data''" "clean_abs ''/data/in/a.xml''" "WithinRoot ''/data'' ''/data/in/a.xml''"
    by code_simp+
  have "TempPath ''/data/in/a.xml'' ''00ff'' ''.part'' = ''/data/in/a.xml.part-00ff''" by code_simp
  with TempPath_beside_target [OF c, of "''.part''" "''00ff''"] show ?thesis by simp
qed

text \<open>
  Temporary names do not collide: two uploads of sessions whose identifiers have the same
  length get the same temporary path only if they are the same session uploading the same target.
\<close>

theorem TempPath_collision_free:
  assumes "clean_abs f1" and "clean_abs f2" and "f1 \<noteq> ''/''" and "f2 \<noteq> ''/''"
    and "slash \<notin> set suff" and "slash \<notin> set s1" and "slash \<notin> set s2" and "length s1 = length s2"
  shows "TempPath f1 s1 suff = TempPath f2 s2 suff \<longleftrightarrow> f1 = f2 \<and> s1 = s2"
proof
  assume same: "TempPath f1 s1 suff = TempPath f2 s2 suff"
  obtain cs c where f1: "plain_list cs" "plain_comp c" "f1 = abs_path (cs @ [c])"
    using clean_abs_snocE [OF assms(1,3)] .
  obtain ds d where f2: "plain_list ds" "plain_comp d" "f2 = abs_path (ds @ [d])"
    using clean_abs_snocE [OF assms(2,4)] .
  note f = f1 f2
  have "abs_path (cs @ [c @ suff @ ''-'' @ s1]) = abs_path (ds @ [d @ suff @ ''-'' @ s2])"
    using f assms(5-7) same by (simp add: path_simps)
  then have "cs = ds" "c @ suff @ ''-'' @ s1 = d @ suff @ ''-'' @ s2"
    using f plain_temp_name assms(5-7) by (simp_all add: abs_path_inj)
  then show "f1 = f2 \<and> s1 = s2" using f assms(8) by auto
qed simp

theorem TempPath_collision_free_witness:
  "TempPath ''/data/a'' ''00ff'' ''.part'' \<noteq> TempPath ''/data/b'' ''00fe'' ''.part''"
proof -
  have c: "clean_abs ''/data/a''" "clean_abs ''/data/b''" by code_simp+
  show ?thesis
    using TempPath_collision_free [OF c, of "''.part''" "''00ff''" "''00fe''"] by auto
qed

text \<open>
  (C39) The temporary name of an upload whose target is the remote root itself (an FTP
  \<open>STOR /\<close>) lies outside the root, for every root but \<open>/\<close>: it is made next to the
  root, in the root's parent directory.
\<close>

theorem TempPath_of_root_escapes:
  assumes "clean_abs rt" and "rt \<noteq> ''/''" and "slash \<notin> set suff" and "slash \<notin> set sid"
  shows "\<not> WithinRoot rt (TempPath rt sid suff)"
proof -
  obtain cs c where p: "plain_list cs" "plain_comp c" and r: "rt = abs_path (cs @ [c])"
    using clean_abs_snocE [OF assms(1,2)] .
  have "TempPath rt sid suff = abs_path (cs @ [c @ suff @ ''-'' @ sid])"
    using r p assms(3,4) by (simp add: path_simps)
  moreover have "\<not> prefix (cs @ [c]) (cs @ [c @ suff @ ''-'' @ sid])" by auto
  ultimately show ?thesis
    using r p plain_temp_name [OF p(2) assms(3,4)] by (simp add: path_simps)
qed

theorem TempPath_of_root_escapes_witness:
  "\<not> WithinRoot ''/data'' (TempPath ''/data'' ''00ff'' ''.part'')"
proof -
  have c: "clean_abs ''/data''" by code_simp
  show ?thesis by (rule TempPath_of_root_escapes [OF c]) simp_all
qed

section \<open>Runs of an upload\<close>

text \<open>The calls the FTP library makes on an upload handle, in any order.\<close>

datatype upload_call = CallWrite bytes | CallTransferError "go_error option" | CallClose

fun upload_run :: "(bytes \<Rightarrow> bytes) \<Rightarrow> upload_call list \<Rightarrow> 'w UploadHandle \<Rightarrow> ('w, 'w UploadHandle) state" where
  "upload_run sha [] u = return u"
| "upload_run sha (CallWrite p # cs) u = do { r \<leftarrow> Upload_Write u p; upload_run sha cs (snd r) }"
| "upload_run sha (CallTransferError e # cs) u = upload_run sha cs (Upload_TransferError u e)"
| "upload_run sha (CallClose # cs) u = do { r \<leftarrow> Upload_Close sha u; upload_run sha cs (snd r) }"

text \<open>The contract of \<open>io.Writer\<close>: at most the bytes of the slice are written.\<close>

definition writer_contract :: "'w WriteCloser \<Rightarrow> bool" where
  "writer_contract f \<longleftrightarrow> (\<forall>p w n e w'. run_state (wc_Write f p) w = ((n, e), w') \<longrightarrow> 0 \<le> n \<and> n \<le> int (length p))"

lemma writer_contractD:
  "writer_contract f \<Longrightarrow> run_state (wc_Write f p) w = ((n, e), w') \<Longrightarrow> 0 \<le> n \<and> n \<le> int (length p)"
  unfolding writer_contract_def by blast

definition upload_sized :: "'w UploadHandle \<Rightarrow> bool" where
  "upload_sized u \<longleftrightarrow> writer_contract (u_file u) \<and> 0 \<le> u_written u \<and> u_written u \<le> up_MaxSize (u_opts u)
     \<and> (\<forall>h. u_hasher u = Some h \<longrightarrow> int (length h) = u_written u)"

lemma Upload_Write_fields:
  assumes "run_state (Upload_Write u p) w = ((r, u'), w')"
  shows "u_fs u' = u_fs u \<and> u_file u' = u_file u \<and> u_tempPath u' = u_tempPath u
    \<and> u_finalPath u' = u_finalPath u \<and> u_opts u' = u_opts u \<and> u_closed u' = u_closed u
    \<and> (u_failed u \<longrightarrow> u_failed u')"
  using assms
  by (auto simp: Upload_Write_def Let_def split: if_splits prod.splits option.splits)

lemma Upload_TransferError_fields [simp]:
  "u_fs (Upload_TransferError u e) = u_fs u" "u_file (Upload_TransferError u e) = u_file u"
  "u_tempPath (Upload_TransferError u e) = u_tempPath u"
  "u_finalPath (Upload_TransferError u e) = u_finalPath u"
  "u_opts (Upload_TransferError u e) = u_opts u" "u_closed (Upload_TransferError u e) = u_closed u"
  "u_failed (Upload_TransferError u e)" "u_written (Upload_TransferError u e) = u_written u"
  "u_hasher (Upload_TransferError u e) = u_hasher u"
  by (simp_all add: Upload_TransferError_def Let_def)

lemma note_close_error_fields [simp]:
  "u_fs (note_close_error u e) = u_fs u" "u_file (note_close_error u e) = u_file u"
  "u_tempPath (note_close_error u e) = u_tempPath u" "u_opts (note_close_error u e) = u_opts u"
  "u_finalPath (note_close_error u e) = u_finalPath u" "u_closed (note_close_error u e) = u_closed u"
  "u_failed (note_close_error u e) = (u_failed u \<or> e \<noteq> None)"
  "u_written (note_close_error u e) = u_written u" "u_hasher (note_close_error u e) = u_hasher u"
  by (simp_all add: note_close_error_def Let_def)

lemma Upload_Close_fields:
  assumes "run_state (Upload_Close sha u) w = ((r, u'), w')"
  shows "u_fs u' = u_fs u \<and> u_file u' = u_file u \<and> u_tempPath u' = u_tempPath u
    \<and> u_finalPath u' = u_finalPath u \<and> u_opts u' = u_opts u \<and> u_closed u'
    \<and> (u_failed u \<longrightarrow> u_failed u') \<and> u_written u' = u_written u \<and> u_hasher u' = u_hasher u"
  using assms
  by (auto simp: Upload_Close_def Let_def split: if_splits prod.splits)

lemma upload_run_failed:
  "u_failed u \<Longrightarrow> run_state (upload_run sha cs u) w = (u', w') \<Longrightarrow> u_failed u'"
proof (induction sha cs u arbitrary: w rule: upload_run.induct)
  case (2 sha p cs u)
  obtain r u1 w1 where 1: "run_state (Upload_Write u p) w = ((r, u1), w1)" by (metis prod.collapse)
  with Upload_Write_fields [OF 1] "2.IH" [of "(r, u1)" w1] "2.prems" show ?case by simp
next
  case (4 sha cs u)
  obtain r u1 w1 where 1: "run_state (Upload_Close sha u) w = ((r, u1), w1)" by (metis prod.collapse)
  with Upload_Close_fields [OF 1] "4.IH" [of "(r, u1)" w1] "4.prems" show ?case by simp
qed simp_all

lemma upload_run_open:
  "run_state (upload_run sha (map CallWrite bs) u) w = (u', w') \<Longrightarrow> u_closed u' = u_closed u"
proof (induction bs arbitrary: u w)
  case (Cons b bs)
  obtain r u1 w1 where 1: "run_state (Upload_Write u b) w = ((r, u1), w1)" by (metis prod.collapse)
  with Upload_Write_fields [OF 1] Cons show ?case by simp
qed simp

text \<open>A failure noted by a write carries its error, and a close that returns nil has committed.\<close>

lemma writes_failErr:
  assumes "run_state (upload_run sha (map CallWrite bs) u) w = (u', w')" and "u_failed u \<Longrightarrow> u_failErr u \<noteq> None"
  shows "u_failed u' \<Longrightarrow> u_failErr u' \<noteq> None"
  using assms
proof (induction bs arbitrary: u w)
  case (Cons b bs)
  obtain r u1 w1 where 1: "run_state (Upload_Write u b) w = ((r, u1), w1)" by (metis prod.collapse)
  have "u_failed u1 \<Longrightarrow> u_failErr u1 \<noteq> None"
    using 1 Cons.prems(3)
    by (auto simp: Upload_Write_def Let_def split: if_splits prod.splits option.splits)
  then show ?case using Cons 1 by simp
qed simp

lemma Upload_Close_committed:
  assumes "run_state (Upload_Close sha u) w = ((None, u'), w')" and "\<not> u_closed u"
    and "u_failed u \<Longrightarrow> u_failErr u \<noteq> None"
  obtains w1 w2 w3 where "\<not> u_failed u" and "u' = u\<lparr>u_closed := True\<rparr>"
    and "run_state (wc_Close (u_file u)) w = (None, w1)"
    and "run_state (fs_Commit (u_fs u) (u_tempPath u) (u_finalPath u) (up_Overwrite (u_opts u))) w1 = (None, w2)"
    and "run_state (run_OnComplete (up_OnComplete (u_opts u))
           ((upload_result sha u')\<lparr>Phase := PhaseCommitted\<rparr>)) w2 = ((), w3)"
    and "run_state (run_Release (up_Release (u_opts u))) w3 = ((), w')"
proof -
  obtain e w1 where 1: "run_state (wc_Close (u_file u)) w = (e, w1)" by fastforce
  have ok: "\<not> u_failed u \<and> e = None"
    using assms 1
    by (auto simp: Upload_Close_def upload_finish_def note_close_error_def Let_def split: if_splits prod.splits)
  obtain c w2 where 2:
    "run_state (fs_Commit (u_fs u) (u_tempPath u) (u_finalPath u) (up_Overwrite (u_opts u))) w1 = (c, w2)"
    by fastforce
  have "c = None" using assms 1 2 ok
    by (auto simp: Upload_Close_def upload_finish_def note_close_error_def Let_def split: prod.splits option.splits)
  with assms 1 2 ok that show thesis
    by (auto simp: Upload_Close_def upload_finish_def note_close_error_def Let_def split: prod.splits)
qed

lemma upload_sized_Write:
  assumes "upload_sized u" and "run_state (Upload_Write u p) w = ((r, u'), w')"
    and "0 < up_MaxSize (u_opts u)" and "up_MaxSize (u_opts u) + int (length p) < 2 ^ 63"
  shows "upload_sized u'"
proof (cases "wrap64 (u_written u + int (length p)) > up_MaxSize (u_opts u)")
  case True
  with assms show ?thesis by (auto simp: Upload_Write_def upload_sized_def)
next
  case False
  have w: "wrap64 (u_written u + int (length p)) = u_written u + int (length p)"
    using assms(1,4) by (intro wrap64_id) (auto simp: upload_sized_def)
  obtain n e w1 where n: "run_state (wc_Write (u_file u) p) w = ((n, e), w1)"
    by (metis prod.collapse)
  with assms(1) have b: "0 \<le> n" "n \<le> int (length p)"
    by (auto simp: upload_sized_def dest: writer_contractD)
  then have wn: "wrap64 (u_written u + n) = u_written u + n"
    using assms(1,4) by (intro wrap64_id) (auto simp: upload_sized_def)
  show ?thesis
    using assms(1,2) False w n b wn
    by (auto simp: Upload_Write_def upload_sized_def Let_def split: option.splits if_splits)
qed

lemma upload_run_sized:
  assumes "upload_sized u" and "run_state (upload_run sha cs u) w = (u', w')"
    and "0 < up_MaxSize (u_opts u)"
    and "\<And>p. CallWrite p \<in> set cs \<Longrightarrow> up_MaxSize (u_opts u) + int (length p) < 2 ^ 63"
  shows "upload_sized u' \<and> u_opts u' = u_opts u"
  using assms
proof (induction cs arbitrary: u w)
  case Nil
  then show ?case by simp
next
  case (Cons c cs)
  show ?case
  proof (cases c)
    case (CallWrite p)
    obtain r u1 w1 where 1: "run_state (Upload_Write u p) w = ((r, u1), w1)" by (metis prod.collapse)
    have "upload_sized u1" using Cons.prems 1 CallWrite by (intro upload_sized_Write [OF _ 1]) auto
    moreover have "u_opts u1 = u_opts u" using Upload_Write_fields [OF 1] by simp
    ultimately show ?thesis using Cons.IH [of u1 w1] Cons.prems CallWrite 1 by auto
  next
    case (CallTransferError e)
    have "upload_sized (Upload_TransferError u e)" using Cons.prems(1) by (simp add: upload_sized_def)
    then show ?thesis using Cons.IH [of "Upload_TransferError u e" w] Cons.prems CallTransferError by auto
  next
    case CallClose
    obtain r u1 w1 where 1: "run_state (Upload_Close sha u) w = ((r, u1), w1)" by (metis prod.collapse)
    have "upload_sized u1" and "u_opts u1 = u_opts u"
      using Cons.prems(1) Upload_Close_fields [OF 1] by (simp_all add: upload_sized_def)
    then show ?thesis using Cons.IH [of u1 w1] Cons.prems CallClose 1 by auto
  qed
qed

lemma NewUpload_Inr:
  assumes "run_state (NewUpload fs final opts) w = (Inr u, w')"
  shows "u_fs u = fs \<and> u_tempPath u = TempPath final (up_SessionID opts) (up_TemporarySuffix opts)
    \<and> u_finalPath u = final \<and> u_opts u = opts \<and> u_written u = 0 \<and> \<not> u_failed u \<and> u_failErr u = None
    \<and> \<not> u_closed u \<and> u_hasher u = (if up_CalculateSHA256 opts then Some [] else None)
    \<and> (\<exists>w1. run_state (fs_CreateTemp fs (TempPath final (up_SessionID opts) (up_TemporarySuffix opts))) w1
          = (Inr (u_file u), w'))"
  using assms
  by (auto simp: NewUpload_def Let_def split: if_splits prod.splits option.splits sum.splits)

text \<open>
  (C25) The size limit holds on every run: from a fresh upload, after any sequence of writes,
  transfer errors and closes, the bytes accepted stay within the user's \<open>maxFileSize\<close>, and
  the hasher has been fed exactly as many bytes as are reported. The remote file only has to
  keep the contract of \<open>io.Writer\<close>, and a chunk must not overflow 64 bits on top of the
  limit.
\<close>

theorem upload_size_bounded:
  assumes "run_state (NewUpload fs final opts) w0 = (Inr u, w)" and "0 < up_MaxSize opts"
    and "writer_contract (u_file u)"
    and "\<And>p. CallWrite p \<in> set cs \<Longrightarrow> up_MaxSize opts + int (length p) < 2 ^ 63"
    and "run_state (upload_run sha cs u) w = (u', w')"
  shows "0 \<le> u_written u' \<and> u_written u' \<le> up_MaxSize opts
    \<and> (\<forall>h. u_hasher u' = Some h \<longrightarrow> int (length h) = u_written u')"
proof -
  have "upload_sized u" and "u_opts u = opts"
    using NewUpload_Inr [OF assms(1)] assms(2,3) by (auto simp: upload_sized_def)
  then have "upload_sized u' \<and> u_opts u' = u_opts u"
    using assms(2,4) by (intro upload_run_sized [OF _ assms(5)]) simp_all
  with \<open>u_opts u = opts\<close> show ?thesis
    by (auto simp: upload_sized_def)
qed

text \<open>
  A remote file system with one file, for evaluating the theorems on a concrete upload: the world
  is a counter, advanced by the callbacks, and the contents of the file.
\<close>

definition memory_file :: "(int \<times> bytes) WriteCloser" where
  "memory_file = \<lparr>wc_Write = (\<lambda>p. State (\<lambda>(k, b). ((int (length p), None), (k, b @ p)))), wc_Close = return None\<rparr>"

definition memory_fs :: "(int \<times> bytes) RemoteFS" where
  "memory_fs = \<lparr>fs_Stat = (\<lambda>p. return (Inl (New KindNotFound [] []))),
     fs_OpenRead = (\<lambda>p. return (Inl (New KindNotFound [] []))),
     fs_CreateTemp = (\<lambda>p. return (Inr memory_file)),
     fs_Commit = (\<lambda>p q ow. return None), fs_Remove = (\<lambda>p. return None)\<rparr>"

definition memory_opts :: "(int \<times> bytes) UploadOptions" where
  "memory_opts = \<lparr>up_SessionID = ''00ff'', up_TransferID = ''01'', up_VirtualPath = ''/a'', up_MaxSize = 3,
     up_Overwrite = False, up_CalculateSHA256 = True, up_TemporarySuffix = ''.part'',
     up_OnComplete = Some (\<lambda>r. modify (\<lambda>(k, b). (k + 10, b))), up_Release = Some (modify (\<lambda>(k, b). (k + 1, b)))\<rparr>"

definition memory_upload :: "(int \<times> bytes) UploadHandle" where
  "memory_upload = \<lparr>u_fs = memory_fs, u_file = memory_file, u_hasher = Some [],
     u_tempPath = TempPath ''/data/a'' ''00ff'' ''.part'', u_finalPath = ''/data/a'', u_opts = memory_opts,
     u_written = 0, u_failed = False, u_failErr = None, u_closed = False\<rparr>"

lemma run_memory_upload:
  "run_state (NewUpload memory_fs ''/data/a'' memory_opts) w = (Inr memory_upload, w)"
  by (simp add: NewUpload_def memory_fs_def memory_opts_def memory_upload_def isNotFound_def Is_def
      KindOf_def New_def)

theorem upload_size_bounded_witness:
  "u_written (fst (run_state (upload_run id [CallWrite [1, 2], CallWrite [3, 4], CallClose] memory_upload) (0, []))) \<le> 3"
proof -
  have c: "writer_contract (u_file memory_upload)"
    by (auto simp: writer_contract_def memory_upload_def memory_file_def)
  have l: "up_MaxSize memory_opts + int (length p) < 2 ^ 63"
    if "CallWrite p \<in> set [CallWrite [1, 2], CallWrite [3, 4], CallClose]" for p
    using that by (auto simp: memory_opts_def)
  show ?thesis
    using upload_size_bounded [where w' = "snd (run_state (upload_run id [CallWrite [1, 2], CallWrite [3, 4], CallClose] memory_upload) (0, []))",
        OF run_memory_upload _ c l prod.collapse [symmetric]]
    by (simp add: memory_opts_def)
qed

section \<open>Callbacks run exactly once\<close>

text \<open>
  A part \<open>f\<close> of the world that nothing a handle calls out to changes except the callbacks:
  on it, the completion report is the function \<open>C\<close> and the release the function \<open>R\<close>.
\<close>

definition upload_ledger :: "('w \<Rightarrow> 'b) \<Rightarrow> ('b \<Rightarrow> 'b) \<Rightarrow> ('b \<Rightarrow> 'b) \<Rightarrow> 'w UploadHandle \<Rightarrow> bool" where
  "upload_ledger f C R u \<longleftrightarrow>
     (\<forall>p. keeps f (wc_Write (u_file u) p)) \<and> keeps f (wc_Close (u_file u))
     \<and> (\<forall>p. keeps f (fs_Remove (u_fs u) p)) \<and> (\<forall>p q ow. keeps f (fs_Commit (u_fs u) p q ow))
     \<and> acts f R (run_Release (up_Release (u_opts u)))
     \<and> (\<forall>r. acts f C (run_OnComplete (up_OnComplete (u_opts u)) r))"

lemma upload_ledgerD:
  assumes "upload_ledger f C R u"
  shows "keeps f (wc_Write (u_file u) p)" and "keeps f (wc_Close (u_file u))"
    and "keeps f (fs_Remove (u_fs u) p')" and "keeps f (fs_Commit (u_fs u) p' q ow)"
    and "acts f R (run_Release (up_Release (u_opts u)))"
    and "acts f C (run_OnComplete (up_OnComplete (u_opts u)) r)"
  using assms by (simp_all add: upload_ledger_def)

lemma upload_ledger_cong:
  "u_fs u' = u_fs u \<Longrightarrow> u_file u' = u_file u \<Longrightarrow> u_opts u' = u_opts u \<Longrightarrow>
   upload_ledger f C R u' = upload_ledger f C R u"
  by (simp add: upload_ledger_def)

lemma upload_finish_acts: "upload_ledger f C R u \<Longrightarrow> acts f C (upload_finish u res)"
  unfolding upload_finish_def Let_def
  by (auto intro!: acts_after_keeps acts_before_return upload_ledgerD split: option.split)

lemma Upload_Close_acts:
  assumes "upload_ledger f C R u" and "run_state (Upload_Close sha u) w = ((r, u'), w')"
  shows "f w' = (if u_closed u then f w else R (C (f w)))"
proof (cases "u_closed u")
  case True
  with assms(2) show ?thesis by (simp add: Upload_Close_def)
next
  case False
  have l: "upload_ledger f C R (note_close_error (u\<lparr>u_closed := True\<rparr>) e)" for e
    using assms(1) by (subst upload_ledger_cong [of _ u]) simp_all
  have "acts f (R \<circ> C) (Upload_Close sha u)"
    unfolding Upload_Close_def Let_def
    using False upload_finish_acts [OF l] upload_ledgerD(5) [OF l]
    by (auto intro!: acts_after_keeps [OF upload_ledgerD(2) [OF assms(1)]] acts_bind acts_before_return)
  from actsD [OF this assms(2)] False show ?thesis by simp
qed

lemma Upload_Write_keeps: "upload_ledger f C R u \<Longrightarrow> keeps f (Upload_Write u p)"
  unfolding Upload_Write_def Let_def by (intro keeps_basic upload_ledgerD)

lemma upload_run_acts:
  assumes "upload_ledger f C R u" and "run_state (upload_run sha cs u) w = (u', w')"
  shows "f w' = (if CallClose \<in> set cs \<and> \<not> u_closed u then R (C (f w)) else f w)"
  using assms
proof (induction cs arbitrary: u w)
  case Nil
  then show ?case by simp
next
  case (Cons c cs)
  show ?case
  proof (cases c)
    case (CallWrite p)
    obtain r u1 w1 where 1: "run_state (Upload_Write u p) w = ((r, u1), w1)" by (metis prod.collapse)
    have "f w1 = f w" using keepsD [OF Upload_Write_keeps [OF Cons.prems(1)] 1] .
    moreover have "upload_ledger f C R u1" and "u_closed u1 = u_closed u"
      using Upload_Write_fields [OF 1] Cons.prems(1) by (simp_all add: upload_ledger_cong [of u1 u])
    ultimately show ?thesis using Cons.IH [of u1 w1] Cons.prems(2) CallWrite 1 by simp
  next
    case (CallTransferError e)
    have "upload_ledger f C R (Upload_TransferError u e)"
      using Cons.prems(1) by (subst upload_ledger_cong [of _ u]) simp_all
    then show ?thesis using Cons.IH [of "Upload_TransferError u e" w] Cons.prems(2) CallTransferError by simp
  next
    case CallClose
    obtain r u1 w1 where 1: "run_state (Upload_Close sha u) w = ((r, u1), w1)" by (metis prod.collapse)
    have "upload_ledger f C R u1" and "u_closed u1"
      using Upload_Close_fields [OF 1] Cons.prems(1) by (simp_all add: upload_ledger_cong [of u1 u])
    then show ?thesis
      using Cons.IH [of u1 w1] Cons.prems(2) CallClose 1 Upload_Close_acts [OF Cons.prems(1) 1] by simp
  qed
qed

text \<open>
  (C26) The callbacks of an upload run exactly once and in order: on any part of the world that only
  the callbacks change, any sequence of calls on the handle is the completion report followed by
  the release if it contains a \<open>Close\<close>, however many, and nothing otherwise. So the result
  is reported, and the concurrency slot given back, once per transfer.
\<close>

theorem upload_callbacks_exactly_once:
  assumes "run_state (NewUpload fs final opts) w0 = (Inr u, w)" and "upload_ledger f C R u"
    and "run_state (upload_run sha cs u) w = (u', w')"
  shows "f w' = (if CallClose \<in> set cs then R (C (f w)) else f w)"
  using upload_run_acts [OF assms(2,3)] NewUpload_Inr [OF assms(1)] by simp

theorem upload_callbacks_exactly_once_witness:
  "fst (snd (run_state (upload_run id [CallWrite [1, 2, 3, 4], CallClose, CallClose] memory_upload) (0, []))) = 11"
proof -
  have l: "upload_ledger fst (\<lambda>k. k + 10) (\<lambda>k. k + 1) memory_upload"
    by (auto simp: upload_ledger_def memory_upload_def memory_file_def memory_fs_def memory_opts_def
        run_Release_def run_OnComplete_def acts_def keeps_def state_io_rel_def)
  show ?thesis
    using upload_callbacks_exactly_once [OF run_memory_upload l prod.collapse [symmetric],
        of id "[CallWrite [1, 2, 3, 4], CallClose, CallClose]" "(0, [])"]
    by simp
qed

text \<open>The same for downloads.\<close>

definition download_ledger :: "('w \<Rightarrow> 'b) \<Rightarrow> ('b \<Rightarrow> 'b) \<Rightarrow> ('b \<Rightarrow> 'b) \<Rightarrow> 'w DownloadHandle \<Rightarrow> bool" where
  "download_ledger f C R d \<longleftrightarrow>
     (\<forall>n. keeps f (rc_Read (d_file d) n)) \<and> (\<forall>i j. keeps f (rc_Seek (d_file d) i j))
     \<and> keeps f (rc_Close (d_file d)) \<and> acts f R (run_Release (dn_Release (d_opts d)))
     \<and> (\<forall>r. acts f C (run_OnComplete (dn_OnComplete (d_opts d)) r))"

lemma download_ledgerD:
  assumes "download_ledger f C R d"
  shows "keeps f (rc_Read (d_file d) n)" "keeps f (rc_Seek (d_file d) i j)" "keeps f (rc_Close (d_file d))"
    "acts f R (run_Release (dn_Release (d_opts d)))" "acts f C (run_OnComplete (dn_OnComplete (d_opts d)) r)"
  using assms by (simp_all add: download_ledger_def)

text \<open>The calls on a download handle.\<close>

datatype download_call = CallRead nat | CallSeek int int | CallDownloadError "go_error option" | CallDownloadClose

fun download_run :: "(bytes \<Rightarrow> bytes) \<Rightarrow> download_call list \<Rightarrow> 'w DownloadHandle \<Rightarrow> ('w, 'w DownloadHandle) state" where
  "download_run sha [] d = return d"
| "download_run sha (CallRead n # cs) d = do { r \<leftarrow> Download_Read d n; download_run sha cs (snd r) }"
| "download_run sha (CallSeek i j # cs) d = do { _ \<leftarrow> Download_Seek d i j; download_run sha cs d }"
| "download_run sha (CallDownloadError e # cs) d = download_run sha cs (Download_TransferError d e)"
| "download_run sha (CallDownloadClose # cs) d = do { r \<leftarrow> Download_Close sha d; download_run sha cs (snd r) }"

lemma Download_Read_fields:
  "run_state (Download_Read d n) w = ((r, d'), w') \<Longrightarrow> d_file d' = d_file d \<and> d_opts d' = d_opts d \<and> d_closed d' = d_closed d"
  by (auto simp: Download_Read_def Let_def split: prod.splits option.splits if_splits)

lemma Download_Close_fields:
  "run_state (Download_Close sha d) w = ((r, d'), w') \<Longrightarrow> d_file d' = d_file d \<and> d_opts d' = d_opts d \<and> d_closed d'"
  by (auto simp: Download_Close_def Let_def split: prod.splits if_splits)

lemma Download_TransferError_fields [simp]:
  "d_file (Download_TransferError d e) = d_file d" "d_opts (Download_TransferError d e) = d_opts d"
  "d_closed (Download_TransferError d e) = d_closed d"
  by (simp_all add: Download_TransferError_def Let_def)

lemma Download_Close_acts:
  assumes "download_ledger f C R d" and "run_state (Download_Close sha d) w = ((r, d'), w')"
  shows "f w' = (if d_closed d then f w else R (C (f w)))"
proof (cases "d_closed d")
  case True
  with assms(2) show ?thesis by (simp add: Download_Close_def)
next
  case False
  have "download_ledger f C R (d\<lparr>d_closed := True\<rparr>)" using assms(1) by (simp add: download_ledger_def)
  note l = download_ledgerD [OF this]
  have "acts f (R \<circ> C) (Download_Close sha d)"
    unfolding Download_Close_def Let_def using False
    by (simp only: if_False) (intro acts_after_keeps [OF l(3)] acts_bind l(5) acts_before_return l(4))
  from actsD [OF this assms(2)] False show ?thesis by simp
qed

lemma download_run_acts:
  assumes "download_ledger f C R d" and "run_state (download_run sha cs d) w = (d', w')"
  shows "f w' = (if CallDownloadClose \<in> set cs \<and> \<not> d_closed d then R (C (f w)) else f w)"
  using assms
proof (induction cs arbitrary: d w)
  case Nil
  then show ?case by simp
next
  case (Cons c cs)
  show ?case
  proof (cases c)
    case (CallRead n)
    obtain r d1 w1 where 1: "run_state (Download_Read d n) w = ((r, d1), w1)" by (metis prod.collapse)
    have "keeps f (Download_Read d n)"
      unfolding Download_Read_def Let_def by (intro keeps_basic download_ledgerD [OF Cons.prems(1)])
    from keepsD [OF this 1] have "f w1 = f w" .
    moreover have "download_ledger f C R d1" and "d_closed d1 = d_closed d"
      using Download_Read_fields [OF 1] Cons.prems(1) by (simp_all add: download_ledger_def)
    ultimately show ?thesis using Cons.IH [of d1 w1] Cons.prems(2) CallRead 1 by simp
  next
    case (CallSeek i j)
    obtain r w1 where 1: "run_state (Download_Seek d i j) w = (r, w1)" by fastforce
    have "f w1 = f w"
      using keepsD [OF download_ledgerD(2) [OF Cons.prems(1)]] 1 by (simp add: Download_Seek_def)
    then show ?thesis using Cons.IH [of d w1] Cons.prems CallSeek 1 by simp
  next
    case (CallDownloadError e)
    have "download_ledger f C R (Download_TransferError d e)" using Cons.prems(1) by (simp add: download_ledger_def)
    then show ?thesis using Cons.IH [of "Download_TransferError d e" w] Cons.prems(2) CallDownloadError by simp
  next
    case CallDownloadClose
    obtain r d1 w1 where 1: "run_state (Download_Close sha d) w = ((r, d1), w1)" by (metis prod.collapse)
    have "download_ledger f C R d1" and "d_closed d1"
      using Download_Close_fields [OF 1] Cons.prems(1) by (simp_all add: download_ledger_def)
    then show ?thesis
      using Cons.IH [of d1 w1] Cons.prems(2) CallDownloadClose 1 Download_Close_acts [OF Cons.prems(1) 1] by simp
  qed
qed

section \<open>What a transfer sends\<close>

lemma emits_NewUpload [emits_rules]:
  assumes "\<not> up_Overwrite opts \<Longrightarrow> emits tr P (fs_Stat fs final)"
    and "emits tr P (fs_CreateTemp fs (TempPath final (up_SessionID opts) (up_TemporarySuffix opts)))"
  shows "emits tr P (NewUpload fs final opts)"
  unfolding NewUpload_def Let_def by (intro emits_rules assms)

lemma emits_NewDownload [emits_rules]: "emits tr P (fs_OpenRead fs p) \<Longrightarrow> emits tr P (NewDownload fs p opts)"
  unfolding NewDownload_def by (intro emits_rules)

text \<open>Everything an upload handle calls out to sends only requests with the property.\<close>

definition upload_emits :: "('w \<Rightarrow> 'q list) \<Rightarrow> ('q \<Rightarrow> bool) \<Rightarrow> 'w UploadHandle \<Rightarrow> bool" where
  "upload_emits tr P u \<longleftrightarrow>
     (\<forall>b. emits tr P (wc_Write (u_file u) b)) \<and> emits tr P (wc_Close (u_file u))
     \<and> emits tr P (fs_Remove (u_fs u) (u_tempPath u))
     \<and> emits tr P (fs_Commit (u_fs u) (u_tempPath u) (u_finalPath u) (up_Overwrite (u_opts u)))
     \<and> emits tr P (run_Release (up_Release (u_opts u)))
     \<and> (\<forall>r. emits tr P (run_OnComplete (up_OnComplete (u_opts u)) r))"

lemma upload_emitsD:
  assumes "upload_emits tr P u"
  shows "emits tr P (wc_Write (u_file u) b)" "emits tr P (wc_Close (u_file u))"
    "emits tr P (fs_Remove (u_fs u) (u_tempPath u))"
    "emits tr P (fs_Commit (u_fs u) (u_tempPath u) (u_finalPath u) (up_Overwrite (u_opts u)))"
    "emits tr P (run_Release (up_Release (u_opts u)))"
    "emits tr P (run_OnComplete (up_OnComplete (u_opts u)) r)"
  using assms by (simp_all add: upload_emits_def)

lemma upload_emits_cong:
  "u_fs u' = u_fs u \<Longrightarrow> u_file u' = u_file u \<Longrightarrow> u_opts u' = u_opts u \<Longrightarrow> u_tempPath u' = u_tempPath u
   \<Longrightarrow> u_finalPath u' = u_finalPath u \<Longrightarrow> upload_emits tr P u' = upload_emits tr P u"
  by (simp add: upload_emits_def)

lemma emits_Upload_Write: "upload_emits tr P u \<Longrightarrow> emits tr P (Upload_Write u p)"
  unfolding Upload_Write_def Let_def by (intro emits_rules upload_emitsD)

lemma emits_upload_finish: "upload_emits tr P u \<Longrightarrow> emits tr P (upload_finish u res)"
  unfolding upload_finish_def Let_def by (intro emits_rules upload_emitsD)

lemma emits_Upload_Close:
  assumes "upload_emits tr P u"
  shows "emits tr P (Upload_Close sha u)"
proof -
  have n: "upload_emits tr P (note_close_error (u\<lparr>u_closed := True\<rparr>) e)" for e
    using assms by (subst upload_emits_cong [of _ u]) simp_all
  show ?thesis
    unfolding Upload_Close_def Let_def
    by (intro emits_rules upload_emitsD(2) [OF assms] emits_upload_finish n upload_emitsD(5) [OF n])
qed

lemma emits_upload_run: "upload_emits tr P u \<Longrightarrow> emits tr P (upload_run sha cs u)"
proof (induction cs arbitrary: u)
  case Nil
  then show ?case by (simp add: emits_return)
next
  case (Cons c cs)
  show ?case
  proof (cases c)
    case (CallWrite p)
    have "upload_emits tr P (snd x)" if "run_state (Upload_Write u p) w = (x, w')" for w x w'
      using Cons.prems that Upload_Write_fields [of u p w "fst x" "snd x" w']
      by (subst upload_emits_cong [of _ u]) simp_all
    then show ?thesis
      using CallWrite Cons by (auto intro!: emits_bind_results emits_Upload_Write)
  next
    case (CallTransferError e)
    have "upload_emits tr P (Upload_TransferError u e)"
      using Cons.prems by (subst upload_emits_cong [of _ u]) simp_all
    then show ?thesis using CallTransferError Cons.IH by simp
  next
    case CallClose
    have "upload_emits tr P (snd x)" if "run_state (Upload_Close sha u) w = (x, w')" for w x w'
      using Cons.prems that Upload_Close_fields [of sha u w "fst x" "snd x" w']
      by (subst upload_emits_cong [of _ u]) simp_all
    then show ?thesis
      using CallClose Cons by (auto intro!: emits_bind_results emits_Upload_Close)
  qed
qed

definition download_emits :: "('w \<Rightarrow> 'q list) \<Rightarrow> ('q \<Rightarrow> bool) \<Rightarrow> 'w DownloadHandle \<Rightarrow> bool" where
  "download_emits tr P d \<longleftrightarrow>
     (\<forall>n. emits tr P (rc_Read (d_file d) n)) \<and> (\<forall>i j. emits tr P (rc_Seek (d_file d) i j))
     \<and> emits tr P (rc_Close (d_file d)) \<and> emits tr P (run_Release (dn_Release (d_opts d)))
     \<and> (\<forall>r. emits tr P (run_OnComplete (dn_OnComplete (d_opts d)) r))"

lemma download_emitsD:
  assumes "download_emits tr P d"
  shows "emits tr P (rc_Read (d_file d) n)" "emits tr P (rc_Seek (d_file d) i j)" "emits tr P (rc_Close (d_file d))"
    "emits tr P (run_Release (dn_Release (d_opts d)))" "emits tr P (run_OnComplete (dn_OnComplete (d_opts d)) r)"
  using assms by (simp_all add: download_emits_def)

lemma emits_Download_Read: "download_emits tr P d \<Longrightarrow> emits tr P (Download_Read d n)"
  unfolding Download_Read_def Let_def by (intro emits_rules download_emitsD)

lemma emits_Download_Close: "download_emits tr P d \<Longrightarrow> emits tr P (Download_Close sha d)"
proof -
  assume "download_emits tr P d"
  then have "download_emits tr P (d\<lparr>d_closed := True\<rparr>)" by (simp add: download_emits_def)
  then show "emits tr P (Download_Close sha d)"
    unfolding Download_Close_def Let_def by (intro emits_rules download_emitsD)
qed

lemma emits_download_run: "download_emits tr P d \<Longrightarrow> emits tr P (download_run sha cs d)"
proof (induction cs arbitrary: d)
  case Nil
  then show ?case by (simp add: emits_return)
next
  case (Cons c cs)
  show ?case
  proof (cases c)
    case (CallRead n)
    have "download_emits tr P (snd x)" if "run_state (Download_Read d n) w = (x, w')" for w x w'
      using Cons.prems that Download_Read_fields [of d n w "fst x" "snd x" w'] by (simp add: download_emits_def)
    then show ?thesis
      using CallRead Cons by (auto intro!: emits_bind_results emits_Download_Read)
  next
    case (CallSeek i j)
    then show ?thesis using Cons by (auto simp: Download_Seek_def intro!: emits_bind download_emitsD)
  next
    case (CallDownloadError e)
    then show ?thesis using Cons by (simp add: download_emits_def)
  next
    case CallDownloadClose
    have "download_emits tr P (snd x)" if "run_state (Download_Close sha d) w = (x, w')" for w x w'
      using Cons.prems that Download_Close_fields [of sha d w "fst x" "snd x" w'] by (simp add: download_emits_def)
    then show ?thesis
      using CallDownloadClose Cons by (auto intro!: emits_bind_results emits_Download_Close)
  qed
qed

section \<open>The contract of a remote file system\<close>

text \<open>The request names no path outside the list.\<close>

definition touches :: "string list \<Rightarrow> request \<Rightarrow> bool" where
  "touches ps q \<longleftrightarrow> set (request_paths q) \<subseteq> set ps"

text \<open>Callbacks that send no request naming a path.\<close>

definition quiet_callbacks :: "('w \<Rightarrow> request list) \<Rightarrow> 'w UploadOptions \<Rightarrow> bool" where
  "quiet_callbacks tr opts \<longleftrightarrow> emits tr (touches []) (run_Release (up_Release opts))
     \<and> (\<forall>r. emits tr (touches []) (run_OnComplete (up_OnComplete opts) r))"

text \<open>
  What a transfer relies on: each operation of the interface only names the paths it is given,
  the queries change nothing, and the operations of an open file name no path at all.
\<close>

locale remote_fs =
  fixes fs :: "'w RemoteFS"
    and trace :: "'w \<Rightarrow> request list"
  assumes Stat_touches: "emits trace (\<lambda>q. touches [p] q \<and> \<not> mutating q) (fs_Stat fs p)"
    and OpenRead_touches: "emits trace (\<lambda>q. touches [p] q \<and> \<not> mutating q) (fs_OpenRead fs p)"
    and CreateTemp_touches: "emits trace (touches [p]) (fs_CreateTemp fs p)"
    and Commit_touches: "emits trace (touches [p, q]) (fs_Commit fs p q ow)"
    and Remove_touches: "emits trace (touches [p]) (fs_Remove fs p)"
    and writer_touches: "run_state (fs_CreateTemp fs p) w = (Inr f, w') \<Longrightarrow>
      emits trace (touches []) (wc_Write f b) \<and> emits trace (touches []) (wc_Close f)"
    and reader_touches: "run_state (fs_OpenRead fs p) w = (Inr f', w') \<Longrightarrow>
      emits trace (\<lambda>q. touches [] q \<and> \<not> mutating q) (rc_Read f' n)
      \<and> emits trace (\<lambda>q. touches [] q \<and> \<not> mutating q) (rc_Seek f' i j)
      \<and> emits trace (\<lambda>q. touches [] q \<and> \<not> mutating q) (rc_Close f')"
begin

lemma NewUpload_touches:
  "emits trace (touches [final, TempPath final (up_SessionID opts) (up_TemporarySuffix opts)])
     (NewUpload fs final opts)"
  unfolding NewUpload_def Let_def
  by (intro emits_rules emits_mono [OF Stat_touches] emits_mono [OF CreateTemp_touches])
     (auto simp: touches_def)

lemma NewDownload_reads: "emits trace (\<lambda>q. touches [p] q \<and> \<not> mutating q) (NewDownload fs p opts)"
  unfolding NewDownload_def by (intro emits_rules OpenRead_touches)

text \<open>A handle made by this file system, with callbacks that send no request that names a path.\<close>

definition quiet_upload :: "'w UploadHandle \<Rightarrow> bool" where
  "quiet_upload u \<longleftrightarrow> u_fs u = fs
     \<and> (\<forall>b. emits trace (touches []) (wc_Write (u_file u) b)) \<and> emits trace (touches []) (wc_Close (u_file u))
     \<and> emits trace (touches []) (run_Release (up_Release (u_opts u)))
     \<and> (\<forall>r. emits trace (touches []) (run_OnComplete (up_OnComplete (u_opts u)) r))"

lemma touches_Nil_mono: "emits trace (touches []) m \<Longrightarrow> emits trace (touches ps) m"
  by (erule emits_mono) (simp add: touches_def)

lemma touches_mono: "emits trace (touches ps) m \<Longrightarrow> set ps \<subseteq> set qs \<Longrightarrow> emits trace (touches qs) m"
  by (erule emits_mono) (auto simp: touches_def)

lemma quiet_uploadD:
  assumes "quiet_upload u"
  shows "emits trace (touches ps) (wc_Write (u_file u) b)"
    and "emits trace (touches ps) (wc_Close (u_file u))"
    and "emits trace (touches ps) (run_Release (up_Release (u_opts u)))"
    and "emits trace (touches ps) (run_OnComplete (up_OnComplete (u_opts u)) r)"
    and "emits trace (touches [u_tempPath u, u_finalPath u]) (fs_Commit (u_fs u) (u_tempPath u) (u_finalPath u) ow)"
    and "emits trace (touches (u_tempPath u # ps)) (fs_Remove (u_fs u) (u_tempPath u))"
  using assms
  by (simp_all add: quiet_upload_def touches_Nil_mono Commit_touches touches_mono [OF Remove_touches])

lemma quiet_note_close_error:
  "quiet_upload u \<Longrightarrow> quiet_upload (note_close_error (u\<lparr>u_closed := True\<rparr>) e)"
  by (simp add: quiet_upload_def)

lemma Upload_Write_touches: "quiet_upload u \<Longrightarrow> emits trace (touches []) (Upload_Write u p)"
  unfolding Upload_Write_def Let_def by (intro emits_rules quiet_uploadD)

lemma upload_finish_touches:
  assumes "quiet_upload u"
  shows "emits trace (touches [u_tempPath u, u_finalPath u]) (upload_finish u res)"
  unfolding upload_finish_def Let_def by (intro emits_rules quiet_uploadD [OF assms])

lemma upload_finish_failed_touches:
  assumes "quiet_upload u" and "u_failed u"
  shows "emits trace (touches [u_tempPath u]) (upload_finish u res)"
  using assms(2) unfolding upload_finish_def Let_def
  by (simp, intro emits_rules quiet_uploadD [OF assms(1)])

lemma Upload_Close_touches:
  assumes "quiet_upload u"
  shows "emits trace (touches [u_tempPath u, u_finalPath u]) (Upload_Close sha u)"
  using upload_finish_touches [OF quiet_note_close_error [OF assms]] quiet_uploadD [OF assms]
  unfolding Upload_Close_def Let_def by (auto intro!: emits_rules)

lemma Upload_Close_failed_touches:
  assumes "quiet_upload u" and "u_failed u"
  shows "emits trace (touches [u_tempPath u]) (Upload_Close sha u)"
  using upload_finish_failed_touches [OF quiet_note_close_error [OF assms(1)]] quiet_uploadD [OF assms(1)]
    assms(2)
  unfolding Upload_Close_def Let_def by (auto intro!: emits_rules)

lemma quiet_upload_cong:
  "u_fs u' = u_fs u \<Longrightarrow> u_file u' = u_file u \<Longrightarrow> u_opts u' = u_opts u \<Longrightarrow> quiet_upload u' = quiet_upload u"
  by (simp add: quiet_upload_def)

lemma NewUpload_quiet:
  assumes "run_state (NewUpload fs final opts) w = (Inr u, w')" and "quiet_callbacks trace opts"
  shows "quiet_upload u"
proof -
  note u = NewUpload_Inr [OF assms(1)]
  then obtain p w1 where "run_state (fs_CreateTemp fs p) w1 = (Inr (u_file u), w')" by blast
  from writer_touches [OF this] u assms(2) show ?thesis
    by (simp add: quiet_upload_def quiet_callbacks_def)
qed

lemma grows_touches_mono:
  "grows trace (touches ps) w w' \<Longrightarrow> set ps \<subseteq> set qs \<Longrightarrow> grows trace (touches qs) w w'"
  unfolding grows_def touches_def by (meson dual_order.trans list.pred_mono_strong)

lemma upload_run_open_touches:
  assumes "quiet_upload u" and "CallClose \<notin> set cs" and "run_state (upload_run sha cs u) w = (u', w')"
  shows "grows trace (touches []) w w' \<and> quiet_upload u' \<and> u_tempPath u' = u_tempPath u"
  using assms
proof (induction sha cs u arbitrary: w rule: upload_run.induct)
  case (2 sha p cs u)
  obtain r u1 w1 where 1: "run_state (Upload_Write u p) w = ((r, u1), w1)" by (metis prod.collapse)
  have "quiet_upload u1" and "u_tempPath u1 = u_tempPath u"
    using "2.prems"(1) Upload_Write_fields [OF 1] by (simp_all add: quiet_upload_cong [of u1 u])
  moreover have "grows trace (touches []) w w1"
    using emits_grows [OF Upload_Write_touches [OF "2.prems"(1)] 1] .
  ultimately show ?case using "2.IH" [of "(r, u1)" w1] "2.prems" 1 grow.trans [of trace "touches []" w w1 w'] by simp
next
  case (3 sha e cs u)
  then show ?case by (simp add: quiet_upload_cong [of "Upload_TransferError u e" u])
qed (simp_all add: grow.refl)

lemma upload_run_failed_touches:
  assumes "quiet_upload u" and "u_failed u" and "run_state (upload_run sha cs u) w = (u', w')"
  shows "grows trace (touches [u_tempPath u]) w w'"
  using assms
proof (induction sha cs u arbitrary: w rule: upload_run.induct)
  case (2 sha p cs u)
  obtain r u1 w1 where 1: "run_state (Upload_Write u p) w = ((r, u1), w1)" by (metis prod.collapse)
  have "quiet_upload u1" and "u_tempPath u1 = u_tempPath u" and "u_failed u1"
    using "2.prems"(1,2) Upload_Write_fields [OF 1] by (simp_all add: quiet_upload_cong [of u1 u])
  moreover have "grows trace (touches [u_tempPath u]) w w1"
    using emits_grows [OF Upload_Write_touches [OF "2.prems"(1)] 1] by (rule grows_touches_mono) simp
  ultimately show ?case using "2.IH" [of "(r, u1)" w1] "2.prems" 1 grow.trans [of trace "touches [u_tempPath u]" w w1 w'] by simp
next
  case (3 sha e cs u)
  then show ?case by (simp add: quiet_upload_cong [of "Upload_TransferError u e" u])
next
  case (4 sha cs u)
  obtain r u1 w1 where 1: "run_state (Upload_Close sha u) w = ((r, u1), w1)" by (metis prod.collapse)
  have "quiet_upload u1" and "u_tempPath u1 = u_tempPath u" and "u_failed u1"
    using "4.prems"(1,2) Upload_Close_fields [OF 1] by (simp_all add: quiet_upload_cong [of u1 u])
  moreover have "grows trace (touches [u_tempPath u]) w w1"
    using emits_grows [OF Upload_Close_failed_touches [OF "4.prems"(1,2)] 1] .
  ultimately show ?case using "4.IH" [of "(r, u1)" w1] "4.prems" 1 grow.trans [of trace "touches [u_tempPath u]" w w1 w'] by simp
qed (simp add: grow.refl)

end

end
