(* ===== verification/SftpFs.thy ===== *)
theory SftpFs
  imports SftpClient Transfers
begin

text \<open>
  The SFTP client as the \<open>RemoteFS\<close> of a transfer: \<open>*sftpclient.Client\<close> satisfies the
  interface of \<open>transfer.go\<close>, and the files it opens are \<open>*sftp.File\<close> values of the
  library. The theory interprets the contract \<open>remote_fs\<close> on the client and draws the
  end-to-end consequences: a failed upload never names its target, and a successful one leaves
  exactly the uploaded bytes under the target and nothing under the temporary name.
\<close>

definition sftp_writer :: "'s sftp_lib \<Rightarrow> handle \<Rightarrow> ('s, 'm) world_scheme WriteCloser" where
  "sftp_writer L h = \<lparr>wc_Write = (\<lambda>p. send (WriteFile h p) (file_Write L h p)),
     wc_Close = send (CloseFile h) (file_Close L h)\<rparr>"

definition sftp_reader :: "'s sftp_lib \<Rightarrow> handle \<Rightarrow> ('s, 'm) world_scheme ReadSeekCloser" where
  "sftp_reader L h = \<lparr>rc_Read = (\<lambda>n. send (ReadFile h) (file_Read L h n)),
     rc_Seek = (\<lambda>i j. send (SeekFile h i j) (file_Seek L h i j)),
     rc_Close = send (CloseFile h) (file_Close L h)\<rparr>"

definition Client_RemoteFS :: "'s sftp_lib \<Rightarrow> Client \<Rightarrow> ('s, 'm) world_scheme RemoteFS" where
  "Client_RemoteFS L c = \<lparr>fs_Stat = Client_Stat L c,
     fs_OpenRead = (\<lambda>p. do { r \<leftarrow> Client_OpenRead L c p; return (map_sum id (sftp_reader L) r) }),
     fs_CreateTemp = (\<lambda>p. do { r \<leftarrow> Client_CreateTemp L c p; return (map_sum id (sftp_writer L) r) }),
     fs_Commit = Client_Commit L c, fs_Remove = Client_Remove L c\<rparr>"

lemma Client_RemoteFS_sel [simp]:
  "fs_Stat (Client_RemoteFS L c) = Client_Stat L c" "fs_Commit (Client_RemoteFS L c) = Client_Commit L c"
  "fs_Remove (Client_RemoteFS L c) = Client_Remove L c"
  by (simp_all add: Client_RemoteFS_def)

lemma sftp_file_sel [simp]:
  "wc_Write (sftp_writer L h) p = send (WriteFile h p) (file_Write L h p)"
  "wc_Close (sftp_writer L h) = send (CloseFile h) (file_Close L h)"
  "rc_Read (sftp_reader L h) n = send (ReadFile h) (file_Read L h n)"
  "rc_Seek (sftp_reader L h) i j = send (SeekFile h i j) (file_Seek L h i j)"
  "rc_Close (sftp_reader L h) = send (CloseFile h) (file_Close L h)"
  by (simp_all add: sftp_writer_def sftp_reader_def)

lemma emits_fs_CreateTemp [emits_rules]:
  "P (OpenFile p create_flags) \<Longrightarrow> emits wire P (fs_CreateTemp (Client_RemoteFS L c) p)"
  unfolding Client_RemoteFS_def by (simp, intro emits_rules)

lemma emits_fs_OpenRead [emits_rules]:
  "P (Lstat p) \<Longrightarrow> P (ReadLink p) \<Longrightarrow> P (OpenFile p O_RDONLY) \<Longrightarrow> emits wire P (fs_OpenRead (Client_RemoteFS L c) p)"
  unfolding Client_RemoteFS_def by (simp, intro emits_rules)

lemma run_CreateTemp_Inr:
  "run_state (fs_CreateTemp (Client_RemoteFS L c) p) w = (Inr f, w') \<longleftrightarrow>
   (\<exists>h. f = sftp_writer L h \<and> run_state (Client_CreateTemp L c p) w = (Inr h, w'))"
  by (auto simp: Client_RemoteFS_def map_sum_def split: prod.splits sum.splits)

lemma run_OpenRead_Inr:
  "run_state (fs_OpenRead (Client_RemoteFS L c) p) w = (Inr f, w') \<longleftrightarrow>
   (\<exists>h. f = sftp_reader L h \<and> run_state (Client_OpenRead L c p) w = (Inr h, w'))"
  by (auto simp: Client_RemoteFS_def map_sum_def split: prod.splits sum.splits)

interpretation client_fs: remote_fs "Client_RemoteFS L c" "wire :: ('s, 'm) world_scheme \<Rightarrow> request list"
  for L c
proof unfold_locales
  fix p q ow b n i j f f' and w w' :: "('s, 'm) world_scheme"
  show "emits wire (\<lambda>q. touches [p] q \<and> \<not> mutating q) (fs_Stat (Client_RemoteFS L c) p)"
    by (simp, intro emits_rules) (simp_all add: touches_def)
  show "emits wire (\<lambda>q. touches [p] q \<and> \<not> mutating q) (fs_OpenRead (Client_RemoteFS L c) p)"
    unfolding Client_RemoteFS_def by (simp, intro emits_rules) (simp_all add: touches_def)
  show "emits wire (touches [p]) (fs_CreateTemp (Client_RemoteFS L c) p)"
    unfolding Client_RemoteFS_def by (simp, intro emits_rules) (simp_all add: touches_def)
  show "emits wire (touches [p, q]) (fs_Commit (Client_RemoteFS L c) p q ow)"
    by (simp, intro emits_rules) (simp_all add: touches_def)
  show "emits wire (touches [p]) (fs_Remove (Client_RemoteFS L c) p)"
    by (simp, intro emits_rules) (simp_all add: touches_def)
  show "emits wire (touches []) (wc_Write f b) \<and> emits wire (touches []) (wc_Close f)"
    if "run_state (fs_CreateTemp (Client_RemoteFS L c) p) w = (Inr f, w')"
    using that by (auto simp: run_CreateTemp_Inr touches_def intro!: emits_rules)
  show "emits wire (\<lambda>q. touches [] q \<and> \<not> mutating q) (rc_Read f' n)
      \<and> emits wire (\<lambda>q. touches [] q \<and> \<not> mutating q) (rc_Seek f' i j)
      \<and> emits wire (\<lambda>q. touches [] q \<and> \<not> mutating q) (rc_Close f')"
    if "run_state (fs_OpenRead (Client_RemoteFS L c) p) w = (Inr f', w')"
    using that by (auto simp: run_OpenRead_Inr touches_def intro!: emits_rules)
qed

text \<open>What the handles made on the client can send.\<close>

lemma NewUpload_upload_emits:
  assumes "run_state (NewUpload (Client_RemoteFS L c) final opts) w = (Inr u, w')"
    and "t = TempPath final (up_SessionID opts) (up_TemporarySuffix opts)"
    and "\<And>h b. P (WriteFile h b)" "\<And>h. P (CloseFile h)"
    and "P (Lstat t)" "P (ReadLink t)" "P (Remove t)" "P (Lstat final)" "P (ReadLink final)" "P (Stat final)"
    and "P (Rename t final)" "P (PosixRename t final)" "up_Overwrite opts \<Longrightarrow> P (Remove final)"
    and "emits wire P (run_Release (up_Release opts))" "\<And>r. emits wire P (run_OnComplete (up_OnComplete opts) r)"
  shows "upload_emits wire P u"
proof -
  note u = NewUpload_Inr [OF assms(1)]
  obtain h where "u_file u = sftp_writer L h" using u by (auto simp: run_CreateTemp_Inr)
  with u assms(2-15) show ?thesis by (auto simp: upload_emits_def intro!: emits_rules)
qed

lemma NewDownload_download_emits:
  assumes "run_state (NewDownload (Client_RemoteFS L c) p opts) w = (Inr d, w')"
    and "\<And>h. P (ReadFile h)" "\<And>h i j. P (SeekFile h i j)" "\<And>h. P (CloseFile h)"
    and "emits wire P (run_Release (dn_Release opts))" "\<And>r. emits wire P (run_OnComplete (dn_OnComplete opts) r)"
  shows "download_emits wire P d"
proof -
  obtain f w1 where f: "run_state (fs_OpenRead (Client_RemoteFS L c) p) w = (Inr f, w1)" "d_file d = f" "d_opts d = opts"
    using assms(1) by (auto simp: NewDownload_def split: prod.splits sum.splits)
  then obtain h where "f = sftp_reader L h" by (auto simp: run_OpenRead_Inr)
  with f assms(2-6) show ?thesis by (auto simp: download_emits_def intro!: emits_rules)
qed

section \<open>Failed uploads\<close>

text \<open>
  (C11) An upload that fails before it is closed, for whatever reason (a write error, the size
  limit, an aborted data connection), never touches its target: from its first write on, every
  request that names a path names only the temporary file. The result holds for any order of calls
  on the handle, also further writes and repeated closes.
\<close>

theorem failed_upload_spares_target:
  assumes "run_state (NewUpload (Client_RemoteFS L c) final opts) w0 = (Inr u, w1)"
    and "quiet_callbacks wire opts"
    and "run_state (upload_run sha pre u) w1 = (u1, w2)" and "CallClose \<notin> set pre" and "u_failed u1"
    and "run_state (upload_run sha post u1) w2 = (u2, w3)"
  shows "\<exists>qs. wire w3 = wire w1 @ qs
    \<and> list_all (touches [TempPath final (up_SessionID opts) (up_TemporarySuffix opts)]) qs"
proof -
  let ?t = "TempPath final (up_SessionID opts) (up_TemporarySuffix opts)"
  note q = client_fs.NewUpload_quiet [OF assms(1,2)]
  have t: "u_tempPath u = ?t" using NewUpload_Inr [OF assms(1)] by simp
  note r1 = client_fs.upload_run_open_touches [OF q assms(4,3)]
  then have "grows wire (touches [?t]) w1 w2" by (auto intro: client_fs.grows_touches_mono)
  moreover have "grows wire (touches [?t]) w2 w3"
    using client_fs.upload_run_failed_touches [of L c, OF _ assms(5,6)] r1 t by simp
  ultimately show ?thesis using grow.trans unfolding grows_def by fastforce
qed

section \<open>Successful uploads\<close>

text \<open>
  What the remote server does, seen as a map from paths to file contents (paths that name
  distinct files): queries change nothing, opening for writing truncates, a write appends what it
  reports as written and reports less only with an error, a rename moves. \<open>file\<close> is the
  path of an open file. These are the semantics the SFTP protocol gives the requests.
\<close>

definition write_law ::
  "'s sftp_lib \<Rightarrow> ('s \<Rightarrow> string \<Rightarrow> bytes option) \<Rightarrow> ('s \<Rightarrow> handle \<Rightarrow> string option) \<Rightarrow> bool" where
  "write_law L view file \<longleftrightarrow> (\<forall>f b s n e s' p d.
     file_Write L f b s = ((n, e), s') \<and> file s f = Some p \<and> view s p = Some d
     \<longrightarrow> view s' = (view s)(p \<mapsto> d @ take (nat n) b) \<and> file s' f = Some p \<and> (e = None \<longrightarrow> n = int (length b)))"

definition content_laws ::
  "'s sftp_lib \<Rightarrow> ('s \<Rightarrow> string \<Rightarrow> bytes option) \<Rightarrow> ('s \<Rightarrow> handle \<Rightarrow> string option) \<Rightarrow> bool" where
  "content_laws L view file \<longleftrightarrow>
     (\<forall>h p s. view (snd (lib_Lstat L h p s)) = view s \<and> view (snd (lib_Stat L h p s)) = view s
        \<and> view (snd (lib_ReadLink L h p s)) = view s)
     \<and> (\<forall>f s. view (snd (file_Close L f s)) = view s)
     \<and> (\<forall>h p s f. fst (lib_OpenFile L h p create_flags s) = Inr f
          \<longrightarrow> view (snd (lib_OpenFile L h p create_flags s)) = (view s)(p \<mapsto> [])
              \<and> file (snd (lib_OpenFile L h p create_flags s)) f = Some p)
     \<and> write_law L view file
     \<and> (\<forall>h p s. fst (lib_Remove L h p s) = None \<longrightarrow> view (snd (lib_Remove L h p s)) = (view s)(p := None))
     \<and> (\<forall>h p q s. p \<noteq> q \<and> fst (lib_Rename L h p q s) = None
          \<longrightarrow> view (snd (lib_Rename L h p q s)) = (view s)(q := view s p, p := None))
     \<and> (\<forall>h p q s. p \<noteq> q \<and> fst (lib_PosixRename L h p q s) = None
          \<longrightarrow> view (snd (lib_PosixRename L h p q s)) = (view s)(q := view s p, p := None))"

lemma content_lawsD:
  assumes "content_laws L view file"
  shows "view (snd (lib_Lstat L h p s)) = view s" and "view (snd (lib_Stat L h p s)) = view s"
    and "view (snd (lib_ReadLink L h p s)) = view s" and "view (snd (file_Close L f s)) = view s"
    and "fst (lib_Remove L h p s) = None \<Longrightarrow> view (snd (lib_Remove L h p s)) = (view s)(p := None)"
    and "p \<noteq> q \<Longrightarrow> fst (lib_Rename L h p q s) = None \<Longrightarrow>
      view (snd (lib_Rename L h p q s)) = (view s)(q := view s p, p := None)"
    and "p \<noteq> q \<Longrightarrow> fst (lib_PosixRename L h p q s) = None \<Longrightarrow>
      view (snd (lib_PosixRename L h p q s)) = (view s)(q := view s p, p := None)"
  using assms by (simp_all add: content_laws_def)

lemma content_law_open:
  "content_laws L view file \<Longrightarrow> fst (lib_OpenFile L h p create_flags s) = Inr f \<Longrightarrow>
   view (snd (lib_OpenFile L h p create_flags s)) = (view s)(p \<mapsto> [])
   \<and> file (snd (lib_OpenFile L h p create_flags s)) f = Some p"
  by (simp add: content_laws_def)

lemma content_law_write:
  "content_laws L view file \<Longrightarrow> file_Write L f b s = ((n, e), s') \<Longrightarrow> file s f = Some p \<Longrightarrow> view s p = Some d \<Longrightarrow>
   view s' = (view s)(p \<mapsto> d @ take (nat n) b) \<and> file s' f = Some p \<and> (e = None \<longrightarrow> n = int (length b))"
proof -
  assume "content_laws L view file"
  then have "write_law L view file" by (simp add: content_laws_def)
  then show "file_Write L f b s = ((n, e), s') \<Longrightarrow> file s f = Some p \<Longrightarrow> view s p = Some d \<Longrightarrow>
    view s' = (view s)(p \<mapsto> d @ take (nat n) b) \<and> file s' f = Some p \<and> (e = None \<longrightarrow> n = int (length b))"
    unfolding write_law_def by blast
qed

lemma keeps_send_view: "(\<And>s. v (snd (f s)) = v s) \<Longrightarrow> keeps (\<lambda>w. v (remote w)) (send q f)"
  by (simp add: keeps_def state_io_rel_def run_send)

lemma keeps_checkNoEscapingSymlink_view:
  "content_laws L view file \<Longrightarrow> keeps (\<lambda>w. view (remote w)) (checkNoEscapingSymlink L c p)"
  unfolding checkNoEscapingSymlink_def Let_def by (intro keeps_basic keeps_send_view content_lawsD)

lemma Commit_content:
  assumes "content_laws L view file" and "p \<noteq> q" and "run_state (Client_Commit L c p q ow) w = (None, w')"
  shows "view (remote w') = (view (remote w))(q := view (remote w) p, p := None)"
proof -
  obtain e w1 where 1: "run_state (checkNoEscapingSymlink L c q) w = (e, w1)" by fastforce
  have v: "view (remote w1) = view (remote w)"
    using keepsD [OF keeps_checkNoEscapingSymlink_view [OF assms(1)] 1] .
  note laws = content_lawsD [OF assms(1)]
  show ?thesis
    using assms(2,3) 1
    by (auto simp: Client_Commit_def HasPosixRename_def rejectIfExists_def run_send translated_def v laws Let_def
        split: option.splits if_splits sum.splits)
qed

lemma CreateTemp_content:
  assumes "content_laws L view file" and "run_state (Client_CreateTemp L c p) w = (Inr h, w')"
  shows "view (remote w') = (view (remote w))(p \<mapsto> []) \<and> file (remote w') h = Some p"
  using assms(2) content_law_open [OF assms(1), of "sftp c" p "remote w" h]
  by (auto simp: Client_CreateTemp_def run_send split: sum.splits)

lemma Client_Stat_view:
  assumes "content_laws L view file"
  shows "keeps (\<lambda>w. view (remote w)) (Client_Stat L c p)"
  unfolding Client_Stat_def
  by (intro keeps_basic keeps_checkNoEscapingSymlink_view [OF assms] keeps_send_view content_lawsD(2) [OF assms])

lemma NewUpload_content:
  assumes "content_laws L view file"
    and "run_state (NewUpload (Client_RemoteFS L c) final opts) w = (Inr u, w')"
  obtains h where "u_file u = sftp_writer L h" and "file (remote w') h = Some (u_tempPath u)"
    and "view (remote w') = (view (remote w))(u_tempPath u \<mapsto> [])"
proof -
  obtain r w1 where 1: "run_state (Client_Stat L c final) w = (r, w1)" by fastforce
  have v: "view (remote w1) = view (remote w)" using keepsD [OF Client_Stat_view [OF assms(1)] 1] .
  let ?t = "TempPath final (up_SessionID opts) (up_TemporarySuffix opts)"
  obtain w2 where 2: "run_state (fs_CreateTemp (Client_RemoteFS L c) ?t) w2 = (Inr (u_file u), w')"
    and w2: "w2 = w \<or> w2 = w1" and t: "u_tempPath u = ?t"
    using assms(2) 1
    by (auto simp: NewUpload_def Let_def split: if_splits prod.splits option.splits sum.splits)
  obtain h where h: "u_file u = sftp_writer L h" "run_state (Client_CreateTemp L c ?t) w2 = (Inr h, w')"
    using 2 by (auto simp: run_CreateTemp_Inr)
  with CreateTemp_content [OF assms(1) h(2)] w2 v t that show thesis by auto
qed

text \<open>A run of writes that has not failed has appended every byte to the temporary file.\<close>

lemma writes_content:
  assumes "content_laws L view file" and "u_file u = sftp_writer L h"
    and "file (remote w) h = Some t" and "view (remote w) t = Some d" and "u_written u = int (length d)"
    and "\<And>x. u_hasher u = Some x \<Longrightarrow> x = d"
    and "int (length d + length (concat bs)) < 2 ^ 63"
    and "run_state (upload_run sha (map CallWrite bs) u) w = (u', w')" and "\<not> u_failed u'"
  shows "view (remote w') = (view (remote w))(t \<mapsto> d @ concat bs)
    \<and> u_written u' = int (length (d @ concat bs)) \<and> (\<forall>x. u_hasher u' = Some x \<longrightarrow> x = d @ concat bs)
    \<and> u_fs u' = u_fs u \<and> u_file u' = u_file u \<and> u_opts u' = u_opts u \<and> u_tempPath u' = u_tempPath u
    \<and> u_finalPath u' = u_finalPath u \<and> u_closed u' = u_closed u \<and> (u_hasher u' = None) = (u_hasher u = None)"
  using assms
proof (induction bs arbitrary: u w d)
  case Nil
  then show ?case by (auto simp: fun_upd_idem)
next
  case (Cons b bs)
  obtain r u1 w1 where 1: "run_state (Upload_Write u b) w = ((r, u1), w1)" by (metis prod.collapse)
  have run: "run_state (upload_run sha (map CallWrite bs) u1) w1 = (u', w')" using Cons.prems(8) 1 by simp
  have nf: "\<not> u_failed u1"
    using upload_run_failed [OF _ run] Cons.prems(9) by blast
  note f = Upload_Write_fields [OF 1]
  obtain n e s' where s: "file_Write L h b (remote w) = ((n, e), s')" by (metis prod.collapse)
  note law = content_law_write [OF Cons.prems(1) s Cons.prems(3,4)]
  have u1: "e = None" "w1 = w\<lparr>remote := s', wire := wire w @ [WriteFile h b]\<rparr>"
    "u_written u1 = wrap64 (u_written u + n)"
    "u_hasher u1 = map_option (\<lambda>x. x @ take (nat n) b) (u_hasher u)"
    using 1 s nf Cons.prems(2)
    by (auto simp: Upload_Write_def Let_def run_send split: if_splits option.splits)
  have w1: "view (remote w1) t = Some (d @ b)" "file (remote w1) h = Some t"
    and v: "(view (remote w1))(t \<mapsto> d @ b @ concat bs) = (view (remote w))(t \<mapsto> d @ b @ concat bs)"
    and wr: "u_written u1 = int (length (d @ b))"
    using law u1 Cons.prems(5,7) by simp_all
  have h: "x = d @ b" if "u_hasher u1 = Some x" for x
    using that u1(1,4) law Cons.prems(6) by auto
  show ?case
    using Cons.IH [OF Cons.prems(1) _ w1(2,1) wr h _ run Cons.prems(9)] Cons.prems(2,7) f v u1(4) by simp
qed

lemma tree_write_law: "write_law tree_lib tree_view tree_file"
  unfolding write_law_def tree_lib_def
  by (auto simp: tree_Write_def tree_view_def tree_file_def node_data_def fun_eq_iff set_node_def map_of_filter_neq
      split: option.splits node.splits prod.splits)

lemma tree_content_laws: "content_laws tree_lib tree_view tree_file"
  unfolding content_laws_def
proof (intro conjI allI impI)
  show "write_law tree_lib tree_view tree_file" by (rule tree_write_law)
qed (auto simp: tree_lib_def tree_Lstat_def tree_Stat_def tree_ReadLink_def tree_Close_def tree_OpenFile_def
      tree_Remove_def tree_Rename_def tree_PosixRename_def node_data_def Let_def fun_eq_iff
      tree_file_def tree_view_def set_node_def drop_node_def map_of_filter_neq
      simp del: filter_filter split: if_splits option.splits)

text \<open>Callbacks that leave the remote side alone.\<close>

definition local_callbacks :: "('s, 'm) world_scheme UploadOptions \<Rightarrow> bool" where
  "local_callbacks opts \<longleftrightarrow> keeps remote (run_Release (up_Release opts))
     \<and> (\<forall>r. keeps remote (run_OnComplete (up_OnComplete opts) r))"

text \<open>A successful upload: the target holds the bytes, and nothing else has changed.\<close>

lemma upload_committed:
  assumes "content_laws L view file"
    and "clean_abs final" "final \<noteq> ''/''" "slash \<notin> set (up_TemporarySuffix opts)" "slash \<notin> set (up_SessionID opts)"
    and "local_callbacks opts" and "int (length (concat bs)) < 2 ^ 63"
    and "run_state (NewUpload (Client_RemoteFS L c) final opts) w0 = (Inr u, w1)"
    and "run_state (upload_run sha (map CallWrite bs) u) w1 = (u1, w2)"
    and "run_state (Upload_Close sha u1) w2 = ((None, u2), w3)"
  shows "view (remote w3) = (view (remote w0))
      (TempPath final (up_SessionID opts) (up_TemporarySuffix opts) := None, final \<mapsto> concat bs)
    \<and> Bytes (upload_result sha u2) = int (length (concat bs))
    \<and> SHA256 (upload_result sha u2) = (if up_CalculateSHA256 opts then hex_encode (sha (concat bs)) else [])"
proof -
  let ?t = "TempPath final (up_SessionID opts) (up_TemporarySuffix opts)"
  note u = NewUpload_Inr [OF assms(8)]
  have t: "?t \<noteq> final" by (rule TempPath_neq [OF assms(2-5)])
  obtain h where h: "u_file u = sftp_writer L h" "file (remote w1) h = Some (u_tempPath u)"
    "view (remote w1) = (view (remote w0))(u_tempPath u \<mapsto> [])"
    using NewUpload_content [OF assms(1,8)] .
  have "u_failed u1 \<Longrightarrow> u_failErr u1 \<noteq> None" using writes_failErr [OF assms(9)] u by simp
  moreover have "u_closed u1 = u_closed u"
    using upload_run_open [OF assms(9)] by simp
  ultimately obtain v1 v2 v3 where c: "\<not> u_failed u1" "u2 = u1\<lparr>u_closed := True\<rparr>"
    "run_state (wc_Close (u_file u1)) w2 = (None, v1)"
    "run_state (fs_Commit (u_fs u1) (u_tempPath u1) (u_finalPath u1) (up_Overwrite (u_opts u1))) v1 = (None, v2)"
    "run_state (run_OnComplete (up_OnComplete (u_opts u1)) ((upload_result sha u2)\<lparr>Phase := PhaseCommitted\<rparr>)) v2 = ((), v3)"
    "run_state (run_Release (up_Release (u_opts u1))) v3 = ((), w3)"
    using Upload_Close_committed [OF assms(10)] u by metis
  have d: "view (remote w2) = (view (remote w1))(?t \<mapsto> concat bs) \<and> u_written u1 = int (length (concat bs))
    \<and> (\<forall>x. u_hasher u1 = Some x \<longrightarrow> x = concat bs) \<and> u_fs u1 = u_fs u \<and> u_file u1 = u_file u \<and> u_opts u1 = opts
    \<and> u_tempPath u1 = ?t \<and> u_finalPath u1 = final \<and> (u_hasher u1 = None) = (u_hasher u = None)"
    using writes_content [OF assms(1) h(1,2) _ _ _ _ assms(9) c(1), of "[]"] h(3) u assms(7) by (auto split: if_splits)
  have "view (remote v1) = view (remote w2)"
    using c(3) d h(1) content_lawsD(4) [OF assms(1)] by (auto simp: run_send)
  moreover have "view (remote v2) = (view (remote v1))(final := view (remote v1) ?t, ?t := None)"
    using Commit_content [OF assms(1) t] c(4) d u by simp
  moreover have "remote w3 = remote v2"
  proof -
    have "keeps remote (run_Release (up_Release opts))" "keeps remote (run_OnComplete (up_OnComplete opts) r)" for r
      using assms(6) by (simp_all add: local_callbacks_def)
    then show ?thesis using keepsD c(5,6) d by metis
  qed
  ultimately have "view (remote w3) = (view (remote w0))(?t := None, final \<mapsto> concat bs)"
    using d h(3) u t by (auto simp: fun_eq_iff)
  then show ?thesis using c(2) d u by (auto simp: upload_result_def split: option.splits)
qed

text \<open>
  (C10) An upload that succeeds is complete and atomic: if every chunk was given to the handle and
  \<open>Close\<close> returned no error, then the target holds exactly the concatenation of the chunks,
  the temporary file is gone, every other remote path is as it was before the upload began, and the
  reported size and SHA-256 are those of the uploaded bytes. It holds with both kinds of commit
  (POSIX rename, and remove followed by rename), for any server with the semantics of
  \<open>content_laws\<close>, and for totals below the range of 64-bit integers.
\<close>

theorem upload_roundtrip:
  assumes "content_laws L view file"
    and "clean_abs final" "final \<noteq> ''/''" "slash \<notin> set (up_TemporarySuffix opts)" "slash \<notin> set (up_SessionID opts)"
    and "local_callbacks opts" and "int (length (concat bs)) < 2 ^ 63"
    and "run_state (NewUpload (Client_RemoteFS L c) final opts) w0 = (Inr u, w1)"
    and "run_state (upload_run sha (map CallWrite bs) u) w1 = (u1, w2)"
    and "run_state (Upload_Close sha u1) w2 = ((None, u2), w3)"
  shows "view (remote w3) = (view (remote w0))
      (TempPath final (up_SessionID opts) (up_TemporarySuffix opts) := None, final \<mapsto> concat bs)
    \<and> Bytes (upload_result sha u2) = int (length (concat bs))
    \<and> SHA256 (upload_result sha u2) = (if up_CalculateSHA256 opts then hex_encode (sha (concat bs)) else [])"
  by (rule upload_committed [OF assms])

text \<open>An upload of three bytes in two chunks to the tree server.\<close>

definition demo_opts :: "tree world UploadOptions" where
  "demo_opts = \<lparr>up_SessionID = ''00ff'', up_TransferID = ''01'', up_VirtualPath = ''/a'', up_MaxSize = 10,
     up_Overwrite = False, up_CalculateSHA256 = True, up_TemporarySuffix = ''.part'',
     up_OnComplete = None, up_Release = None\<rparr>"

definition demo_start :: "tree world UploadHandle result \<times> tree world" where
  "demo_start = run_state (NewUpload (Client_RemoteFS tree_lib tree_client) ''/data/a'' demo_opts)
     \<lparr>remote = empty_tree, wire = []\<rparr>"

definition demo_write :: "tree world UploadHandle \<times> tree world" where
  "demo_write = run_state (upload_run id (map CallWrite [[1, 2], [3]]) (projr (fst demo_start))) (snd demo_start)"

definition demo_close :: "(go_error option \<times> tree world UploadHandle) \<times> tree world" where
  "demo_close = run_state (Upload_Close id (fst demo_write)) (snd demo_write)"

lemma demo_started: "demo_start = (Inr (projr (fst demo_start)), snd demo_start)"
proof -
  have "\<not> isl (fst demo_start)" by code_simp
  then show ?thesis by (metis prod.collapse sum.collapse(2))
qed

lemma demo_callbacks: "local_callbacks demo_opts" "quiet_callbacks wire demo_opts"
  by (simp_all add: local_callbacks_def quiet_callbacks_def demo_opts_def run_Release_def run_OnComplete_def
      emits_return keeps_basic)

theorem upload_roundtrip_witness:
  "tree_view (remote (snd demo_close)) ''/data/a'' = Some [1, 2, 3]
   \<and> tree_view (remote (snd demo_close)) ''/data/a.part-00ff'' = None"
proof -
  have f: "clean_abs ''/data/a''" "TempPath ''/data/a'' ''00ff'' ''.part'' = ''/data/a.part-00ff''" by code_simp+
  have n: "fst (fst demo_close) = None" by code_simp
  have c: "run_state (Upload_Close id (fst demo_write)) (snd demo_write) = ((None, snd (fst demo_close)), snd demo_close)"
    using n unfolding demo_close_def by (metis prod.collapse)
  have "tree_view (remote (snd demo_close)) = (tree_view empty_tree)(''/data/a.part-00ff'' := None, ''/data/a'' \<mapsto> concat [[1, 2], [3]])"
    using upload_roundtrip [OF tree_content_laws f(1) _ _ _ demo_callbacks(1) _ demo_started [unfolded demo_start_def]
        _ c, of "[[1, 2], [3]]"] f(2)
    by (simp add: demo_write_def demo_start_def demo_opts_def)
  then show ?thesis by simp
qed

theorem failed_upload_spares_target_witness:
  "\<exists>qs. wire (snd (run_state (upload_run id [CallClose] (Upload_TransferError (projr (fst demo_start)) None)) (snd demo_start)))
     = wire (snd demo_start) @ qs \<and> list_all (touches [''/data/a.part-00ff'']) qs"
proof -
  let ?u = "projr (fst demo_start)" and ?w = "snd demo_start"
  have f: "TempPath ''/data/a'' ''00ff'' ''.part'' = ''/data/a.part-00ff''" by code_simp
  have o: "up_SessionID demo_opts = ''00ff''" "up_TemporarySuffix demo_opts = ''.part''"
    by (simp_all add: demo_opts_def)
  have s: "run_state (NewUpload (Client_RemoteFS tree_lib tree_client) ''/data/a'' demo_opts)
    \<lparr>remote = empty_tree, wire = []\<rparr> = (Inr ?u, ?w)"
    using demo_started by (simp only: demo_start_def [symmetric])
  have r: "run_state (upload_run id [CallTransferError None] ?u) ?w = (Upload_TransferError ?u None, ?w)"
    by simp
  show ?thesis
    using failed_upload_spares_target [OF s demo_callbacks(2) r _ _ prod.collapse [symmetric], of "[CallClose]"]
    by (simp add: o f)
qed

end
