(* ===== verification/Authorization.thy ===== *)
theory Authorization
  imports Errors
begin

text \<open>
  Package \<open>internal/authorization\<close>: the per-user \<open>Policy\<close> (\<open>policy.go\<close>) and the
  \<open>ConcurrencyGate\<close>, a non-blocking counting semaphore built on a buffered channel
  (\<open>concurrency.go\<close>). A check that passes is \<^term>\<open>None\<close> (Go's nil error). The gate's
  channel is modelled by its capacity and the number of tokens in its buffer; each channel
  operation is atomic, so an interleaving of sessions is a sequence of operations. The laws of
  the semaphore are a locale, in which the accounting of any sequence of transfers is proved
  once; the gate is an interpretation.
\<close>

section \<open>policy.go\<close>

record Policy =
  AllowUpload :: bool
  AllowDownload :: bool
  AllowDelete :: bool
  AllowMkdir :: bool
  AllowRename :: bool
  AllowOverwrite :: bool
  MaxFileSize :: int

definition zero_Policy :: Policy where
  "zero_Policy = \<lparr>AllowUpload = False, AllowDownload = False, AllowDelete = False,
     AllowMkdir = False, AllowRename = False, AllowOverwrite = False, MaxFileSize = 0\<rparr>"

abbreviation opDenied :: string where "opDenied \<equiv> ''authorization.check''"

definition CheckUpload :: "Policy \<Rightarrow> go_error option" where
  "CheckUpload p = (if \<not> AllowUpload p
     then Some (New KindAuthorization opDenied ''subida no autorizada'') else None)"

definition CheckDownload :: "Policy \<Rightarrow> go_error option" where
  "CheckDownload p = (if \<not> AllowDownload p
     then Some (New KindAuthorization opDenied ''descarga no autorizada'') else None)"

definition CheckDelete :: "Policy \<Rightarrow> go_error option" where
  "CheckDelete p = (if \<not> AllowDelete p
     then Some (New KindAuthorization opDenied (''eliminaci'' @ o_acute @ ''n no autorizada''))
     else None)"

definition CheckMkdir :: "Policy \<Rightarrow> go_error option" where
  "CheckMkdir p = (if \<not> AllowMkdir p
     then Some (New KindAuthorization opDenied
       (''creaci'' @ o_acute @ ''n de directorio no autorizada''))
     else None)"

definition CheckRename :: "Policy \<Rightarrow> go_error option" where
  "CheckRename p = (if \<not> AllowRename p
     then Some (New KindAuthorization opDenied ''renombrado no autorizado'') else None)"

definition CheckOverwrite :: "Policy \<Rightarrow> go_error option" where
  "CheckOverwrite p = (if \<not> AllowOverwrite p
     then Some (New KindConflict opDenied ''el archivo destino ya existe'') else None)"

definition CheckFileSize :: "Policy \<Rightarrow> int \<Rightarrow> go_error option" where
  "CheckFileSize p sz =
     (if sz < 0 then None
      else if sz > MaxFileSize p
      then Some (New KindAuthorization opDenied
        (''el archivo excede el tama'' @ n_tilde @ ''o m'' @ a_acute @ ''ximo permitido (''
          @ fmt_d (MaxFileSize p) @ '' bytes)''))
      else None)"

lemmas policy_checks = CheckUpload_def CheckDownload_def CheckDelete_def CheckMkdir_def
  CheckRename_def CheckOverwrite_def CheckFileSize_def

lemma CheckUpload_iff [simp]: "CheckUpload p = None \<longleftrightarrow> AllowUpload p"
  by (simp add: CheckUpload_def)

lemma CheckDownload_iff [simp]: "CheckDownload p = None \<longleftrightarrow> AllowDownload p"
  by (simp add: CheckDownload_def)

lemma CheckDelete_iff [simp]: "CheckDelete p = None \<longleftrightarrow> AllowDelete p"
  by (simp add: CheckDelete_def)

lemma CheckMkdir_iff [simp]: "CheckMkdir p = None \<longleftrightarrow> AllowMkdir p"
  by (simp add: CheckMkdir_def)

lemma CheckRename_iff [simp]: "CheckRename p = None \<longleftrightarrow> AllowRename p"
  by (simp add: CheckRename_def)

section \<open>concurrency.go\<close>

record ConcurrencyGate =
  capacity :: nat
  slots :: nat

text \<open>\<open>make(chan struct{}, max)\<close> panics when \<open>max\<close> is negative: \<^term>\<open>None\<close>.\<close>

definition NewConcurrencyGate :: "int \<Rightarrow> ConcurrencyGate option" where
  "NewConcurrencyGate mx =
     (if mx < 0 then None else Some \<lparr>capacity = nat mx, slots = 0\<rparr>)"

definition TryAcquire :: "ConcurrencyGate \<Rightarrow> bool \<times> ConcurrencyGate" where
  "TryAcquire g =
     (if slots g < capacity g then (True, g\<lparr>slots := slots g + 1\<rparr>) else (False, g))"

definition Release :: "ConcurrencyGate \<Rightarrow> ConcurrencyGate" where
  "Release g = (if slots g > 0 then g\<lparr>slots := slots g - 1\<rparr> else g)"

definition InUse :: "ConcurrencyGate \<Rightarrow> nat" where
  "InUse g = slots g"

lemmas gate_defs = TryAcquire_def Release_def InUse_def

section \<open>The contract of a counting semaphore\<close>

text \<open>
  Transfers of one user start and finish in any order. A transfer that was admitted holds a slot
  until it finishes; finishing twice, or finishing a transfer that was never admitted, does
  nothing, which is what the \<open>released\<close> flag of the driver's release closure does.
\<close>

datatype transfer_event = Start nat | Finish nat

fun drive :: "('g \<Rightarrow> bool \<times> 'g) \<Rightarrow> ('g \<Rightarrow> 'g) \<Rightarrow> transfer_event list \<Rightarrow> 'g \<times> nat list \<Rightarrow> 'g \<times> nat list"
  where
  "drive acq rel [] s = s"
| "drive acq rel (Start i # es) (g, hs) =
     (if i \<in> set hs then drive acq rel es (g, hs)
      else case acq g of (ok, g') \<Rightarrow> drive acq rel es (g', if ok then i # hs else hs))"
| "drive acq rel (Finish i # es) (g, hs) =
     (if i \<in> set hs then drive acq rel es (rel g, remove1 i hs) else drive acq rel es (g, hs))"

locale semaphore =
  fixes try_acquire :: "'g \<Rightarrow> bool \<times> 'g"
    and release :: "'g \<Rightarrow> 'g"
    and held :: "'g \<Rightarrow> nat"
    and limit :: "'g \<Rightarrow> nat"
  assumes acquire_free: "held g < limit g \<Longrightarrow> \<exists>g'. try_acquire g = (True, g') \<and> held g' = Suc (held g)
      \<and> limit g' = limit g"
    and acquire_full: "\<not> held g < limit g \<Longrightarrow> try_acquire g = (False, g)"
    and release_held: "0 < held g \<Longrightarrow> held (release g) = held g - 1"
    and release_limit: "limit (release g) = limit g"
begin

lemma acquire_cases:
  obtains g' where "try_acquire g = (True, g')" "held g' = Suc (held g)" "limit g' = limit g"
    "held g < limit g"
  | "try_acquire g = (False, g)" "limit g \<le> held g"
  using acquire_free [of g] acquire_full [of g] by (cases "held g < limit g") auto

lemma drive_accounting:
  assumes "distinct hs" and "held g = length hs" and "length hs \<le> limit g"
    and "drive try_acquire release es (g, hs) = (g', hs')"
  shows "distinct hs' \<and> held g' = length hs' \<and> length hs' \<le> limit g' \<and> limit g' = limit g"
  using assms
proof (induction es arbitrary: g hs)
  case Nil
  then show ?case by simp
next
  case (Cons e es)
  show ?case
  proof (cases e)
    case (Start i)
    show ?thesis
    proof (cases rule: acquire_cases [of g])
      case (1 g1)
      with Start Cons.prems Cons.IH [of hs g] Cons.IH [of "i # hs" g1] show ?thesis
        by (auto split: if_splits)
    next
      case 2
      with Start Cons.prems Cons.IH [of hs g] show ?thesis
        by (auto split: if_splits)
    qed
  next
    case (Finish i)
    show ?thesis
    proof (cases "i \<in> set hs")
      case True
      then have len: "0 < length hs" by (cases hs) auto
      have "held (release g) = length (remove1 i hs)"
        using True Cons.prems(2) len by (simp add: release_held length_remove1)
      moreover have "length (remove1 i hs) \<le> limit (release g)"
        using Cons.prems(3) True by (simp add: release_limit length_remove1)
      ultimately show ?thesis
        using Cons.IH [of "remove1 i hs" "release g"] Cons.prems True Finish
        by (simp add: release_limit distinct_remove1)
    next
      case False
      with Finish Cons.prems Cons.IH [of hs g] show ?thesis by simp
    qed
  qed
qed

end

interpretation gate: semaphore TryAcquire Release InUse capacity
  by unfold_locales (auto simp: gate_defs)

text \<open>
  Transfer accounting of a user's gate: after any interleaving of starting and finishing
  transfers, repeated finishes included, the slots in use are exactly the transfers in flight,
  and there are never more of them than \<open>maxConcurrentTransfers\<close>.
\<close>

theorem gate_bounds_transfers:
  assumes "NewConcurrencyGate mx = Some g0"
    and "drive TryAcquire Release es (g0, []) = (g, inflight)"
  shows "InUse g = length inflight \<and> distinct inflight \<and> int (length inflight) \<le> mx"
proof -
  have "InUse g0 = 0" and "capacity g0 = nat mx" and "0 \<le> mx"
    using assms(1) by (auto simp: NewConcurrencyGate_def InUse_def split: if_splits)
  then show ?thesis
    using gate.drive_accounting [of "[]" g0 es g inflight] assms(2) by auto
qed

theorem gate_bounds_transfers_witness:
  "drive TryAcquire Release [Start 1, Start 2, Start 3, Finish 1, Finish 1, Start 4]
     (\<lparr>capacity = 2, slots = 0\<rparr>, []) = (\<lparr>capacity = 2, slots = 2\<rparr>, [4, 2])
   \<and> InUse \<lparr>capacity = 2, slots = 2\<rparr> = length [4, 2 :: nat]"
proof -
  have a: "NewConcurrencyGate 2 = Some \<lparr>capacity = 2, slots = 0\<rparr>"
    by (simp add: NewConcurrencyGate_def)
  have b: "drive TryAcquire Release [Start 1, Start 2, Start 3, Finish 1, Finish 1, Start 4]
     (\<lparr>capacity = 2, slots = 0\<rparr>, []) = (\<lparr>capacity = 2, slots = 2\<rparr>, [4, 2])"
    by (simp add: gate_defs)
  show ?thesis using b gate_bounds_transfers [OF a b] by simp
qed

end
