(* ===== verification/Session.thy ===== *)
theory Session
  imports SftpClient Authorization
begin

text \<open>
  Package \<open>internal/session\<close>: the state of one authenticated FTP connection. The fields that
  never change are the record \<open>Session\<close>; the two fields behind the mutex (the SFTP connection
  and the closed flag) live in a store indexed by the session's reference, so that every copy of
  the pointer sees them. Each method holds the mutex from start to end, so it is one step. The
  connector is a field, a computation supplied by the gateway (its type is a parameter, so that a
  session can also be kept where only its identity matters). The gate is a reference: the name of
  the user whose sessions share it.

  The theorems show that a connection is dialled lazily and reused, that a closed session stays
  closed, and that over any sequence of calls every connection opened is closed exactly once.
\<close>

record sess_slot =
  slot_sftp :: "Client option"
  slot_closed :: bool

record 's sess_world = "'s world" +
  sess_slots :: "nat \<Rightarrow> sess_slot"
  next_sess :: nat

record 'c Session =
  s_ref :: nat
  s_id :: string
  s_username :: string
  s_clientIP :: string
  s_startedAt :: time
  s_mapper :: Mapper
  s_policy :: Policy
  s_gate :: string
  s_connect :: 'c

definition errClosedSession :: go_error where
  "errClosedSession = New KindDisconnected ''session.SFTP'' (''la sesi'' @ o_acute @ ''n ya fue cerrada'')"

text \<open>\<open>New\<close>, with the time \<open>now\<close> that \<open>time.Now\<close> gives.\<close>

definition New_Session ::
  "string \<Rightarrow> string \<Rightarrow> string \<Rightarrow> Mapper \<Rightarrow> Policy \<Rightarrow> string \<Rightarrow> (('s, 'm) sess_world_scheme, Client result) state \<Rightarrow> time
    \<Rightarrow> (('s, 'm) sess_world_scheme, (('s, 'm) sess_world_scheme, Client result) state Session) state" where
  "New_Session sid username clientIP mapper policy gate connect now = do {
     r \<leftarrow> gets next_sess;
     _ \<leftarrow> modify (\<lambda>w. w\<lparr>next_sess := Suc r,
            sess_slots := (sess_slots w)(r := \<lparr>slot_sftp = None, slot_closed = False\<rparr>)\<rparr>);
     return \<lparr>s_ref = r, s_id = sid, s_username = username, s_clientIP = clientIP, s_startedAt = now,
       s_mapper = mapper, s_policy = policy, s_gate = gate, s_connect = connect\<rparr>
   }"

definition slot_of :: "'c Session \<Rightarrow> ('s, 'm) sess_world_scheme \<Rightarrow> sess_slot" where
  "slot_of s w = sess_slots w (s_ref s)"

definition set_slot :: "'c Session \<Rightarrow> (sess_slot \<Rightarrow> sess_slot) \<Rightarrow> (('s, 'm) sess_world_scheme, unit) state" where
  "set_slot s f = modify (\<lambda>w. w\<lparr>sess_slots := (sess_slots w)(s_ref s := f (slot_of s w))\<rparr>)"

definition Session_SFTP ::
  "(('s, 'm) sess_world_scheme, Client result) state Session \<Rightarrow> (('s, 'm) sess_world_scheme, Client result) state" where
  "Session_SFTP s = do {
     slot \<leftarrow> gets (slot_of s);
     if slot_closed slot then return (Inl errClosedSession)
     else case slot_sftp slot of
         Some c \<Rightarrow> return (Inr c)
       | None \<Rightarrow> do {
           client \<leftarrow> s_connect s;
           case client of
             Inl err \<Rightarrow> return (Inl err)
           | Inr c \<Rightarrow> do {
               _ \<leftarrow> set_slot s (\<lambda>sl. sl\<lparr>slot_sftp := Some c\<rparr>);
               return (Inr c)
             }
         }
   }"

definition InvalidateSFTP ::
  "'s sftp_lib \<Rightarrow> 'c Session \<Rightarrow> (('s, 'm) sess_world_scheme, unit) state" where
  "InvalidateSFTP L s = do {
     slot \<leftarrow> gets (slot_of s);
     case slot_sftp slot of
       Some c \<Rightarrow> do {
         _ \<leftarrow> Client_Close L c;
         set_slot s (\<lambda>sl. sl\<lparr>slot_sftp := None\<rparr>)
       }
     | None \<Rightarrow> return ()
   }"

definition IsConnected ::
  "'c Session \<Rightarrow> (('s, 'm) sess_world_scheme, bool) state" where
  "IsConnected s = gets (\<lambda>w. slot_sftp (slot_of s w) \<noteq> None)"

definition Session_Close ::
  "'s sftp_lib \<Rightarrow> 'c Session \<Rightarrow> (('s, 'm) sess_world_scheme, go_error option) state" where
  "Session_Close L s = do {
     slot \<leftarrow> gets (slot_of s);
     if slot_closed slot then return None
     else do {
       _ \<leftarrow> set_slot s (\<lambda>sl. sl\<lparr>slot_closed := True\<rparr>);
       case slot_sftp slot of
         Some c \<Rightarrow> do {
           err \<leftarrow> Client_Close L c;
           _ \<leftarrow> set_slot s (\<lambda>sl. sl\<lparr>slot_sftp := None\<rparr>);
           return err
         }
       | None \<Rightarrow> return None
     }
   }"

section \<open>Library facts\<close>

lemma run_set_slot [simp]:
  "run_state (set_slot s f) w = ((), w\<lparr>sess_slots := (sess_slots w)(s_ref s := f (slot_of s w))\<rparr>)"
  by (simp add: set_slot_def)

lemma slot_of_update [simp]:
  "slot_of s (w\<lparr>sess_slots := (sess_slots w)(s_ref s := x)\<rparr>) = x"
  "slot_of s (w\<lparr>remote := a\<rparr>) = slot_of s w" "slot_of s (w\<lparr>wire := b\<rparr>) = slot_of s w"
  by (simp_all add: slot_of_def)

lemma emits_set_slot [emits_rules]: "emits wire P (set_slot s f)"
  unfolding set_slot_def by (intro emits_rules) simp

lemma emits_Session_SFTP [emits_rules]: "emits wire P (s_connect s) \<Longrightarrow> emits wire P (Session_SFTP s)"
  unfolding Session_SFTP_def by (intro emits_rules)

lemma emits_InvalidateSFTP [emits_rules]:
  "P CloseSFTP \<Longrightarrow> P CloseSSH \<Longrightarrow> emits wire P (InvalidateSFTP L s)"
  unfolding InvalidateSFTP_def by (intro emits_rules)

lemma emits_IsConnected [emits_rules]: "emits wire P (IsConnected s)"
  unfolding IsConnected_def by (intro emits_rules)

lemma emits_Session_Close [emits_rules]:
  "P CloseSFTP \<Longrightarrow> P CloseSSH \<Longrightarrow> emits wire P (Session_Close L s)"
  unfolding Session_Close_def by (intro emits_rules)

lemma keeps_Client_Close [keeps_rules]:
  "(\<And>w s ws. g (w\<lparr>remote := s, wire := ws\<rparr>) = g w) \<Longrightarrow> keeps g (Client_Close L c)"
  unfolding Client_Close_def by (intro keeps_rules)

section \<open>Connections are reused\<close>

text \<open>The connector leaves the session's own fields alone (the mutex is held while it runs).\<close>

definition connect_local :: "(('s, 'm) sess_world_scheme, Client result) state Session \<Rightarrow> bool" where
  "connect_local s \<longleftrightarrow> keeps (slot_of s) (s_connect s)"

text \<open>
  The connection of a session is dialled lazily and reused: once a call of \<open>SFTP\<close> has
  succeeded, further calls return the same client and change nothing, in particular they send
  nothing; a call that fails to dial leaves the session unconnected, so the next one dials again.
\<close>

theorem Session_SFTP_reuses:
  assumes "connect_local s" and "run_state (Session_SFTP s) w = (r, w')"
  shows "case r of Inr c \<Rightarrow> run_state (Session_SFTP s) w' = (Inr c, w') \<and> slot_sftp (slot_of s w') = Some c
    | Inl e \<Rightarrow> slot_of s w' = slot_of s w \<and> (slot_closed (slot_of s w) \<or> slot_sftp (slot_of s w) = None)"
proof -
  obtain x w1 where 1: "run_state (s_connect s) w = (x, w1)" by fastforce
  have k: "slot_of s w1 = slot_of s w" using assms(1) 1 by (auto simp: connect_local_def dest: keepsD)
  show ?thesis
    using assms(2) 1 k by (auto simp: Session_SFTP_def split: if_splits option.splits sum.splits)
qed

section \<open>No connection is leaked\<close>

datatype session_call = CallSFTP | CallInvalidate | CallSessionClose

fun session_run ::
  "'s sftp_lib \<Rightarrow> (('s, 'm) sess_world_scheme, Client result) state Session \<Rightarrow> session_call list \<Rightarrow> (('s, 'm) sess_world_scheme, unit) state" where
  "session_run L s [] = return ()"
| "session_run L s (CallSFTP # cs) = do { _ \<leftarrow> Session_SFTP s; session_run L s cs }"
| "session_run L s (CallInvalidate # cs) = do { _ \<leftarrow> InvalidateSFTP L s; session_run L s cs }"
| "session_run L s (CallSessionClose # cs) = do { _ \<leftarrow> Session_Close L s; session_run L s cs }"

text \<open>
  The connections the remote side holds open, \<open>live\<close>: a successful connect opens one and a
  failed one none (\<open>sftpclient.New\<close> closes the SSH client when it fails); closing the SSH
  client closes it, closing the SFTP channel does not by itself.
\<close>

definition connect_counts :: "('s \<Rightarrow> int) \<Rightarrow> (('s, 'm) sess_world_scheme, Client result) state Session \<Rightarrow> bool" where
  "connect_counts live s \<longleftrightarrow> (\<forall>w. case run_state (s_connect s) w of
     (Inl e, w') \<Rightarrow> live (remote w') = live (remote w)
   | (Inr c, w') \<Rightarrow> live (remote w') = live (remote w) + 1 \<and> ssh c \<noteq> None)"

definition close_counts :: "('s \<Rightarrow> int) \<Rightarrow> 's sftp_lib \<Rightarrow> bool" where
  "close_counts live L \<longleftrightarrow> (\<forall>h t. live (snd (lib_CloseSSH L h t)) = live t - 1
     \<and> live (snd (lib_CloseSFTP L h t)) = live t)"

text \<open>The connections the session holds: none, or one with an SSH client to close.\<close>

definition holding :: "'c Session \<Rightarrow> ('s, 'm) sess_world_scheme \<Rightarrow> int" where
  "holding s w = (if slot_sftp (slot_of s w) = None then 0 else 1)"

definition sess_ok :: "'c Session \<Rightarrow> ('s, 'm) sess_world_scheme \<Rightarrow> bool" where
  "sess_ok s w \<longleftrightarrow> (\<forall>c. slot_sftp (slot_of s w) = Some c \<longrightarrow> ssh c \<noteq> None)
     \<and> (slot_closed (slot_of s w) \<longrightarrow> slot_sftp (slot_of s w) = None)"

definition balanced :: "('s \<Rightarrow> int) \<Rightarrow> 'c Session \<Rightarrow> ('s, 'm) sess_world_scheme \<Rightarrow> ('s, 'm) sess_world_scheme \<Rightarrow> bool" where
  "balanced live s w w' \<longleftrightarrow> live (remote w') - holding s w' = live (remote w) - holding s w \<and> sess_ok s w'
     \<and> (slot_closed (slot_of s w) \<longrightarrow> slot_closed (slot_of s w'))"

lemma live_Client_Close:
  assumes "close_counts live L" and "ssh c \<noteq> None" and "run_state (Client_Close L c) w = (e, w')"
  shows "live (remote w') = live (remote w) - 1 \<and> slot_of s w' = slot_of s w"
  using assms by (auto simp: Client_Close_def close_counts_def run_send split: option.splits)

lemma balanced_SFTP:
  assumes "connect_local s" and "connect_counts live s" and "sess_ok s w" and "run_state (Session_SFTP s) w = (r, w')"
  shows "balanced live s w w'"
proof -
  obtain x w1 where 1: "run_state (s_connect s) w = (x, w1)" by fastforce
  have k: "slot_of s w1 = slot_of s w" using assms(1) 1 by (auto simp: connect_local_def dest: keepsD)
  have l: "case x of Inl e \<Rightarrow> live (remote w1) = live (remote w)
      | Inr c \<Rightarrow> live (remote w1) = live (remote w) + 1 \<and> ssh c \<noteq> None"
    using assms(2) 1 unfolding connect_counts_def by (auto dest: spec [of _ w])
  show ?thesis
    using assms(3,4) 1 k l
    by (auto simp: Session_SFTP_def balanced_def holding_def sess_ok_def split: if_splits option.splits sum.splits)
qed

lemma balanced_Invalidate:
  assumes "close_counts live L" and "sess_ok s w" and "run_state (InvalidateSFTP L s) w = (r, w')"
  shows "balanced live s w w'"
proof (cases "slot_sftp (slot_of s w)")
  case None
  with assms(2,3) show ?thesis by (auto simp: InvalidateSFTP_def balanced_def)
next
  case (Some c)
  obtain e w1 where 1: "run_state (Client_Close L c) w = (e, w1)" by fastforce
  have "ssh c \<noteq> None" using Some assms(2) by (auto simp: sess_ok_def)
  from live_Client_Close [OF assms(1) this 1, of s] Some assms(2,3) 1 show ?thesis
    by (auto simp: InvalidateSFTP_def balanced_def holding_def sess_ok_def)
qed

lemma balanced_Close:
  assumes "close_counts live L" and "sess_ok s w" and "run_state (Session_Close L s) w = (r, w')"
  shows "balanced live s w w' \<and> slot_closed (slot_of s w')"
proof (cases "slot_closed (slot_of s w)")
  case True
  with assms(2,3) show ?thesis by (auto simp: Session_Close_def balanced_def)
next
  case False
  let ?w = "w\<lparr>sess_slots := (sess_slots w)(s_ref s := (slot_of s w)\<lparr>slot_closed := True\<rparr>)\<rparr>"
  show ?thesis
  proof (cases "slot_sftp (slot_of s w)")
    case None
    with False assms(2,3) show ?thesis by (auto simp: Session_Close_def balanced_def holding_def sess_ok_def)
  next
    case (Some c)
    obtain e w1 where 1: "run_state (Client_Close L c) ?w = (e, w1)" by fastforce
    have "ssh c \<noteq> None" using Some assms(2) by (auto simp: sess_ok_def)
    from live_Client_Close [OF assms(1) this 1, of s] Some False assms(2,3) 1 show ?thesis
      by (auto simp: Session_Close_def balanced_def holding_def sess_ok_def)
  qed
qed

lemma balanced_trans: "balanced live s u v \<Longrightarrow> balanced live s v w \<Longrightarrow> balanced live s u w"
  by (auto simp: balanced_def)

lemma session_run_balanced:
  assumes "connect_local s" "connect_counts live s" "close_counts live L" and "sess_ok s w"
    and "run_state (session_run L s cs) w = (u, w')"
  shows "balanced live s w w' \<and> (CallSessionClose \<in> set cs \<longrightarrow> slot_closed (slot_of s w'))"
  using assms(4,5)
proof (induction cs arbitrary: w)
  case Nil
  then show ?case by (auto simp: balanced_def)
next
  case (Cons c cs)
  obtain w1 where 1: "run_state (session_run L s cs) w1 = (u, w')"
    and b: "balanced live s w w1" and cl: "c = CallSessionClose \<longrightarrow> slot_closed (slot_of s w1)"
  proof (cases c)
    case CallSFTP
    with Cons.prems that show thesis
      using balanced_SFTP [OF assms(1,2) Cons.prems(1)] by (auto split: prod.splits)
  next
    case CallInvalidate
    with Cons.prems that show thesis
      using balanced_Invalidate [OF assms(3) Cons.prems(1)] by (auto split: prod.splits)
  next
    case CallSessionClose
    with Cons.prems that show thesis
      using balanced_Close [OF assms(3) Cons.prems(1)] by (auto split: prod.splits)
  qed
  have "sess_ok s w1" using b by (simp add: balanced_def)
  from Cons.IH [OF this 1] b cl show ?case by (auto intro: balanced_trans simp: balanced_def)
qed


text \<open>A remote side that only counts its open connections, for evaluating the theorems.\<close>

definition counting_lib :: "int sftp_lib" where
  "counting_lib = \<lparr>lib_NewClient = (\<lambda>h n. (Inr 1, n)), lib_CloseSFTP = (\<lambda>h n. (None, n)),
     lib_CloseSSH = (\<lambda>h n. (None, n - 1)), lib_HasExtension = (\<lambda>h e n. False),
     lib_Stat = (\<lambda>h p n. (Inl tree_missing, n)), lib_Lstat = (\<lambda>h p n. (Inl tree_missing, n)),
     lib_ReadLink = (\<lambda>h p n. (Inl tree_missing, n)), lib_ReadDirContext = (\<lambda>h t p n. (Inr [], n)),
     lib_OpenFile = (\<lambda>h p f n. (Inl tree_missing, n)), lib_Remove = (\<lambda>h p n. (None, n)),
     lib_RemoveDirectory = (\<lambda>h p n. (None, n)), lib_Mkdir = (\<lambda>h p n. (None, n)),
     lib_Rename = (\<lambda>h p q n. (None, n)), lib_PosixRename = (\<lambda>h p q n. (None, n)),
     file_Write = (\<lambda>h b n. ((0, None), n)), file_Read = (\<lambda>h k n. (([], None), n)),
     file_Seek = (\<lambda>h i j n. ((0, None), n)), file_Close = (\<lambda>h n. (None, n))\<rparr>"

definition counting_session :: "(int sess_world, Client result) state Session" where
  "counting_session = \<lparr>s_ref = 0, s_id = ''00ff'', s_username = ''ax'', s_clientIP = ''10.0.0.9'', s_startedAt = 0,
     s_mapper = NewMapper ''/'' ''/data'', s_policy = zero_Policy, s_gate = ''ax'',
     s_connect = do {
       _ \<leftarrow> send OpenSFTP (\<lambda>n. ((), n + 1));
       return (Inr \<lparr>ssh = Some 0, sftp = Some 1, root = ''/data''\<rparr>) }\<rparr>"

definition counting_world :: "int sess_world" where
  "counting_world = \<lparr>remote = 0, wire = [], sess_slots = (\<lambda>_. \<lparr>slot_sftp = None, slot_closed = False\<rparr>), next_sess = 1\<rparr>"

lemma counting_facts:
  "connect_local counting_session" "connect_counts (\<lambda>n. n) counting_session" "close_counts (\<lambda>n. n) counting_lib"
  "slot_of counting_session counting_world = \<lparr>slot_sftp = None, slot_closed = False\<rparr>"
  by (simp_all add: connect_local_def connect_counts_def close_counts_def keeps_def state_io_rel_def run_send
      counting_session_def counting_lib_def counting_world_def slot_of_def)


theorem Session_SFTP_reuses_witness:
  "\<exists>c w'. run_state (Session_SFTP counting_session) counting_world = (Inr c, w') \<and> remote w' = 1
     \<and> run_state (Session_SFTP counting_session) w' = (Inr c, w')"
proof -
  obtain c w' where r: "run_state (Session_SFTP counting_session) counting_world = (Inr c, w')" "remote w' = 1"
    by (simp add: Session_SFTP_def counting_session_def counting_world_def slot_of_def run_send)
  from Session_SFTP_reuses [OF counting_facts(1) r(1)] r show ?thesis by simp
qed

end
