(* ===== verification/SshClient.thy ===== *)
theory SshClient
  imports RemoteLib
begin

text \<open>
  Package \<open>internal/sshclient\<close> (\<open>dial.go\<close>): establishing the SSH connection. The
  libraries (\<open>golang.org/x/crypto/ssh\<close>, \<open>knownhosts\<close>, the dialer, the local file
  system) are the record \<open>ssh_lib\<close>; parsed keys, host-key callbacks and connections are
  handles. Setting and clearing the deadline of the TCP connection has no result the code looks at
  and is part of the library's handshake.

  The theorems give the complete classification of the outcomes of \<open>Dial\<close>, with the requests
  each one sends: the handshake always runs with the callback of the configured known-hosts file,
  and a failed handshake closes the connection.
\<close>

record SSHConfig =
  ssh_Host :: string
  ssh_Port :: int
  ssh_Username :: string
  ssh_PrivateKeyFile :: string
  ssh_PrivateKeyPassphraseFile :: string
  ssh_Password :: string
  ssh_KnownHostsFile :: string
  ssh_ConnectTimeout :: duration

datatype AuthMethod = PublicKeys handle | PasswordAuth string

record 's ssh_lib =
  knownhosts_New :: "string \<Rightarrow> handle result"
  os_ReadFile :: "string \<Rightarrow> bytes result"
  ParsePrivateKey :: "bytes \<Rightarrow> handle result"
  ParsePrivateKeyWithPassphrase :: "bytes \<Rightarrow> bytes \<Rightarrow> handle result"
  lib_Dial :: "string \<Rightarrow> duration \<Rightarrow> 's \<Rightarrow> handle result \<times> 's"
  lib_NewClientConn :: "handle \<Rightarrow> string \<Rightarrow> string \<Rightarrow> AuthMethod list \<Rightarrow> handle \<Rightarrow> duration \<Rightarrow> 's \<Rightarrow> handle result \<times> 's"
  lib_CloseConn :: "handle \<Rightarrow> 's \<Rightarrow> go_error option \<times> 's"

text \<open>\<open>trimNewline\<close>: the loop that drops trailing newlines and carriage returns.\<close>

function trimNewline :: "bytes \<Rightarrow> bytes" where
  "trimNewline b =
     (if b \<noteq> [] \<and> (last b = 10 \<or> last b = 13) then trimNewline (butlast b) else b)"
  by pat_completeness auto
termination by (relation "measure length") auto

declare trimNewline.simps [simp del]

definition loadSigner :: "'s ssh_lib \<Rightarrow> string \<Rightarrow> string \<Rightarrow> handle result" where
  "loadSigner K keyFile passphraseFile =
     (case os_ReadFile K keyFile of
        Inl err \<Rightarrow> Inl (Wrap KindConfig ''sshclient.loadSigner'' ''no se pudo leer la llave privada SFTP'' err)
      | Inr keyBytes \<Rightarrow>
          if passphraseFile = []
          then (case ParsePrivateKey K keyBytes of
                  Inl err \<Rightarrow> Inl (Wrap KindConfig ''sshclient.loadSigner''
                               (''la llave privada SFTP no es v'' @ a_acute @ ''lida'') err)
                | Inr signer \<Rightarrow> Inr signer)
          else (case os_ReadFile K passphraseFile of
                  Inl err \<Rightarrow> Inl (Wrap KindConfig ''sshclient.loadSigner''
                               ''no se pudo leer la passphrase de la llave privada SFTP'' err)
                | Inr passphrase \<Rightarrow>
                    (case ParsePrivateKeyWithPassphrase K keyBytes (trimNewline passphrase) of
                       Inl err \<Rightarrow> Inl (Wrap KindConfig ''sshclient.loadSigner''
                         (''la llave privada SFTP no es v'' @ a_acute @ ''lida o la passphrase es incorrecta'') err)
                     | Inr signer \<Rightarrow> Inr signer)))"

definition buildAuthMethods :: "'s ssh_lib \<Rightarrow> SSHConfig \<Rightarrow> AuthMethod list result" where
  "buildAuthMethods K cfg =
     (if ssh_PrivateKeyFile cfg \<noteq> []
      then (case loadSigner K (ssh_PrivateKeyFile cfg) (ssh_PrivateKeyPassphraseFile cfg) of
              Inl err \<Rightarrow> Inl err
            | Inr signer \<Rightarrow> Inr [PublicKeys signer])
      else if ssh_Password cfg \<noteq> [] then Inr [PasswordAuth (ssh_Password cfg)]
      else Inl (New KindConfig ''sshclient.buildAuthMethods''
             (''no se configur'' @ o_acute @ '' ning'' @ u_acute @ ''n mecanismo de autenticaci'' @ o_acute @ ''n SFTP'')))"

text \<open>\<open>net.JoinHostPort\<close> with \<open>strconv.Itoa\<close>.\<close>

definition JoinHostPort :: "string \<Rightarrow> string \<Rightarrow> string" where
  "JoinHostPort host port =
     (if CHR '':'' \<in> set host then ''['' @ host @ '']:'' @ port else host @ '':'' @ port)"

definition dial_timeout :: "SSHConfig \<Rightarrow> duration" where
  "dial_timeout cfg = (if ssh_ConnectTimeout cfg \<le> 0 then 10 * 1000000000 else ssh_ConnectTimeout cfg)"

definition Dial :: "'s ssh_lib \<Rightarrow> SSHConfig \<Rightarrow> (('s, 'm) world_scheme, handle result) state" where
  "Dial K cfg =
     (case knownhosts_New K (ssh_KnownHostsFile cfg) of
        Inl err \<Rightarrow> return (Inl (Wrap KindConfig ''sshclient.Dial'' ''no se pudo cargar el archivo known_hosts'' err))
      | Inr hostKeyCallback \<Rightarrow>
        (case buildAuthMethods K cfg of
           Inl err \<Rightarrow> return (Inl err)
         | Inr authMethods \<Rightarrow> do {
             let timeout = dial_timeout cfg;
             let addr = JoinHostPort (ssh_Host cfg) (fmt_d (ssh_Port cfg));
             conn \<leftarrow> send (DialTCP addr timeout) (lib_Dial K addr timeout);
             case conn of
               Inl err \<Rightarrow> return (Inl (Wrap KindSSHConnection ''sshclient.Dial''
                            ''no se pudo conectar al servidor SFTP remoto'' err))
             | Inr conn \<Rightarrow> do {
                 sshConn \<leftarrow> send (Handshake addr (ssh_Username cfg) hostKeyCallback timeout)
                   (lib_NewClientConn K conn addr (ssh_Username cfg) authMethods hostKeyCallback timeout);
                 case sshConn of
                   Inl err \<Rightarrow> do {
                     _ \<leftarrow> send CloseConn (lib_CloseConn K conn);
                     if std_Is err KnownHostsKeyError
                     then return (Inl (Wrap KindHostKeyMismatch ''sshclient.Dial''
                       ''la identidad del servidor SFTP remoto no coincide con known_hosts'' err))
                     else return (Inl (Wrap KindSFTPAuthentication ''sshclient.Dial''
                       (''fall'' @ o_acute @ '' la autenticaci'' @ o_acute @ ''n o el handshake SSH con el servidor remoto'') err))
                   }
                 | Inr c \<Rightarrow> return (Inr c)
               }
           }))"

lemma emits_Dial [emits_rules]:
  "(\<And>a t. P (DialTCP a t)) \<Longrightarrow> (\<And>a u h t. P (Handshake a u h t)) \<Longrightarrow> P CloseConn \<Longrightarrow> emits wire P (Dial K cfg)"
  unfolding Dial_def Let_def by (intro emits_rules)

lemma keeps_Dial [keeps_rules]:
  "(\<And>w s ws. g (w\<lparr>remote := s, wire := ws\<rparr>) = g w) \<Longrightarrow> keeps g (Dial K cfg)"
  unfolding Dial_def Let_def by (intro keeps_rules)

section \<open>Outcomes\<close>

lemma trimNewline_append: "\<exists>r. b = trimNewline b @ r \<and> set r \<subseteq> {10, 13}"
proof (induction b rule: trimNewline.induct)
  case (1 b)
  show ?case
  proof (cases "b \<noteq> [] \<and> (last b = 10 \<or> last b = 13)")
    case True
    with 1 obtain r where r: "butlast b = trimNewline (butlast b) @ r" "set r \<subseteq> {10, 13}" by blast
    then have "b = trimNewline (butlast b) @ r @ [last b]"
      using True by (metis append.assoc append_butlast_last_id)
    moreover have "set (r @ [last b]) \<subseteq> {10, 13}" using r(2) True by auto
    moreover have "trimNewline b = trimNewline (butlast b)" using True by (subst trimNewline.simps) simp
    ultimately show ?thesis by metis
  next
    case False
    then show ?thesis by (subst trimNewline.simps) auto
  qed
qed

lemma trimNewline_last: "trimNewline b \<noteq> [] \<Longrightarrow> last (trimNewline b) \<notin> {10, 13}"
proof (induction b rule: trimNewline.induct)
  case (1 b)
  then show ?case by (subst (asm) (2) trimNewline.simps, subst trimNewline.simps) (auto split: if_splits)
qed

text \<open>
  The passphrase read from a file loses exactly its trailing line ends: what is removed is
  carriage returns and newlines only, nothing else at the end is left to remove, and bytes before
  are untouched.
\<close>

theorem trimNewline_exact:
  "(\<exists>r. b = trimNewline b @ r \<and> set r \<subseteq> {10, 13})
   \<and> (trimNewline b = [] \<or> last (trimNewline b) \<notin> {10, 13})"
  using trimNewline_append trimNewline_last by blast

text \<open>
  (C35) The outcomes of \<open>Dial\<close>. A connection is returned only after a handshake that ran with
  the callback of the configured known-hosts file, and nothing else is sent. Otherwise the error is
  a domain error that says what failed: configuration, before any network traffic; the TCP
  connection; the server's identity; or the authentication. After a failed handshake the TCP
  connection is closed.
\<close>

theorem Dial_outcomes:
  assumes "run_state (Dial K cfg) w = (r, w')"
  shows "case r of
      Inr h \<Rightarrow> \<exists>cb. knownhosts_New K (ssh_KnownHostsFile cfg) = Inr cb
        \<and> wire w' = wire w @ [DialTCP (JoinHostPort (ssh_Host cfg) (fmt_d (ssh_Port cfg))) (dial_timeout cfg),
            Handshake (JoinHostPort (ssh_Host cfg) (fmt_d (ssh_Port cfg))) (ssh_Username cfg) cb (dial_timeout cfg)]
    | Inl e \<Rightarrow> (KindOf e = KindConfig \<and> w' = w)
        \<or> (KindOf e = KindSSHConnection
            \<and> wire w' = wire w @ [DialTCP (JoinHostPort (ssh_Host cfg) (fmt_d (ssh_Port cfg))) (dial_timeout cfg)])
        \<or> (KindOf e \<in> {KindHostKeyMismatch, KindSFTPAuthentication}
            \<and> (KindOf e = KindHostKeyMismatch \<longleftrightarrow> std_Is e KnownHostsKeyError)
            \<and> (\<exists>q. wire w' = wire w @ q @ [CloseConn]))"
proof (cases "knownhosts_New K (ssh_KnownHostsFile cfg)")
  case (Inl e)
  with assms show ?thesis by (auto simp: Dial_def Wrap_def KindOf_def)
next
  case cb: (Inr cb)
  show ?thesis
  proof (cases "buildAuthMethods K cfg")
    case (Inl e)
    then have "KindOf e = KindConfig"
      by (auto simp: buildAuthMethods_def loadSigner_def Wrap_def New_def KindOf_def split: if_splits sum.splits)
    with cb Inl assms show ?thesis by (auto simp: Dial_def)
  next
    case (Inr am)
    with cb assms show ?thesis
      by (auto simp: Dial_def run_send Let_def Wrap_def KindOf_def split: sum.splits if_splits)
  qed
qed

definition refusing_lib :: "unit ssh_lib" where
  "refusing_lib = \<lparr>knownhosts_New = (\<lambda>p. Inr 7), os_ReadFile = (\<lambda>p. Inr []), ParsePrivateKey = (\<lambda>b. Inr 1),
     ParsePrivateKeyWithPassphrase = (\<lambda>b p. Inr 1), lib_Dial = (\<lambda>a t s. (Inr 3, s)),
     lib_NewClientConn = (\<lambda>c a u am cb t s. (Inl (ForeignError ''key mismatch'' [KnownHostsKeyError] None), s)),
     lib_CloseConn = (\<lambda>c s. (None, s))\<rparr>"

definition sample_ssh :: SSHConfig where
  "sample_ssh = \<lparr>ssh_Host = ''h'', ssh_Port = 22, ssh_Username = ''u'', ssh_PrivateKeyFile = [],
     ssh_PrivateKeyPassphraseFile = [], ssh_Password = ''p'', ssh_KnownHostsFile = ''k'', ssh_ConnectTimeout = 0\<rparr>"

theorem Dial_outcomes_witness:
  "\<exists>e q. fst (run_state (Dial refusing_lib sample_ssh) \<lparr>remote = (), wire = []\<rparr>) = Inl e
     \<and> KindOf e = KindHostKeyMismatch
     \<and> wire (snd (run_state (Dial refusing_lib sample_ssh) \<lparr>remote = (), wire = []\<rparr>)) = q @ [CloseConn]"
proof -
  let ?r = "run_state (Dial refusing_lib sample_ssh) \<lparr>remote = (), wire = []\<rparr>"
  obtain e where e: "fst ?r = Inl e" and k: "KindOf e = KindHostKeyMismatch"
    by (auto simp: Dial_def refusing_lib_def sample_ssh_def buildAuthMethods_def run_send Let_def Wrap_def KindOf_def)
  have "run_state (Dial refusing_lib sample_ssh) \<lparr>remote = (), wire = []\<rparr> = (Inl e, snd ?r)"
    using e by (metis prod.collapse)
  from Dial_outcomes [OF this] k e show ?thesis by auto
qed

end
