(* ===== verification/Config.thy ===== *)
theory Config
  imports Filesystem Authorization
begin

text \<open>
  Package \<open>internal/config\<close>: the configuration schema (\<open>types.go\<close>), the defaults and
  the loading sequence (\<open>load.go\<close>) and the validation (\<open>validate.go\<close>). The YAML
  decoder, the file system and bcrypt are libraries: \<open>Load\<close> and \<open>Validate\<close> take the
  functions they call as arguments (a record \<open>config_env\<close>). Durations are nanoseconds. A
  validation error is the list of its problem lines, spelled as in the code.

  The theorems state what a configuration that passes \<open>Validate\<close> guarantees the rest of
  the gateway, and that the defaults leave every security-relevant field alone. Of the temporary
  suffix nothing but that it is not empty is guaranteed (\<open>Validate_any_suffix\<close>).
\<close>

section \<open>types.go\<close>

record ServerConfig =
  srv_ListenAddress :: string
  srv_ControlPort :: int
  srv_PassiveAddress :: string
  srv_PassivePortStart :: int
  srv_PassivePortEnd :: int
  srv_MaxConnections :: int
  srv_IdleTimeout :: duration
  srv_DataConnectionTimeout :: duration
  srv_ShutdownTimeout :: duration

record PermissionsConfig =
  pc_AllowUpload :: bool
  pc_AllowDownload :: bool
  pc_AllowDelete :: bool
  pc_AllowMkdir :: bool
  pc_AllowRename :: bool
  pc_AllowOverwrite :: bool

record SFTPTargetConfig =
  st_Host :: string
  st_Port :: int
  st_Username :: string
  st_PrivateKeyFile :: string
  st_PrivateKeyPassphraseFile :: string
  st_Password :: string
  st_KnownHostsFile :: string
  st_RootPath :: string
  st_ConnectTimeout :: duration
  st_ReadDirTimeout :: duration

record UserConfig =
  uc_Username :: string
  uc_PasswordHash :: string
  uc_VirtualRoot :: string
  uc_SFTP :: SFTPTargetConfig
  uc_Permissions :: PermissionsConfig
  uc_MaxFileSize :: int
  uc_MaxConcurrentTransfers :: int

record TransferConfig =
  tc_BufferSize :: int
  tc_TemporarySuffix :: string
  tc_CalculateSHA256 :: bool

record ObservabilityConfig =
  oc_LogLevel :: string
  oc_LogFormat :: string

record HealthConfig =
  hc_ListenAddress :: string
  hc_ReadinessRequiresSFTP :: bool

record Config =
  cfg_Server :: ServerConfig
  cfg_Users :: "UserConfig list"
  cfg_Transfer :: TransferConfig
  cfg_Observability :: ObservabilityConfig
  cfg_Health :: HealthConfig

abbreviation Second :: duration where "Second \<equiv> 1000000000"

section \<open>load.go\<close>

text \<open>\<open>if x == zero { x = dflt }\<close>\<close>

definition default_to :: "'a \<Rightarrow> 'a \<Rightarrow> 'a \<Rightarrow> 'a" where
  "default_to zero dflt x = (if x = zero then dflt else x)"

definition default_server :: "ServerConfig \<Rightarrow> ServerConfig" where
  "default_server s = s\<lparr>
     srv_IdleTimeout := default_to 0 (300 * Second) (srv_IdleTimeout s),
     srv_DataConnectionTimeout := default_to 0 (30 * Second) (srv_DataConnectionTimeout s),
     srv_ShutdownTimeout := default_to 0 (15 * Second) (srv_ShutdownTimeout s)\<rparr>"

definition default_user :: "UserConfig \<Rightarrow> UserConfig" where
  "default_user u = u\<lparr>
     uc_VirtualRoot := default_to [] ''/'' (uc_VirtualRoot u),
     uc_SFTP := (uc_SFTP u)\<lparr>
       st_Port := default_to 0 22 (st_Port (uc_SFTP u)),
       st_ConnectTimeout := default_to 0 (10 * Second) (st_ConnectTimeout (uc_SFTP u)),
       st_ReadDirTimeout := default_to 0 (60 * Second) (st_ReadDirTimeout (uc_SFTP u))\<rparr>,
     uc_MaxConcurrentTransfers := default_to 0 4 (uc_MaxConcurrentTransfers u)\<rparr>"

definition applyDefaults :: "Config \<Rightarrow> Config" where
  "applyDefaults cfg = cfg\<lparr>
     cfg_Server := default_server (cfg_Server cfg),
     cfg_Transfer := (cfg_Transfer cfg)\<lparr>
       tc_BufferSize := default_to 0 (64 * 1024) (tc_BufferSize (cfg_Transfer cfg)),
       tc_TemporarySuffix := default_to [] ''.part'' (tc_TemporarySuffix (cfg_Transfer cfg))\<rparr>,
     cfg_Observability := (cfg_Observability cfg)\<lparr>
       oc_LogLevel := default_to [] ''info'' (oc_LogLevel (cfg_Observability cfg)),
       oc_LogFormat := default_to [] ''json'' (oc_LogFormat (cfg_Observability cfg))\<rparr>,
     cfg_Health := (cfg_Health cfg)\<lparr>
       hc_ListenAddress := default_to [] '':8080'' (hc_ListenAddress (cfg_Health cfg))\<rparr>,
     cfg_Users := map default_user (cfg_Users cfg)\<rparr>"

section \<open>validate.go\<close>

text \<open>
  What validation and loading ask of libraries: \<open>os.ReadFile\<close>, \<open>yaml.Unmarshal\<close>,
  \<open>os.Stat\<close> (whether the path is a directory, or the error), whether
  \<open>bcrypt.Cost\<close> accepts the hash, and the \<open>%q\<close> verb.
\<close>

record config_env =
  env_ReadFile :: "string \<Rightarrow> string result"
  env_Unmarshal :: "string \<Rightarrow> Config result"
  env_StatIsDir :: "string \<Rightarrow> bool result"
  env_bcrypt_Cost_ok :: "string \<Rightarrow> bool"
  env_quote :: "string \<Rightarrow> string"

text \<open>\<open>if c { problems = append(problems, msg) }\<close>\<close>

abbreviation (input) problem_if :: "bool \<Rightarrow> string \<Rightarrow> string list" where
  "problem_if c msg \<equiv> (if c then [msg] else [])"

definition validateServer :: "ServerConfig \<Rightarrow> string list" where
  "validateServer s =
     problem_if (srv_ListenAddress s = []) ''server.listenAddress: es obligatorio''
     @ problem_if (srv_ControlPort s < 1 \<or> srv_ControlPort s > 65535)
         ''server.controlPort: debe estar entre 1 y 65535''
     @ problem_if (srv_PassiveAddress s = [])
         (''server.passiveAddress: es obligatorio (direcci'' @ o_acute @ ''n anunciada en PASV/EPSV)'')
     @ problem_if (srv_PassivePortStart s < 1 \<or> srv_PassivePortStart s > 65535)
         ''server.passivePortStart: debe estar entre 1 y 65535''
     @ problem_if (srv_PassivePortEnd s < 1 \<or> srv_PassivePortEnd s > 65535)
         ''server.passivePortEnd: debe estar entre 1 y 65535''
     @ (if srv_PassivePortStart s > 0 \<and> srv_PassivePortEnd s > 0
        then (if srv_PassivePortEnd s \<le> srv_PassivePortStart s
              then [''server.passivePortEnd: debe ser mayor que passivePortStart'']
              else (let rangeSize = srv_PassivePortEnd s - srv_PassivePortStart s + 1
                    in problem_if (rangeSize < srv_MaxConnections s)
                      (''server: el rango pasivo ('' @ fmt_d rangeSize @ '' puertos) es menor que maxConnections (''
                        @ fmt_d (srv_MaxConnections s) @ ''); ''
                        @ ''transferencias concurrentes fallar'' @ i_acute @ ''an por falta de puertos libres'')))
        else [])
     @ problem_if (srv_MaxConnections s < 1) ''server.maxConnections: debe ser mayor que 0''"

definition validateTransfer :: "TransferConfig \<Rightarrow> string list" where
  "validateTransfer t =
     problem_if (tc_BufferSize t < 4096) ''transfer.bufferSize: debe ser de al menos 4096 bytes''
     @ problem_if (tc_TemporarySuffix t = []) (''transfer.temporarySuffix: no puede estar vac'' @ i_acute @ ''o'')"

definition validateObservability :: "(string \<Rightarrow> string) \<Rightarrow> ObservabilityConfig \<Rightarrow> string list" where
  "validateObservability quote ob =
     problem_if (oc_LogFormat ob \<notin> {''json'', ''text''})
       (''observability.logFormat: valor no soportado '' @ quote (oc_LogFormat ob) @ '' (use json o text)'')
     @ problem_if (oc_LogLevel ob \<notin> {''debug'', ''info'', ''warn'', ''error''})
       (''observability.logLevel: valor no soportado '' @ quote (oc_LogLevel ob) @ '' (use debug, info, warn o error)'')"

definition validateSFTPTarget :: "config_env \<Rightarrow> string \<Rightarrow> SFTPTargetConfig \<Rightarrow> string list" where
  "validateSFTPTarget env pfx s =
     problem_if (st_Host s = []) (pfx @ '': sftp.host es obligatorio'')
     @ problem_if (st_Port s < 1 \<or> st_Port s > 65535) (pfx @ '': sftp.port debe estar entre 1 y 65535'')
     @ problem_if (st_Username s = []) (pfx @ '': sftp.username es obligatorio'')
     @ problem_if (\<not> HasPrefix (st_RootPath s) ''/'') (pfx @ '': sftp.rootPath debe ser una ruta absoluta'')
     @ (if st_KnownHostsFile s = []
        then [pfx @ '': sftp.knownHostsFile es obligatorio; '' @ ''est'' @ a_acute
                @ '' prohibido aceptar cualquier host key'']
        else case env_StatIsDir env (st_KnownHostsFile s) of
            Inl err \<Rightarrow> [pfx @ '': sftp.knownHostsFile no accesible: '' @ Error err]
          | Inr isDir \<Rightarrow> problem_if isDir (pfx @ '': sftp.knownHostsFile apunta a un directorio''))
     @ (let hasKey = (st_PrivateKeyFile s \<noteq> []);
            hasPassword = (st_Password s \<noteq> [])
        in if \<not> hasKey \<and> \<not> hasPassword
           then [pfx @ '': debe configurarse sftp.privateKeyFile o sftp.password'']
           else if hasKey \<and> hasPassword
           then [pfx @ '': configure sftp.privateKeyFile o sftp.password, no ambos'']
           else if hasKey
           then (case env_StatIsDir env (st_PrivateKeyFile s) of
                   Inl err \<Rightarrow> [pfx @ '': sftp.privateKeyFile no accesible: '' @ Error err]
                 | Inr isDir \<Rightarrow> problem_if isDir (pfx @ '': sftp.privateKeyFile apunta a un directorio''))
           else [])"

definition validateUser :: "config_env \<Rightarrow> nat \<Rightarrow> UserConfig \<Rightarrow> string list" where
  "validateUser env i u =
     (let pfx = ''users['' @ fmt_d (int i) @ ''] ('' @ uc_Username u @ '')''
      in problem_if (uc_Username u = []) (''users['' @ fmt_d (int i) @ '']: username es obligatorio'')
         @ (if uc_PasswordHash u = [] then [pfx @ '': passwordHash es obligatorio'']
            else problem_if (\<not> env_bcrypt_Cost_ok env (uc_PasswordHash u))
              (pfx @ '': passwordHash no es un hash bcrypt v'' @ a_acute @ ''lido''))
         @ problem_if (\<not> HasPrefix (uc_VirtualRoot u) ''/'') (pfx @ '': virtualRoot debe ser una ruta absoluta'')
         @ problem_if (Contains (uc_VirtualRoot u) ''..'') (pfx @ '': virtualRoot no puede contener '' @ [CHR 0x27] @ ''..'' @ [CHR 0x27])
         @ problem_if (uc_MaxFileSize u \<le> 0) (pfx @ '': maxFileSize debe ser mayor que 0'')
         @ problem_if (uc_MaxConcurrentTransfers u \<le> 0) (pfx @ '': maxConcurrentTransfers debe ser mayor que 0'')
         @ validateSFTPTarget env pfx (uc_SFTP u))"

text \<open>The loop over the users, with the set \<open>seen\<close> of names and the index.\<close>

fun validateUsers :: "config_env \<Rightarrow> string list \<Rightarrow> nat \<Rightarrow> UserConfig list \<Rightarrow> string list" where
  "validateUsers env seen i [] = []"
| "validateUsers env seen i (u # us) =
     problem_if (uc_Username u \<in> set seen)
       (''users['' @ fmt_d (int i) @ '']: usuario duplicado '' @ env_quote env (uc_Username u))
     @ validateUser env i u @ validateUsers env (uc_Username u # seen) (Suc i) us"

definition problems :: "config_env \<Rightarrow> Config \<Rightarrow> string list" where
  "problems env cfg =
     validateServer (cfg_Server cfg) @ validateTransfer (cfg_Transfer cfg)
     @ validateObservability (env_quote env) (cfg_Observability cfg)
     @ problem_if (cfg_Users cfg = []) ''users: debe existir al menos un usuario FTP''
     @ validateUsers env [] 0 (cfg_Users cfg)"

text \<open>\<open>strings.Join\<close>.\<close>

fun strings_Join :: "string list \<Rightarrow> string \<Rightarrow> string" where
  "strings_Join [] sep = []"
| "strings_Join [x] sep = x"
| "strings_Join (x # xs) sep = x @ sep @ strings_Join xs sep"

abbreviation newline :: char where "newline \<equiv> CHR 0x0A"

definition Validate :: "config_env \<Rightarrow> Config \<Rightarrow> go_error option" where
  "Validate env cfg =
     (if problems env cfg \<noteq> []
      then Some (ForeignError (''configuraci'' @ o_acute @ ''n inv'' @ a_acute @ ''lida:'' @ [newline] @ ''  - ''
             @ strings_Join (problems env cfg) ([newline] @ ''  - '')) [] None)
      else None)"

definition Load :: "config_env \<Rightarrow> string \<Rightarrow> Config result" where
  "Load env path =
     (case env_ReadFile env path of
        Inl err \<Rightarrow> Inl (WrappedError (''leyendo archivo de configuraci'' @ o_acute @ ''n '' @ env_quote env path
                     @ '': '' @ Error err) err)
      | Inr raw \<Rightarrow>
          (case env_Unmarshal env raw of
             Inl err \<Rightarrow> Inl (WrappedError (''parseando configuraci'' @ o_acute @ ''n '' @ env_quote env path
                          @ '': '' @ Error err) err)
           | Inr cfg \<Rightarrow>
               let cfg = applyDefaults cfg
               in case Validate env cfg of Some err \<Rightarrow> Inl err | None \<Rightarrow> Inr cfg))"

section \<open>What a valid configuration guarantees\<close>

definition valid_server :: "ServerConfig \<Rightarrow> bool" where
  "valid_server s \<longleftrightarrow> srv_ListenAddress s \<noteq> [] \<and> srv_PassiveAddress s \<noteq> []
     \<and> srv_ControlPort s \<in> {1..65535} \<and> srv_PassivePortStart s \<in> {1..65535}
     \<and> srv_PassivePortEnd s \<in> {1..65535} \<and> srv_PassivePortStart s < srv_PassivePortEnd s
     \<and> 1 \<le> srv_MaxConnections s
     \<and> srv_MaxConnections s \<le> srv_PassivePortEnd s - srv_PassivePortStart s + 1"

definition valid_target :: "config_env \<Rightarrow> SFTPTargetConfig \<Rightarrow> bool" where
  "valid_target env s \<longleftrightarrow> st_Host s \<noteq> [] \<and> st_Port s \<in> {1..65535} \<and> st_Username s \<noteq> []
     \<and> path_IsAbs (st_RootPath s)
     \<and> st_KnownHostsFile s \<noteq> [] \<and> env_StatIsDir env (st_KnownHostsFile s) = Inr False
     \<and> ((st_PrivateKeyFile s = []) \<noteq> (st_Password s = []))
     \<and> (st_PrivateKeyFile s \<noteq> [] \<longrightarrow> env_StatIsDir env (st_PrivateKeyFile s) = Inr False)"

definition valid_user :: "config_env \<Rightarrow> UserConfig \<Rightarrow> bool" where
  "valid_user env u \<longleftrightarrow> uc_Username u \<noteq> [] \<and> uc_PasswordHash u \<noteq> []
     \<and> env_bcrypt_Cost_ok env (uc_PasswordHash u)
     \<and> path_IsAbs (uc_VirtualRoot u) \<and> \<not> Contains (uc_VirtualRoot u) ''..''
     \<and> 0 < uc_MaxFileSize u \<and> 0 < uc_MaxConcurrentTransfers u \<and> valid_target env (uc_SFTP u)"

definition valid_config :: "config_env \<Rightarrow> Config \<Rightarrow> bool" where
  "valid_config env cfg \<longleftrightarrow> valid_server (cfg_Server cfg)
     \<and> 4096 \<le> tc_BufferSize (cfg_Transfer cfg) \<and> tc_TemporarySuffix (cfg_Transfer cfg) \<noteq> []
     \<and> oc_LogFormat (cfg_Observability cfg) \<in> {''json'', ''text''}
     \<and> oc_LogLevel (cfg_Observability cfg) \<in> {''debug'', ''info'', ''warn'', ''error''}
     \<and> cfg_Users cfg \<noteq> [] \<and> distinct (map uc_Username (cfg_Users cfg))
     \<and> list_all (valid_user env) (cfg_Users cfg)"

lemma HasPrefix_slash: "HasPrefix p ''/'' \<longleftrightarrow> path_IsAbs p"
  by (cases p) (auto simp: HasPrefix_def path_IsAbs_def)

lemma validateServer_iff: "validateServer s = [] \<longleftrightarrow> valid_server s"
  by (auto simp: validateServer_def valid_server_def Let_def split: if_splits)

lemma validateSFTPTarget_iff: "validateSFTPTarget env pre s = [] \<longleftrightarrow> valid_target env s"
  by (auto simp: validateSFTPTarget_def valid_target_def HasPrefix_slash Let_def split: if_splits sum.splits)

lemma validateUser_iff: "validateUser env i u = [] \<longleftrightarrow> valid_user env u"
  by (auto simp: validateUser_def valid_user_def HasPrefix_slash validateSFTPTarget_iff Let_def split: if_splits)

lemma validateUsers_iff:
  "validateUsers env seen i us = [] \<longleftrightarrow>
     list_all (valid_user env) us \<and> distinct (map uc_Username us) \<and> set seen \<inter> uc_Username ` set us = {}"
  by (induction us arbitrary: seen i) (auto simp: validateUser_iff)

lemma Validate_None_iff: "Validate env cfg = None \<longleftrightarrow> valid_config env cfg"
  by (auto simp: Validate_def problems_def valid_config_def validateServer_iff validateUsers_iff
      validateTransfer_def validateObservability_def split: if_splits)

lemma Validate_any_suffix:
  assumes "Validate env cfg = None" and "suff \<noteq> []"
  shows "Validate env (cfg\<lparr>cfg_Transfer := (cfg_Transfer cfg)\<lparr>tc_TemporarySuffix := suff\<rparr>\<rparr>) = None"
  using assms by (simp add: Validate_None_iff valid_config_def)


section \<open>Defaults\<close>

text \<open>The fields that decide exposure, authentication, confinement and permissions.\<close>

definition security_fields where
  "security_fields cfg =
     ((srv_ListenAddress (cfg_Server cfg), srv_ControlPort (cfg_Server cfg), srv_PassiveAddress (cfg_Server cfg),
       srv_PassivePortStart (cfg_Server cfg), srv_PassivePortEnd (cfg_Server cfg), srv_MaxConnections (cfg_Server cfg)),
      map (\<lambda>u. (uc_Username u, uc_PasswordHash u, uc_Permissions u, uc_MaxFileSize u,
        st_Host (uc_SFTP u), st_Username (uc_SFTP u), st_PrivateKeyFile (uc_SFTP u),
        st_PrivateKeyPassphraseFile (uc_SFTP u), st_Password (uc_SFTP u),
        st_KnownHostsFile (uc_SFTP u), st_RootPath (uc_SFTP u))) (cfg_Users cfg))"

lemma default_to_idem [simp]: "default_to z d (default_to z d x) = default_to z d x"
  by (simp add: default_to_def)

lemma default_user_idem: "default_user (default_user u) = default_user u"
  by (simp add: default_user_def)

text \<open>
  The defaults fill in only operational fields: applying them leaves every field that decides
  exposure, authentication, confinement or permissions unchanged, and applying them twice is the
  same as applying them once.
\<close>

theorem applyDefaults_operational_only:
  "security_fields (applyDefaults cfg) = security_fields cfg
   \<and> applyDefaults (applyDefaults cfg) = applyDefaults cfg"
  by (simp add: security_fields_def applyDefaults_def default_server_def default_user_def comp_def)

text \<open>
  (C33) Nothing starts on an unchecked configuration: whatever \<open>Load\<close> returns is a parsed
  file with the defaults applied that passed validation; its user names identify its users, every
  user's concurrency gate can be created and admits at least one transfer, and its mapper confines
  to cleaned absolute roots.
\<close>

theorem Load_guarantees:
  assumes "Load env path = Inr cfg"
  shows "(\<exists>raw c. env_ReadFile env path = Inr raw \<and> env_Unmarshal env raw = Inr c \<and> cfg = applyDefaults c)
    \<and> valid_config env cfg \<and> distinct (map uc_Username (cfg_Users cfg))
    \<and> (\<forall>u \<in> set (cfg_Users cfg). 0 < uc_MaxFileSize u
         \<and> (\<exists>g. NewConcurrencyGate (uc_MaxConcurrentTransfers u) = Some g \<and> 0 < capacity g)
         \<and> wf_mapper (NewMapper (uc_VirtualRoot u) (st_RootPath (uc_SFTP u))))"
proof -
  obtain raw c where c: "env_ReadFile env path = Inr raw" "env_Unmarshal env raw = Inr c" "cfg = applyDefaults c"
    and "Validate env cfg = None"
    using assms by (auto simp: Load_def Let_def split: sum.splits option.splits)
  then have v: "valid_config env cfg" by (simp add: Validate_None_iff)
  then have "\<forall>u \<in> set (cfg_Users cfg). valid_user env u" by (simp add: valid_config_def list_all_iff)
  with v c show ?thesis by (auto simp: valid_config_def valid_user_def NewConcurrencyGate_def)
qed

text \<open>A configuration with one user, as an operator would write it.\<close>

definition sample_user :: UserConfig where
  "sample_user = \<lparr>uc_Username = ''ax'', uc_PasswordHash = ''$2a$hash'', uc_VirtualRoot = [],
     uc_SFTP = \<lparr>st_Host = ''sftp.local'', st_Port = 0, st_Username = ''gw'', st_PrivateKeyFile = ''/k/id'',
       st_PrivateKeyPassphraseFile = [], st_Password = [], st_KnownHostsFile = ''/k/hosts'',
       st_RootPath = ''/data'', st_ConnectTimeout = 0, st_ReadDirTimeout = 0\<rparr>,
     uc_Permissions = \<lparr>pc_AllowUpload = True, pc_AllowDownload = True, pc_AllowDelete = True,
       pc_AllowMkdir = True, pc_AllowRename = True, pc_AllowOverwrite = False\<rparr>,
     uc_MaxFileSize = 1000, uc_MaxConcurrentTransfers = 0\<rparr>"

definition sample_config :: Config where
  "sample_config = \<lparr>cfg_Server = \<lparr>srv_ListenAddress = ''0.0.0.0'', srv_ControlPort = 21,
       srv_PassiveAddress = ''10.0.0.1'', srv_PassivePortStart = 30000, srv_PassivePortEnd = 30009,
       srv_MaxConnections = 10, srv_IdleTimeout = 0, srv_DataConnectionTimeout = 0, srv_ShutdownTimeout = 0\<rparr>,
     cfg_Users = [sample_user],
     cfg_Transfer = \<lparr>tc_BufferSize = 0, tc_TemporarySuffix = [], tc_CalculateSHA256 = True\<rparr>,
     cfg_Observability = \<lparr>oc_LogLevel = [], oc_LogFormat = []\<rparr>,
     cfg_Health = \<lparr>hc_ListenAddress = [], hc_ReadinessRequiresSFTP = False\<rparr>\<rparr>"

definition sample_env :: config_env where
  "sample_env = \<lparr>env_ReadFile = (\<lambda>p. Inr []), env_Unmarshal = (\<lambda>s. Inr sample_config),
     env_StatIsDir = (\<lambda>p. Inr False), env_bcrypt_Cost_ok = (\<lambda>h. True), env_quote = id\<rparr>"

lemma sample_valid: "Validate sample_env (applyDefaults sample_config) = None"
  by code_simp

theorem Load_guarantees_witness: "valid_config sample_env (applyDefaults sample_config)"
proof -
  have "Load sample_env ''/app/config.yaml'' = Inr (applyDefaults sample_config)"
    using sample_valid by (simp add: Load_def sample_env_def)
  from Load_guarantees [OF this] show ?thesis by simp
qed

end
