(* ===== verification/Observability.thy ===== *)
theory Observability
  imports Config
begin

text \<open>
  Package \<open>internal/observability\<close>: log levels and the logger's configuration
  (\<open>logger.go\<close>), the counters and gauges and their text rendering (\<open>metrics.go\<close>),
  correlation identifiers (\<open>id.go\<close>) and the logger that redacts passwords from the FTP
  protocol trace (\<open>protocol_logger.go\<close>).

  Counters and gauges are atomic 64-bit integers, so both are a \<^typ>\<open>64 word\<close>: an increment
  wraps, a gauge is read signed. The slog library is represented by the records handed to it. The
  theorems show that identifiers are safe as a file name suffix and that a password never reaches
  the protocol log.
\<close>

section \<open>logger.go\<close>

datatype Level = LevelDebug | LevelInfo | LevelWarn | LevelError

text \<open>The numeric values slog orders the levels by.\<close>

fun level_value :: "Level \<Rightarrow> int" where
  "level_value LevelDebug = -4"
| "level_value LevelInfo = 0"
| "level_value LevelWarn = 4"
| "level_value LevelError = 8"

instantiation Level :: linorder
begin

definition less_eq_Level :: "Level \<Rightarrow> Level \<Rightarrow> bool" where
  "less_eq_Level a b \<longleftrightarrow> level_value a \<le> level_value b"

definition less_Level :: "Level \<Rightarrow> Level \<Rightarrow> bool" where
  "less_Level a b \<longleftrightarrow> level_value a < level_value b"

instance
proof
  fix x y z :: Level
  show "x < y \<longleftrightarrow> x \<le> y \<and> \<not> y \<le> x" by (auto simp: less_Level_def less_eq_Level_def)
  show "x \<le> x" by (simp add: less_eq_Level_def)
  show "x \<le> z" if "x \<le> y" "y \<le> z" using that by (simp add: less_eq_Level_def)
  show "x = y" if "x \<le> y" "y \<le> x" using that by (cases x; cases y) (auto simp: less_eq_Level_def)
  show "x \<le> y \<or> y \<le> x" by (auto simp: less_eq_Level_def)
qed

end

definition parseLevel :: "string \<Rightarrow> Level" where
  "parseLevel level =
     (if level = ''debug'' then LevelDebug
      else if level = ''warn'' then LevelWarn
      else if level = ''error'' then LevelError
      else LevelInfo)"

text \<open>A record for the handler: level, message and attributes, in order.\<close>

datatype attr = AString string | AInt int

record log_record =
  log_Level :: Level
  log_Message :: string
  log_Attrs :: "(string \<times> attr) list"

definition attr_String :: "attr \<Rightarrow> string" where
  "attr_String v = (case v of AString s \<Rightarrow> s | AInt i \<Rightarrow> fmt_d i)"

datatype handler_kind = TextHandler | JSONHandler

text \<open>A logger with slog's own handler: its kind and level, and what was bound to it, in order.\<close>

datatype bound = BoundAttrs "(string \<times> attr) list" | BoundGroup string

record Logger =
  handler :: handler_kind
  min_level :: Level
  log_bound :: "bound list"

definition slog_WithAttrs :: "Logger \<Rightarrow> (string \<times> attr) list \<Rightarrow> Logger" where
  "slog_WithAttrs lg attrs = lg\<lparr>log_bound := log_bound lg @ [BoundAttrs attrs]\<rparr>"

definition slog_WithGroup :: "Logger \<Rightarrow> string \<Rightarrow> Logger" where
  "slog_WithGroup lg name = lg\<lparr>log_bound := log_bound lg @ [BoundGroup name]\<rparr>"

definition NewLogger :: "ObservabilityConfig \<Rightarrow> Logger" where
  "NewLogger cfg = \<lparr>handler = (if oc_LogFormat cfg = ''text'' then TextHandler else JSONHandler),
     min_level = parseLevel (oc_LogLevel cfg), log_bound = []\<rparr>"

definition Enabled :: "Logger \<Rightarrow> Level \<Rightarrow> bool" where
  "Enabled l lvl \<longleftrightarrow> min_level l \<le> lvl"

section \<open>metrics.go\<close>

type_synonym Counter = "64 word"
type_synonym Gauge = "64 word"

record Metrics =
  FTPConnectionsTotal :: Counter
  FTPConnectionsActive :: Gauge
  FTPAuthAttemptsTotal :: Counter
  FTPAuthFailuresTotal :: Counter
  FTPCommandsTotal :: Counter
  FTPSessionDurationMillisSum :: Counter
  FTPSessionDurationCount :: Counter
  TransferTotal :: Counter
  TransferActive :: Gauge
  TransferBytesTotal :: Counter
  TransferFailuresTotal :: Counter
  TransferDurationMillisSum :: Counter
  TransferDurationCount :: Counter
  SFTPConnectionsActive :: Gauge
  SFTPConnectionFailuresTotal :: Counter
  SFTPOperationDurationMillisSum :: Counter
  SFTPOperationDurationCount :: Counter
  TemporaryFilesPending :: Gauge
  RateLimitRejectionsTotal :: Counter

definition NewMetrics :: Metrics where
  "NewMetrics = \<lparr>FTPConnectionsTotal = 0, FTPConnectionsActive = 0, FTPAuthAttemptsTotal = 0,
     FTPAuthFailuresTotal = 0, FTPCommandsTotal = 0, FTPSessionDurationMillisSum = 0,
     FTPSessionDurationCount = 0, TransferTotal = 0, TransferActive = 0, TransferBytesTotal = 0,
     TransferFailuresTotal = 0, TransferDurationMillisSum = 0, TransferDurationCount = 0,
     SFTPConnectionsActive = 0, SFTPConnectionFailuresTotal = 0, SFTPOperationDurationMillisSum = 0,
     SFTPOperationDurationCount = 0, TemporaryFilesPending = 0, RateLimitRejectionsTotal = 0\<rparr>"

definition Inc :: "64 word \<Rightarrow> 64 word" where "Inc v = v + 1"
definition Dec :: "Gauge \<Rightarrow> Gauge" where "Dec v = v - 1"
definition Add :: "Counter \<Rightarrow> 64 word \<Rightarrow> Counter" where "Add v n = v + n"

definition gauge_Set :: "Gauge \<Rightarrow> 64 word \<Rightarrow> Gauge" where "gauge_Set v n = n"

text \<open>A counter is read as an unsigned number, a gauge as a signed one.\<close>

definition Counter_Value :: "Counter \<Rightarrow> nat" where "Counter_Value v = unat v"
definition Gauge_Value :: "Gauge \<Rightarrow> int" where "Gauge_Value v = sint v"

definition metric_u :: "nat \<Rightarrow> string" where "metric_u v = dec_nat v"
definition metric_i :: "int \<Rightarrow> string" where "metric_i v = fmt_d v"

text \<open>
  \<open>%.3f\<close> of the milliseconds divided by 1000 in floating point. Below \<open>2 ^ 50\<close>
  milliseconds (some 35 000 years) the quotient is rounded by less than half a unit of the third
  decimal, so the printed value is the exact decimal one given here.
\<close>

definition millisToSeconds :: "nat \<Rightarrow> string" where
  "millisToSeconds millis =
     dec_nat (millis div 1000) @ ''.''
     @ [digit_char (millis mod 1000 div 100), digit_char (millis mod 100 div 10), digit_char (millis mod 10)]"

definition metric_lines :: "Metrics \<Rightarrow> (string \<times> string \<times> string \<times> string) list" where
  "metric_lines m = [
     (''ftp_connections_total'', ''Total FTP control connections accepted.'', ''counter'', metric_u (Counter_Value (FTPConnectionsTotal m))),
     (''ftp_connections_active'', ''FTP control connections currently open.'', ''gauge'', metric_i (Gauge_Value (FTPConnectionsActive m))),
     (''ftp_auth_attempts_total'', ''Total FTP authentication attempts.'', ''counter'', metric_u (Counter_Value (FTPAuthAttemptsTotal m))),
     (''ftp_auth_failures_total'', ''Total failed FTP authentication attempts.'', ''counter'', metric_u (Counter_Value (FTPAuthFailuresTotal m))),
     (''ftp_commands_total'', ''Total FTP commands processed.'', ''counter'', metric_u (Counter_Value (FTPCommandsTotal m))),
     (''ftp_sessions_duration_seconds_sum'', ''Sum of FTP session durations.'', ''counter'', millisToSeconds (Counter_Value (FTPSessionDurationMillisSum m))),
     (''ftp_sessions_duration_seconds_count'', ''Count of completed FTP sessions.'', ''counter'', metric_u (Counter_Value (FTPSessionDurationCount m))),
     (''transfer_total'', ''Total transfers attempted (STOR+RETR).'', ''counter'', metric_u (Counter_Value (TransferTotal m))),
     (''transfer_active'', ''Transfers currently in flight.'', ''gauge'', metric_i (Gauge_Value (TransferActive m))),
     (''transfer_bytes_total'', ''Total bytes transferred.'', ''counter'', metric_u (Counter_Value (TransferBytesTotal m))),
     (''transfer_duration_seconds_sum'', ''Sum of transfer durations.'', ''counter'', millisToSeconds (Counter_Value (TransferDurationMillisSum m))),
     (''transfer_duration_seconds_count'', ''Count of completed transfers.'', ''counter'', metric_u (Counter_Value (TransferDurationCount m))),
     (''transfer_failures_total'', ''Total failed transfers.'', ''counter'', metric_u (Counter_Value (TransferFailuresTotal m))),
     (''sftp_connections_active'', ''SFTP/SSH connections currently open.'', ''gauge'', metric_i (Gauge_Value (SFTPConnectionsActive m))),
     (''sftp_connection_failures_total'', ''Total failed SFTP/SSH connection attempts.'', ''counter'', metric_u (Counter_Value (SFTPConnectionFailuresTotal m))),
     (''sftp_operation_duration_seconds_sum'', ''Sum of SFTP operation durations.'', ''counter'', millisToSeconds (Counter_Value (SFTPOperationDurationMillisSum m))),
     (''sftp_operation_duration_seconds_count'', ''Count of completed SFTP operations.'', ''counter'', metric_u (Counter_Value (SFTPOperationDurationCount m))),
     (''temporary_files_pending'', ''Temporary upload files not yet committed or cleaned up.'', ''gauge'', metric_i (Gauge_Value (TemporaryFilesPending m))),
     (''rate_limit_rejections_total'', ''Total authentication attempts rejected by rate limiting.'', ''counter'', metric_u (Counter_Value (RateLimitRejectionsTotal m)))]"

text \<open>
  \<open>WriteText\<close> to a writer \<open>put\<close> on a state \<open>'o\<close>: one write per metric, stopping at
  the first error.
\<close>

definition render_line :: "string \<times> string \<times> string \<times> string \<Rightarrow> string" where
  "render_line l = (case l of (name, help, typ, val) \<Rightarrow>
     ''# HELP '' @ name @ '' '' @ help @ [newline] @ ''# TYPE '' @ name @ '' '' @ typ @ [newline]
     @ name @ '' '' @ val @ [newline])"

fun write_lines :: "(string \<Rightarrow> 'o \<Rightarrow> go_error option \<times> 'o) \<Rightarrow> (string \<times> string \<times> string \<times> string) list \<Rightarrow> 'o \<Rightarrow> go_error option \<times> 'o" where
  "write_lines put [] out = (None, out)"
| "write_lines put (l # ls) out =
     (case put (render_line l) out of
        (Some err, out) \<Rightarrow> (Some err, out)
      | (None, out) \<Rightarrow> write_lines put ls out)"

definition WriteText :: "Metrics \<Rightarrow> (string \<Rightarrow> 'o \<Rightarrow> go_error option \<times> 'o) \<Rightarrow> 'o \<Rightarrow> go_error option \<times> 'o" where
  "WriteText m put out = write_lines put (metric_lines m) out"

section \<open>id.go\<close>

text \<open>
  \<open>NewCorrelationID\<close>: the argument \<open>rand\<close> is what \<open>rand.Read\<close> of eight bytes
  gave (\<^term>\<open>None\<close> an error), \<open>nanos\<close> the wall clock in nanoseconds. The result is the
  identifier and the new value of the fallback counter.
\<close>

definition NewCorrelationID :: "bytes option \<Rightarrow> nat \<Rightarrow> 64 word \<Rightarrow> string \<times> 64 word" where
  "NewCorrelationID rand nanos fallbackCounter =
     (case rand of
        Some buf \<Rightarrow> (hex_encode buf, fallbackCounter)
      | None \<Rightarrow> (let fallbackCounter = fallbackCounter + 1
                 in (''f'' @ hex_nat nanos @ hex_nat (unat fallbackCounter), fallbackCounter)))"

section \<open>protocol_logger.go\<close>

text \<open>
  The functions of package strings the redaction uses, on UTF-8 strings. \<open>TrimSpace\<close> removes
  the encodings of the characters with Unicode's White Space property; \<open>EqualFold\<close> is
  given here for an ASCII second argument, whose letters s and k also fold with U+017F and U+212A.
\<close>

definition space_encodings :: "string list" where
  "space_encodings = map (map char_of) ([[9], [10], [11], [12], [13], [32], [0xC2, 0x85], [0xC2, 0xA0],
     [0xE1, 0x9A, 0x80], [0xE2, 0x80, 0xA8], [0xE2, 0x80, 0xA9], [0xE2, 0x80, 0xAF], [0xE2, 0x81, 0x9F],
     [0xE3, 0x80, 0x80]] @ map (\<lambda>i. [0xE2, 0x80, 0x80 + i]) [0..<11] :: nat list list)"

function trim_left :: "string list \<Rightarrow> string \<Rightarrow> string" where
  "trim_left ws s = (case find (\<lambda>w. w \<noteq> [] \<and> prefix w s) ws of
     None \<Rightarrow> s | Some w \<Rightarrow> trim_left ws (drop (length w) s))"
  by pat_completeness auto
termination
proof (relation "measure (\<lambda>(ws, s). length s)")
  fix ws :: "string list" and s w
  assume "find (\<lambda>w. w \<noteq> [] \<and> prefix w s) ws = Some w"
  then have "w \<noteq> []" "prefix w s" by (auto simp: find_Some_iff)
  then show "((ws, drop (length w) s), (ws, s)) \<in> measure (\<lambda>(ws, s). length s)"
    by (auto simp: prefix_def)
qed simp

declare trim_left.simps [simp del]

definition TrimSpace :: "string \<Rightarrow> string" where
  "TrimSpace s = rev (trim_left (map rev space_encodings) (rev (trim_left space_encodings s)))"

definition lower :: "char \<Rightarrow> char" where
  "lower c = (if of_char c \<in> {65..90 :: nat} then char_of (of_char c + 32 :: nat) else c)"

fun EqualFold :: "string \<Rightarrow> string \<Rightarrow> bool" where
  "EqualFold s [] = (s = [])"
| "EqualFold s (c # t) =
     ((case s of [] \<Rightarrow> False | d # s' \<Rightarrow> lower d = lower c \<and> EqualFold s' t)
      \<or> (lower c = CHR ''s'' \<and> prefix [CHR 0xC5, CHR 0xBF] s \<and> EqualFold (drop 2 s) t)
      \<or> (lower c = CHR ''k'' \<and> prefix [CHR 0xE2, CHR 0x84, CHR 0xAA] s \<and> EqualFold (drop 3 s) t))"

definition sensitiveCommands :: "string list" where
  "sensitiveCommands = [''PASS'']"

fun redact_loop :: "string list \<Rightarrow> string \<Rightarrow> string \<Rightarrow> string" where
  "redact_loop [] line trimmed = line"
| "redact_loop (cmd # cmds) line trimmed =
     (if EqualFold trimmed cmd then cmd
      else (let pre = cmd @ '' ''
            in if length trimmed > length pre \<and> EqualFold (take (length pre) trimmed) pre
               then cmd @ '' ***REDACTED***''
               else redact_loop cmds line trimmed))"

definition redactIfSensitive :: "string \<Rightarrow> string" where
  "redactIfSensitive line = redact_loop sensitiveCommands line (TrimSpace line)"

definition redactLineAttr :: "log_record \<Rightarrow> log_record" where
  "redactLineAttr r = r\<lparr>log_Attrs := map (\<lambda>a.
     if fst a = ''line'' then (''line'', AString (redactIfSensitive (attr_String (snd a)))) else a) (log_Attrs r)\<rparr>"

text \<open>
  The redacting handler around a handler of slog. \<open>emit\<close> is the writing of a record by slog's
  own text or JSON handler, to an output \<open>'o\<close>.
\<close>

record redactingHandler =
  rh_next :: Logger

definition WrapRedacting :: "Logger \<Rightarrow> redactingHandler" where
  "WrapRedacting nxt = \<lparr>rh_next = nxt\<rparr>"

definition redacting_Enabled :: "redactingHandler \<Rightarrow> Level \<Rightarrow> bool" where
  "redacting_Enabled h lvl = Enabled (rh_next h) lvl"

definition redacting_Handle :: "(Logger \<Rightarrow> log_record \<Rightarrow> 'o \<Rightarrow> 'o) \<Rightarrow> redactingHandler \<Rightarrow> log_record \<Rightarrow> 'o \<Rightarrow> 'o" where
  "redacting_Handle emit h r =
     (let r = (if log_Message r = ''Received line'' \<or> log_Message r = ''Sending answer''
               then redactLineAttr r else r)
      in emit (rh_next h) r)"

definition redacting_WithAttrs :: "redactingHandler \<Rightarrow> (string \<times> attr) list \<Rightarrow> redactingHandler" where
  "redacting_WithAttrs h attrs = \<lparr>rh_next = slog_WithAttrs (rh_next h) attrs\<rparr>"

definition redacting_WithGroup :: "redactingHandler \<Rightarrow> string \<Rightarrow> redactingHandler" where
  "redacting_WithGroup h name = \<lparr>rh_next = slog_WithGroup (rh_next h) name\<rparr>"

definition NewProtocolLogger :: "ObservabilityConfig \<Rightarrow> redactingHandler" where
  "NewProtocolLogger cfg = (let base = NewLogger cfg in WrapRedacting base)"

text \<open>
  What slog does with a logger: a record is handled if the handler is enabled for its level, and a
  logger derived by \<open>With\<close> or \<open>WithGroup\<close> (the FTP library derives one per client) has the
  handler derived.
\<close>

definition logger_Log :: "(Logger \<Rightarrow> log_record \<Rightarrow> 'o \<Rightarrow> 'o) \<Rightarrow> redactingHandler \<Rightarrow> log_record \<Rightarrow> 'o \<Rightarrow> 'o" where
  "logger_Log emit h r = (if redacting_Enabled h (log_Level r) then redacting_Handle emit h r else id)"

fun logger_derive :: "redactingHandler \<Rightarrow> bound list \<Rightarrow> redactingHandler" where
  "logger_derive h [] = h"
| "logger_derive h (BoundAttrs attrs # bs) = logger_derive (redacting_WithAttrs h attrs) bs"
| "logger_derive h (BoundGroup name # bs) = logger_derive (redacting_WithGroup h name) bs"

section \<open>Identifiers\<close>

lemma slash_code: "of_char slash = (47 :: nat)"
  by (simp add: of_char_def)

lemma hex_digit_not_slash: "n < 16 \<Longrightarrow> hex_digit n \<noteq> slash"
  using hex_digit_range [of n] slash_code by auto

lemma hex_encode_no_slash: "slash \<notin> set (hex_encode bs)"
proof (induction bs)
  case (Cons b bs)
  have "hex_digit (unat b div 16) \<noteq> slash" "hex_digit (unat b mod 16) \<noteq> slash"
    by (simp_all add: hex_digit_not_slash unat_byte_div)
  with Cons show ?case by (auto simp: hex_encode_Cons)
qed (simp add: hex_encode_def)

lemma hex_nat_no_slash: "slash \<notin> set (hex_nat n)"
proof (induction n rule: hex_nat.induct)
  case (1 n)
  then show ?case
    using hex_digit_not_slash [of n] hex_digit_not_slash [of "n mod 16"]
    by (subst hex_nat.simps) auto
qed

lemma NewCorrelationID_no_slash: "slash \<notin> set (fst (NewCorrelationID r ns fb))"
  using hex_encode_no_slash hex_nat_no_slash
  by (auto simp: NewCorrelationID_def Let_def split: option.split)

text \<open>
  Correlation identifiers can name temporary files: no identifier contains a slash, whether it
  comes from the random source or from the fallback, and two identifiers drawn from the random
  source have the same sixteen characters only if the same eight bytes were drawn.
\<close>

theorem NewCorrelationID_names_files:
  "slash \<notin> set (fst (NewCorrelationID r ns fb))
   \<and> (length b1 = 8 \<and> length b2 = 8 \<longrightarrow>
        length (fst (NewCorrelationID (Some b1) ns fb)) = 16
        \<and> (fst (NewCorrelationID (Some b1) ns fb) = fst (NewCorrelationID (Some b2) ns' fb') \<longleftrightarrow> b1 = b2))"
  using NewCorrelationID_no_slash hex_encode_inj [of b1 b2] by (auto simp: NewCorrelationID_def)

theorem NewCorrelationID_names_files_witness:
  "fst (NewCorrelationID (Some [0, 1, 2, 3, 4, 5, 6, 7]) 0 0) \<noteq> fst (NewCorrelationID (Some [0, 1, 2, 3, 4, 5, 6, 8]) 9 1)"
  using NewCorrelationID_names_files [of None 0 0 "[0, 1, 2, 3, 4, 5, 6, 7]" "[0, 1, 2, 3, 4, 5, 6, 8]" 9 1] by simp

section \<open>Redaction\<close>

text \<open>What is left after trimming keeps everything from the first letter that is no white space.\<close>

lemma trim_left_keeps:
  assumes "b \<noteq> []" and "\<forall>w \<in> set ws. set w \<inter> set b = {}"
  shows "\<exists>a'. suffix a' a \<and> trim_left ws (a @ b) = a' @ b"
  using assms
proof (induction "length a" arbitrary: a rule: less_induct)
  case less
  show ?case
  proof (cases "find (\<lambda>w. w \<noteq> [] \<and> prefix w (a @ b)) ws")
    case None
    then show ?thesis by (subst trim_left.simps) auto
  next
    case (Some w)
    then have w: "w \<in> set ws" "w \<noteq> []" "prefix w (a @ b)" by (auto simp: find_Some_iff)
    have "prefix w a"
    proof (rule ccontr)
      assume "\<not> prefix w a"
      with w(3) obtain c where "w = a @ c" "c \<noteq> []" "prefix c b" by (auto simp: prefix_append)
      then have "set c \<subseteq> set w" "set c \<subseteq> set b" "c \<noteq> []" by (auto dest: set_mono_prefix)
      with less.prems(2) w(1) show False by (cases c) auto
    qed
    then obtain r where r: "a = w @ r" by (auto elim: prefixE)
    with w(2) have "length r < length a" by simp
    from less.hyps [OF this less.prems] obtain a' where "suffix a' r" "trim_left ws (r @ b) = a' @ b" by blast
    moreover have "trim_left ws (a @ b) = trim_left ws (r @ b)"
      using Some r by (subst trim_left.simps) simp
    ultimately show ?thesis using r by (auto simp: suffix_def)
  qed
qed

lemma trim_left_done: "w \<in> set ws \<Longrightarrow> w \<noteq> [] \<Longrightarrow> \<not> prefix w (trim_left ws s)"
proof (induction ws s rule: trim_left.induct)
  case (1 ws s)
  show ?case
  proof (cases "find (\<lambda>w. w \<noteq> [] \<and> prefix w s) ws")
    case None
    then have "trim_left ws s = s" by (subst trim_left.simps) simp
    with None "1.prems" show ?thesis by (auto simp: find_None_iff)
  next
    case (Some v)
    with 1 show ?thesis by (subst trim_left.simps) simp
  qed
qed

lemma lower_pass: "\<forall>c. lower c \<in> set ''pass'' \<longrightarrow> c \<in> set ''PASSpass''"
  by code_simp

lemma verb_not_space:
  assumes "map lower v = ''pass''" and "w \<in> set space_encodings"
  shows "set w \<inter> set v = {}"
proof -
  have "set v \<subseteq> set ''PASSpass''"
  proof
    fix c assume "c \<in> set v"
    then have "lower c \<in> set ''pass''" using assms(1) by (metis list.set_map imageI)
    then show "c \<in> set ''PASSpass''" using lower_pass by blast
  qed
  moreover have "\<forall>w \<in> set space_encodings. set w \<inter> set ''PASSpass'' = {}" by code_simp
  ultimately show ?thesis using assms(2) by blast
qed

lemma trim_left_ascii_space:
  assumes "of_char c \<in> {9, 10, 11, 12, 13, 32 :: nat}"
  shows "trim_left space_encodings (c # s) = trim_left space_encodings s"
proof -
  have "c \<in> {char_of (9 :: nat), char_of (10 :: nat), char_of (11 :: nat), char_of (12 :: nat), char_of (13 :: nat), char_of (32 :: nat)}"
    using assms by (metis char_of_char insert_iff singletonD)
  then have "find (\<lambda>w. w \<noteq> [] \<and> prefix w (c # s)) space_encodings = Some [c]"
    by (auto simp: space_encodings_def)
  then show ?thesis by (subst trim_left.simps) simp
qed

lemma trim_left_ascii_spaces:
  "\<forall>c \<in> set sp. of_char c \<in> {9, 10, 11, 12, 13, 32 :: nat} \<Longrightarrow>
   trim_left space_encodings (sp @ s) = trim_left space_encodings s"
  by (induction sp) (simp_all add: trim_left_ascii_space del: insert_iff)

lemma TrimSpace_verb:
  assumes "map lower v = ''pass''" and "\<forall>c \<in> set sp. of_char c \<in> {9, 10, 11, 12, 13, 32 :: nat}"
  obtains y where "TrimSpace (sp @ v @ '' '' @ pw) = v @ y" and "prefix y ('' '' @ pw)" and "y \<noteq> '' ''"
proof -
  have ne: "v \<noteq> []" using assms(1) by auto
  have sep: "\<forall>w \<in> set space_encodings. set w \<inter> set v = {}" using verb_not_space [OF assms(1)] by blast
  have "trim_left space_encodings (v @ '' '' @ pw) = v @ '' '' @ pw"
  proof -
    have "\<not> (w \<noteq> [] \<and> prefix w (v @ '' '' @ pw))" if "w \<in> set space_encodings" for w
      using sep that ne by (cases w; cases v) auto
    then have "find (\<lambda>w. w \<noteq> [] \<and> prefix w (v @ '' '' @ pw)) space_encodings = None"
      by (simp add: find_None_iff)
    then show ?thesis by (subst trim_left.simps) simp
  qed
  then have l: "trim_left space_encodings (sp @ v @ '' '' @ pw) = v @ '' '' @ pw"
    by (simp add: trim_left_ascii_spaces [OF assms(2)])
  let ?r = "rev ('' '' @ pw)"
  obtain a' where a: "suffix a' ?r" "trim_left (map rev space_encodings) (?r @ rev v) = a' @ rev v"
    using trim_left_keeps [of "rev v" "map rev space_encodings" ?r] ne sep by auto
  have "\<not> prefix '' '' (a' @ rev v)"
  proof -
    have "'' '' \<in> set (map rev space_encodings)" by code_simp
    from trim_left_done [OF this, of "?r @ rev v"] a(2) show ?thesis by simp
  qed
  then have "rev a' \<noteq> '' ''" by (cases a') auto
  moreover have "TrimSpace (sp @ v @ '' '' @ pw) = v @ rev a'" using l a(2) by (simp add: TrimSpace_def)
  moreover have "prefix (rev a') ('' '' @ pw)" using a(1) by (metis rev_rev_ident suffix_to_prefix)
  ultimately show thesis using that by blast
qed

lemma lower_PASS: "map lower ''PASS'' = ''pass''" "map lower ''PASS '' = ''pass ''" "map lower '' '' = '' ''"
  by code_simp+

lemma EqualFold_lower: "map lower s = map lower t \<Longrightarrow> EqualFold s t"
  by (induction t arbitrary: s) (auto split: list.split)

lemma PASS_redacted:
  assumes "map lower v = ''pass''" and "\<forall>c \<in> set sp. of_char c \<in> {9, 10, 11, 12, 13, 32 :: nat}"
  shows "redactIfSensitive (sp @ v @ '' '' @ pw) \<in> {''PASS'', ''PASS ***REDACTED***''}"
proof -
  obtain y where y: "TrimSpace (sp @ v @ '' '' @ pw) = v @ y" "prefix y ('' '' @ pw)" "y \<noteq> '' ''"
    using TrimSpace_verb [OF assms] .
  have len: "length v = 4" using arg_cong [OF assms(1), of length] by simp
  show ?thesis
  proof (cases "y = []")
    case True
    have "map lower v = map lower ''PASS''" using assms(1) by (simp only: lower_PASS)
    then have "EqualFold v ''PASS''" by (rule EqualFold_lower)
    with y(1) True show ?thesis by (simp add: redactIfSensitive_def sensitiveCommands_def)
  next
    case False
    with y(2) obtain z where z: "y = '' '' @ z" by (cases y) auto
    then have "z \<noteq> []" using y(3) by auto
    have "map lower (v @ '' '') = map lower ''PASS ''" using assms(1) by (simp only: map_append lower_PASS) simp
    then have "EqualFold (v @ '' '') ''PASS ''" by (rule EqualFold_lower)
    with y(1) z \<open>z \<noteq> []\<close> len show ?thesis
      by (simp add: redactIfSensitive_def sensitiveCommands_def Let_def del: EqualFold.simps)
  qed
qed

text \<open>Deriving a logger binds to the handler inside and keeps the redaction around it.\<close>

lemma logger_derive_next: "logger_derive h bs = \<lparr>rh_next = (rh_next h)\<lparr>log_bound := log_bound (rh_next h) @ bs\<rparr>\<rparr>"
  by (induction h bs rule: logger_derive.induct)
    (simp_all add: redacting_WithAttrs_def redacting_WithGroup_def slog_WithAttrs_def slog_WithGroup_def)

text \<open>
  (C34) A password never reaches the protocol log: a received command line whose verb is PASS in any
  letter case, after any leading ASCII white space, is dropped by the protocol logger, if its level
  is not enabled, or handed to the underlying handler as the bare verb or as the verb with a fixed
  placeholder, with the other attributes of the record as they were. It holds for every configuration,
  level and argument whatsoever, and for every logger derived from the protocol logger by binding
  attributes and groups.
\<close>

theorem password_never_logged:
  assumes "map lower v = ''pass''" and "\<forall>c \<in> set sp. of_char c \<in> {9, 10, 11, 12, 13, 32 :: nat}"
    and "msg = ''Received line'' \<or> msg = ''Sending answer''" and "''line'' \<notin> fst ` set (pre @ post)"
  shows "\<exists>l \<in> {''PASS'', ''PASS ***REDACTED***''}.
    logger_Log emit (logger_derive (NewProtocolLogger cfg) bs)
      \<lparr>log_Level = lvl, log_Message = msg, log_Attrs = pre @ (''line'', AString (sp @ v @ '' '' @ pw)) # post\<rparr> out
    = (if Enabled (NewLogger cfg) lvl
       then emit ((NewLogger cfg)\<lparr>log_bound := bs\<rparr>)
         \<lparr>log_Level = lvl, log_Message = msg, log_Attrs = pre @ (''line'', AString l) # post\<rparr> out
       else out)"
proof -
  let ?f = "\<lambda>a. if fst a = ''line'' then (''line'', AString (redactIfSensitive (attr_String (snd a)))) else a"
  have "fst a \<noteq> ''line''" if "a \<in> set pre \<union> set post" for a using assms(4) that by (metis image_eqI set_append)
  then have "map ?f pre = pre" "map ?f post = post" by (simp_all add: map_idI)
  moreover have "log_bound (NewLogger cfg) = []" by (simp add: NewLogger_def)
  moreover have "Enabled ((NewLogger cfg)\<lparr>log_bound := bs\<rparr>) lvl = Enabled (NewLogger cfg) lvl" by (simp add: Enabled_def)
  ultimately show ?thesis
    using PASS_redacted [OF assms(1,2), of pw] assms(3)
    by (auto simp: logger_Log_def redacting_Enabled_def redacting_Handle_def redactLineAttr_def attr_String_def
        logger_derive_next NewProtocolLogger_def WrapRedacting_def Let_def)
qed

theorem password_never_logged_witness:
  "\<exists>l \<in> {''PASS'', ''PASS ***REDACTED***''}.
    logger_Log (\<lambda>h r out. out @ [(h, r)])
      (logger_derive (NewProtocolLogger \<lparr>oc_LogLevel = ''debug'', oc_LogFormat = ''text''\<rparr>) [BoundAttrs [(''clientId'', AInt 7)]])
      \<lparr>log_Level = LevelDebug, log_Message = ''Received line'', log_Attrs = [(''line'', AString ''  PasS s3cret pass '')]\<rparr> []
    = [((NewLogger \<lparr>oc_LogLevel = ''debug'', oc_LogFormat = ''text''\<rparr>)\<lparr>log_bound := [BoundAttrs [(''clientId'', AInt 7)]]\<rparr>,
        \<lparr>log_Level = LevelDebug, log_Message = ''Received line'', log_Attrs = [(''line'', AString l)]\<rparr>)]"
proof -
  have "map lower ''PasS'' = ''pass''" by code_simp
  moreover have "\<forall>c \<in> set ''  ''. of_char c \<in> {9, 10, 11, 12, 13, 32 :: nat}" by code_simp
  moreover have "Enabled (NewLogger \<lparr>oc_LogLevel = ''debug'', oc_LogFormat = ''text''\<rparr>) LevelDebug" by code_simp
  ultimately show ?thesis
    using password_never_logged [of "''PasS''" "''  ''" "''Received line''" "[]" "[]" "\<lambda>h r out. out @ [(h, r)]"
        "\<lparr>oc_LogLevel = ''debug'', oc_LogFormat = ''text''\<rparr>" "[BoundAttrs [(''clientId'', AInt 7)]]" LevelDebug "''s3cret pass ''" "[]"]
    by simp
qed

end
