(* ===== verification/Auth.thy ===== *)
theory Auth
  imports Errors
begin

text \<open>
  Package \<open>internal/auth\<close>: the failure-counting \<open>Limiter\<close> (\<open>limiter.go\<close>), the
  user \<open>Store\<close> (\<open>store.go\<close>) and the \<open>Authenticator\<close> (\<open>authenticator.go\<close>).

  A \<open>time.Time\<close> is a number of nanoseconds, zero for Go's zero time; every call of
  \<open>time.Now\<close> is an argument of the operation that makes it. Bcrypt is a library: its
  comparison is an argument of \<open>Authenticate\<close>. Each limiter operation holds the
  limiter's mutex, so concurrent use is a sequence of operations.

  The theorems: the periodic sweep is unobservable (the limiter refines one that never forgets),
  the lockout grows with the failures and is capped, so that it ends for every user, and
  \<open>Authenticate\<close> behaves the same for an unknown user and for a wrong password.
\<close>

section \<open>limiter.go\<close>

record attemptState =
  failures :: int
  windowStart :: time
  lockedUntil :: time
  lastActivity :: time

record Limiter =
  state :: "string \<rightharpoonup> attemptState"
  maxFailures :: int
  window :: duration
  lockout :: duration
  calls :: "64 word"

abbreviation (input) zero_time :: time where "zero_time \<equiv> 0"

text \<open>\<open>Time.Sub\<close> saturates at the bounds of a \<open>time.Duration\<close>.\<close>

definition time_Sub :: "time \<Rightarrow> time \<Rightarrow> duration" where
  "time_Sub a b = max (- (2 ^ 63)) (min (2 ^ 63 - 1) (a - b))"

definition NewLimiter :: "int \<Rightarrow> duration \<Rightarrow> duration \<Rightarrow> Limiter" where
  "NewLimiter mf w lo = \<lparr>state = Map.empty, maxFailures = mf, window = w, lockout = lo, calls = 0\<rparr>"

text \<open>The readings of the clock in one call of \<open>Allow\<close>: the sweep's, one per swept entry, the check's.\<close>

record allow_clock =
  sweep_now :: time
  entry_now :: "string \<Rightarrow> time"
  check_now :: time

definition sweepOccasionally :: "allow_clock \<Rightarrow> Limiter \<Rightarrow> Limiter" where
  "sweepOccasionally c l =
     (let l = l\<lparr>calls := calls l + 1\<rparr>
      in if calls l mod 256 \<noteq> 0 then l
         else
           let cutoff = sweep_now c + wrap64 (- wrap64 (window l + wrap64 (lockout l * 32)))
           in l\<lparr>state := (\<lambda>key. case state l key of
                 None \<Rightarrow> None
               | Some s \<Rightarrow> if lastActivity s < cutoff \<and> lockedUntil s < entry_now c key
                           then None else Some s)\<rparr>)"

definition Allow :: "allow_clock \<Rightarrow> string \<Rightarrow> Limiter \<Rightarrow> bool \<times> Limiter" where
  "Allow c key l0 =
     (let l = sweepOccasionally c l0
      in case state l key of
           None \<Rightarrow> (True, l)
         | Some s \<Rightarrow>
             if lockedUntil s \<noteq> zero_time \<and> check_now c < lockedUntil s then (False, l)
             else (True, l))"

definition fresh_attempt :: "time \<Rightarrow> attemptState" where
  "fresh_attempt now =
     \<lparr>failures = 0, windowStart = now, lockedUntil = zero_time, lastActivity = zero_time\<rparr>"

definition RecordFailure :: "time \<Rightarrow> string \<Rightarrow> Limiter \<Rightarrow> Limiter" where
  "RecordFailure now key l =
     (let s = (case state l key of
                 None \<Rightarrow> fresh_attempt now
               | Some s \<Rightarrow> if time_Sub now (windowStart s) > window l then fresh_attempt now else s);
          s = s\<lparr>failures := failures s + 1, lastActivity := now\<rparr>;
          s = (if failures s \<ge> maxFailures l
               then let multiplier = failures s - maxFailures l + 1;
                        multiplier = (if multiplier > 32 then 32 else multiplier)
                    in s\<lparr>lockedUntil := now + wrap64 (lockout l * multiplier)\<rparr>
               else s)
      in l\<lparr>state := (state l)(key \<mapsto> s)\<rparr>)"

definition RecordSuccess :: "string \<Rightarrow> Limiter \<Rightarrow> Limiter" where
  "RecordSuccess key l = l\<lparr>state := (state l)(key := None)\<rparr>"

section \<open>store.go\<close>

record UserRecord =
  Username :: string
  PasswordHash :: string

type_synonym Store = "string \<rightharpoonup> UserRecord"

definition NewStore :: "UserRecord list \<Rightarrow> Store" where
  "NewStore records = foldl (\<lambda>users r. users(Username r \<mapsto> r)) Map.empty records"

definition Lookup :: "Store \<Rightarrow> string \<Rightarrow> UserRecord option" where
  "Lookup s username = s username"

section \<open>authenticator.go\<close>

text \<open>
  \<open>mustHash\<close>, with bcrypt's \<open>GenerateFromPassword\<close> as \<open>gen\<close>; \<^term>\<open>None\<close> is its panic, which
  ends the process before it serves.
\<close>

definition mustHash :: "(string \<Rightarrow> string result) \<Rightarrow> string \<Rightarrow> string option" where
  "mustHash gen s = (case gen s of Inl err \<Rightarrow> None | Inr h \<Rightarrow> Some h)"

definition dummyHash :: "(string \<Rightarrow> string result) \<Rightarrow> string option" where
  "dummyHash gen = mustHash gen ''ftp2sftp-dummy-comparison-only''"

definition ErrInvalidCredentials :: go_error where
  "ErrInvalidCredentials =
     New KindAuthentication ''auth.Authenticate'' (''credenciales inv'' @ a_acute @ ''lidas'')"

definition ErrRateLimited :: go_error where
  "ErrRateLimited = New KindRateLimited ''auth.Authenticate''
     (''demasiados intentos fallidos, intente m'' @ a_acute @ ''s tarde'')"

record Authenticator =
  store :: Store
  byIP :: Limiter
  byUser :: Limiter

definition NewAuthenticator :: "Store \<Rightarrow> Limiter \<Rightarrow> Limiter \<Rightarrow> Authenticator" where
  "NewAuthenticator st ip user = \<lparr>store = st, byIP = ip, byUser = user\<rparr>"

text \<open>The clock readings of one authentication attempt.\<close>

record auth_clock =
  ip_clock :: allow_clock
  user_clock :: allow_clock
  ip_fail :: time
  user_fail :: time

text \<open>
  \<open>Authenticate\<close>: the limiter by user name is only asked when the one by address agrees.
  \<open>bcrypt hash password\<close> is the library's comparison (true for a nil error) and
  \<open>dummy\<close> the value of \<open>dummyHash\<close>, compared against for an unknown user.
\<close>

definition Authenticate ::
  "(string \<Rightarrow> string \<Rightarrow> bool) \<Rightarrow> string \<Rightarrow> auth_clock \<Rightarrow> string \<Rightarrow> string \<Rightarrow> string \<Rightarrow> Authenticator
     \<Rightarrow> go_error option \<times> Authenticator" where
  "Authenticate bcrypt dummy c clientIP username password a =
     (case Allow (ip_clock c) clientIP (byIP a) of
        (False, ip) \<Rightarrow> (Some ErrRateLimited, a\<lparr>byIP := ip\<rparr>)
      | (True, ip) \<Rightarrow>
         (case Allow (user_clock c) username (byUser a) of
            (False, user) \<Rightarrow> (Some ErrRateLimited, a\<lparr>byIP := ip, byUser := user\<rparr>)
          | (True, user) \<Rightarrow>
             let found = Lookup (store a) username;
                 hash = (case found of None \<Rightarrow> dummy | Some r \<Rightarrow> PasswordHash r);
                 ok = bcrypt hash password
             in if found = None \<or> \<not> ok
                then (Some ErrInvalidCredentials,
                      a\<lparr>byIP := RecordFailure (ip_fail c) clientIP ip,
                        byUser := RecordFailure (user_fail c) username user\<rparr>)
                else (None,
                      a\<lparr>byIP := RecordSuccess clientIP ip,
                        byUser := RecordSuccess username user\<rparr>)))"

section \<open>The limiter without a sweep\<close>

text \<open>
  The specification of the limiter: the same bookkeeping on a map that is never swept. Whether a
  key is locked, and what a failure stores, written once and shared by both.
\<close>

definition locked :: "time \<Rightarrow> attemptState option \<Rightarrow> bool" where
  "locked now e = (case e of None \<Rightarrow> False
     | Some s \<Rightarrow> lockedUntil s \<noteq> zero_time \<and> now < lockedUntil s)"

definition fail_entry :: "int \<Rightarrow> duration \<Rightarrow> duration \<Rightarrow> time \<Rightarrow> attemptState option \<Rightarrow> attemptState" where
  "fail_entry mf w lo now e =
     (let s = (case e of None \<Rightarrow> fresh_attempt now
               | Some s \<Rightarrow> if time_Sub now (windowStart s) > w then fresh_attempt now else s);
          s = s\<lparr>failures := failures s + 1, lastActivity := now\<rparr>
      in if failures s \<ge> mf
         then s\<lparr>lockedUntil := now + wrap64 (lo * min 32 (failures s - mf + 1))\<rparr> else s)"

lemma Allow_eq:
  "Allow c key l = (let l' = sweepOccasionally c l in (\<not> locked (check_now c) (state l' key), l'))"
  by (auto simp: Allow_def locked_def Let_def split: option.splits)

lemma RecordFailure_eq:
  "RecordFailure now key l =
     l\<lparr>state := (state l)(key \<mapsto> fail_entry (maxFailures l) (window l) (lockout l) now (state l key))\<rparr>"
  by (simp add: RecordFailure_def fail_entry_def Let_def min_def split: option.splits)

lemma sweep_params [simp]:
  "maxFailures (sweepOccasionally c l) = maxFailures l"
  "window (sweepOccasionally c l) = window l"
  "lockout (sweepOccasionally c l) = lockout l"
  by (simp_all add: sweepOccasionally_def Let_def)

lemma limiter_params [simp]:
  "maxFailures (RecordFailure now k l) = maxFailures l" "window (RecordFailure now k l) = window l"
  "lockout (RecordFailure now k l) = lockout l" "maxFailures (RecordSuccess k l) = maxFailures l"
  "window (RecordSuccess k l) = window l" "lockout (RecordSuccess k l) = lockout l"
  by (simp_all add: RecordFailure_eq RecordSuccess_def)

lemma state_RecordFailure:
  "state (RecordFailure now k l) j =
     (if j = k then Some (fail_entry (maxFailures l) (window l) (lockout l) now (state l k)) else state l j)"
  by (simp add: RecordFailure_eq)

datatype limiter_op = OpAllow allow_clock string | OpFail time string | OpSuccess string

fun impl_run :: "limiter_op list \<Rightarrow> Limiter \<Rightarrow> bool list" where
  "impl_run [] l = []"
| "impl_run (OpAllow c k # ops) l = (case Allow c k l of (b, l') \<Rightarrow> b # impl_run ops l')"
| "impl_run (OpFail now k # ops) l = impl_run ops (RecordFailure now k l)"
| "impl_run (OpSuccess k # ops) l = impl_run ops (RecordSuccess k l)"

fun spec_run :: "int \<Rightarrow> duration \<Rightarrow> duration \<Rightarrow> limiter_op list \<Rightarrow> (string \<rightharpoonup> attemptState) \<Rightarrow> bool list" where
  "spec_run mf w lo [] m = []"
| "spec_run mf w lo (OpAllow c k # ops) m =
     (\<not> locked (check_now c) (m k)) # spec_run mf w lo ops m"
| "spec_run mf w lo (OpFail now k # ops) m =
     spec_run mf w lo ops (m(k \<mapsto> fail_entry mf w lo now (m k)))"
| "spec_run mf w lo (OpSuccess k # ops) m = spec_run mf w lo ops (m(k := None))"

text \<open>The clock does not go back: each reading is at or after the ones before it.\<close>

fun clock_mono :: "time \<Rightarrow> limiter_op list \<Rightarrow> bool" where
  "clock_mono t [] = True"
| "clock_mono t (OpAllow c k # ops) =
     (t \<le> sweep_now c \<and> (\<forall>key. sweep_now c \<le> entry_now c key \<and> entry_now c key \<le> check_now c)
      \<and> clock_mono (check_now c) ops)"
| "clock_mono t (OpFail now k # ops) = (t \<le> now \<and> clock_mono now ops)"
| "clock_mono t (OpSuccess k # ops) = clock_mono t ops"

text \<open>An entry that can no longer influence any answer at or after \<open>t\<close>.\<close>

definition dead :: "duration \<Rightarrow> time \<Rightarrow> attemptState \<Rightarrow> bool" where
  "dead w t s \<longleftrightarrow> windowStart s + w < t \<and> lockedUntil s \<le> t"

definition sane_durations :: "duration \<Rightarrow> duration \<Rightarrow> bool" where
  "sane_durations w lo \<longleftrightarrow> 0 \<le> w \<and> 0 \<le> lo \<and> w + lo * 32 < 2 ^ 63 - 1"

definition sweep_rel :: "time \<Rightarrow> Limiter \<Rightarrow> (string \<rightharpoonup> attemptState) \<Rightarrow> bool" where
  "sweep_rel t l m \<longleftrightarrow>
     (\<forall>k. state l k = m k \<or> (state l k = None \<and> (\<exists>s. m k = Some s \<and> dead (window l) t s)))
     \<and> (\<forall>k s. m k = Some s \<longrightarrow> windowStart s \<le> lastActivity s \<and> lastActivity s \<le> t)"

lemma dead_mono: "dead w t s \<Longrightarrow> t \<le> t' \<Longrightarrow> dead w t' s"
  by (simp add: dead_def)

lemma dead_not_locked: "dead w t s \<Longrightarrow> t \<le> now \<Longrightarrow> \<not> locked now (Some s)"
  by (simp add: dead_def locked_def)

lemma dead_fail_entry:
  assumes "dead w t s" and "t \<le> now" and "sane_durations w lo"
  shows "fail_entry mf w lo now (Some s) = fail_entry mf w lo now None"
proof -
  have "now - windowStart s > w" using assms(1,2) by (simp add: dead_def)
  then have "time_Sub now (windowStart s) > w"
    using assms(3) by (simp add: time_Sub_def sane_durations_def)
  then show ?thesis by (simp add: fail_entry_def)
qed

lemma fail_entry_times:
  assumes "\<And>s. e = Some s \<Longrightarrow> windowStart s \<le> now"
  shows "windowStart (fail_entry mf w lo now e) \<le> lastActivity (fail_entry mf w lo now e)
    \<and> lastActivity (fail_entry mf w lo now e) \<le> now"
  using assms by (auto simp: fail_entry_def fresh_attempt_def Let_def split: option.splits)

lemma sweep_rel_mono: "sweep_rel t l m \<Longrightarrow> t \<le> t' \<Longrightarrow> sweep_rel t' l m"
  unfolding sweep_rel_def by (meson dead_mono order_trans)

lemma sweep_rel_locked:
  "sweep_rel t l m \<Longrightarrow> t \<le> now \<Longrightarrow> locked now (state l k) = locked now (m k)"
  unfolding sweep_rel_def by (metis dead_not_locked locked_def option.simps(4))

lemma sweep_state:
  "state (sweepOccasionally c l) k = state l k \<or>
   state (sweepOccasionally c l) k = None \<and>
     (\<exists>s. state l k = Some s \<and> lockedUntil s < entry_now c k
        \<and> lastActivity s < sweep_now c + wrap64 (- wrap64 (window l + wrap64 (lockout l * 32))))"
  by (auto simp: sweepOccasionally_def Let_def split: option.splits)

lemma swept_dead:
  assumes "sane_durations w lo" and "windowStart s \<le> lastActivity s"
    and "lastActivity s < t0 + wrap64 (- wrap64 (w + wrap64 (lo * 32)))"
    and "lockedUntil s < t1" and "t0 \<le> t" and "t1 \<le> t"
  shows "dead w t s"
proof -
  have "wrap64 (lo * 32) = lo * 32" "wrap64 (w + lo * 32) = w + lo * 32"
    "wrap64 (- (w + lo * 32)) = - (w + lo * 32)"
    using assms(1) by (auto simp: sane_durations_def intro!: wrap64_id)
  then have "lastActivity s < t0 - (w + lo * 32)" using assms(3) by simp
  then have "windowStart s + w + lo * 32 < t0" using assms(2) by linarith
  moreover have "0 \<le> lo * 32" using assms(1) by (simp add: sane_durations_def)
  ultimately show ?thesis using assms(4-6) by (simp add: dead_def)
qed

lemma sweep_rel_sweep:
  assumes "sweep_rel t l m" and "sane_durations (window l) (lockout l)" and "t \<le> sweep_now c"
    and "\<forall>key. sweep_now c \<le> entry_now c key \<and> entry_now c key \<le> check_now c"
  shows "sweep_rel (check_now c) (sweepOccasionally c l) m"
proof -
  have tc: "t \<le> check_now c" "sweep_now c \<le> check_now c"
    using assms(3,4) by (metis order_trans)+
  have r: "sweep_rel (check_now c) l m" using assms(1) tc(1) by (rule sweep_rel_mono)
  have "state (sweepOccasionally c l) k = m k \<or>
      state (sweepOccasionally c l) k = None \<and> (\<exists>s. m k = Some s \<and> dead (window l) (check_now c) s)" for k
  proof (cases "state (sweepOccasionally c l) k = state l k")
    case True
    with r show ?thesis by (auto simp: sweep_rel_def)
  next
    case False
    then obtain s where s: "state (sweepOccasionally c l) k = None" "state l k = Some s"
      "lockedUntil s < entry_now c k"
      "lastActivity s < sweep_now c + wrap64 (- wrap64 (window l + wrap64 (lockout l * 32)))"
      using sweep_state [of c l k] by blast
    with r have m: "m k = Some s" unfolding sweep_rel_def by (metis option.distinct(1))
    with r have "windowStart s \<le> lastActivity s" by (auto simp: sweep_rel_def)
    from swept_dead [OF assms(2) this s(4,3) tc(2)] assms(4) m s(1) show ?thesis by blast
  qed
  with r show ?thesis by (auto simp: sweep_rel_def)
qed

lemma sweep_rel_fail:
  assumes "sweep_rel t l m" and "sane_durations (window l) (lockout l)" and "t \<le> now"
  shows "sweep_rel now (RecordFailure now k l)
    (m(k \<mapsto> fail_entry (maxFailures l) (window l) (lockout l) now (m k)))"
proof -
  have r: "sweep_rel now l m" using assms(1,3) by (rule sweep_rel_mono)
  have eq: "fail_entry (maxFailures l) (window l) (lockout l) now (state l k)
      = fail_entry (maxFailures l) (window l) (lockout l) now (m k)"
    using r dead_fail_entry [OF _ order_refl assms(2)] unfolding sweep_rel_def by metis
  have times: "windowStart s \<le> now" if "m k = Some s" for s
    using r that unfolding sweep_rel_def by (meson order_trans)
  have "windowStart (fail_entry (maxFailures l) (window l) (lockout l) now (m k))
      \<le> lastActivity (fail_entry (maxFailures l) (window l) (lockout l) now (m k))
    \<and> lastActivity (fail_entry (maxFailures l) (window l) (lockout l) now (m k)) \<le> now"
    by (rule fail_entry_times) (rule times)
  with r eq show ?thesis
    by (auto simp: sweep_rel_def RecordFailure_eq)
qed

lemma sweep_rel_success: "sweep_rel t l m \<Longrightarrow> sweep_rel t (RecordSuccess k l) (m(k := None))"
  by (auto simp: sweep_rel_def RecordSuccess_def)

lemma impl_spec_run:
  assumes "sweep_rel t l m" and "sane_durations (window l) (lockout l)" and "clock_mono t ops"
  shows "impl_run ops l = spec_run (maxFailures l) (window l) (lockout l) ops m"
  using assms
proof (induction ops arbitrary: t l m)
  case Nil
  then show ?case by simp
next
  case (Cons op ops)
  show ?case
  proof (cases op)
    case (OpAllow c k)
    with Cons.prems have "sweep_rel (check_now c) (sweepOccasionally c l) m"
      by (auto intro: sweep_rel_sweep)
    with Cons OpAllow sweep_rel_locked [OF this order_refl] show ?thesis
      by (simp add: Allow_eq Let_def)
  next
    case (OpFail now k)
    with Cons.prems have "sweep_rel now (RecordFailure now k l)
        (m(k \<mapsto> fail_entry (maxFailures l) (window l) (lockout l) now (m k)))"
      by (auto intro: sweep_rel_fail)
    from Cons.IH [OF this] Cons.prems OpFail show ?thesis by (simp del: fun_upd_apply)
  next
    case (OpSuccess k)
    from Cons.IH [OF sweep_rel_success [OF Cons.prems(1), of k]] Cons.prems OpSuccess
    show ?thesis by (simp del: fun_upd_apply)
  qed
qed

text \<open>
  (C14) The sweep of stale entries is unobservable: on every sequence of \<open>Allow\<close>,
  \<open>RecordFailure\<close> and \<open>RecordSuccess\<close> calls whose clock readings do not go back,
  the limiter gives exactly the answers of one that keeps every entry for ever.
\<close>

theorem limiter_refines_unswept:
  assumes "sane_durations w lo" and "clock_mono 0 ops"
  shows "impl_run ops (NewLimiter mf w lo) = spec_run mf w lo ops Map.empty"
proof -
  have "sweep_rel 0 (NewLimiter mf w lo) Map.empty"
    by (simp add: sweep_rel_def NewLimiter_def)
  from impl_spec_run [OF this] assms show ?thesis
    by (simp add: NewLimiter_def)
qed

definition example_clock :: "time \<Rightarrow> allow_clock" where
  "example_clock t = \<lparr>sweep_now = t, entry_now = (\<lambda>_. t), check_now = t\<rparr>"

theorem limiter_refines_unswept_witness:
  "impl_run [OpFail 5 ''x'', OpFail 6 ''x'', OpAllow (example_clock 8) ''x'', OpAllow (example_clock 17) ''x'']
     (NewLimiter 2 60 10) = [False, True]"
proof -
  have a: "sane_durations 60 10" by (simp add: sane_durations_def)
  have b: "clock_mono 0 [OpFail 5 ''x'', OpFail 6 ''x'', OpAllow (example_clock 8) ''x'',
      OpAllow (example_clock 17) ''x'']"
    by (simp add: example_clock_def)
  show ?thesis
    unfolding limiter_refines_unswept [OF a b]
    by (simp add: locked_def fail_entry_def fresh_attempt_def time_Sub_def example_clock_def)
qed

section \<open>Progressive lockout\<close>

lemma Allow_answer:
  "entry_now c k \<le> check_now c \<Longrightarrow> fst (Allow c k l) = (\<not> locked (check_now c) (state l k))"
  using sweep_state [of c l k] by (auto simp: Allow_eq Let_def locked_def)

lemma fail_entry_within:
  assumes "now - windowStart s \<le> w" and "sane_durations w lo"
  shows "fail_entry mf w lo now (Some s) =
    (let n = failures s + 1
     in s\<lparr>failures := n, lastActivity := now,
          lockedUntil := (if n \<ge> mf then now + lo * min 32 (n - mf + 1) else lockedUntil s)\<rparr>)"
proof -
  have "\<not> time_Sub now (windowStart s) > w"
    using assms by (auto simp: time_Sub_def sane_durations_def)
  moreover have wr: "wrap64 (lo * min 32 (n - mf + 1)) = lo * min 32 (n - mf + 1)" if "n \<ge> mf" for n
  proof (rule wrap64_id)
    have m: "0 \<le> min 32 (n - mf + 1)" "min 32 (n - mf + 1) \<le> 32" using that by auto
    have "0 \<le> lo" using assms(2) by (simp add: sane_durations_def)
    with m have "0 \<le> lo * min 32 (n - mf + 1)" "lo * min 32 (n - mf + 1) \<le> lo * 32"
      by (simp_all add: mult_left_mono)
    then show "- (2 ^ 63) \<le> lo * min 32 (n - mf + 1)" "lo * min 32 (n - mf + 1) < 2 ^ 63"
      using assms(2) by (auto simp: sane_durations_def)
  qed
  ultimately show ?thesis
    using wr [of "failures s + 1"] by (simp add: fail_entry_def Let_def)
qed

lemma fail_entry_None:
  "fail_entry mf w lo now None = fail_entry mf w lo now (Some (fresh_attempt now))"
  by (simp add: fail_entry_def)

text \<open>The entry of a key after failures at the times \<open>ts\<close>, all within one window.\<close>

definition failed_entry :: "int \<Rightarrow> duration \<Rightarrow> time list \<Rightarrow> attemptState" where
  "failed_entry mf lo ts =
     \<lparr>failures = int (length ts), windowStart = hd ts,
      lockedUntil = (if int (length ts) \<ge> mf
         then last ts + lo * min 32 (int (length ts) - mf + 1) else zero_time),
      lastActivity = last ts\<rparr>"

lemma failed_entry_snoc:
  assumes "sane_durations w lo" and "1 \<le> mf" and "t - hd (ts @ [t]) \<le> w"
  shows "fail_entry mf w lo t (if ts = [] then None else Some (failed_entry mf lo ts))
    = failed_entry mf lo (ts @ [t])"
proof (cases "ts = []")
  case True
  with assms show ?thesis
    by (simp add: fail_entry_None fail_entry_within fresh_attempt_def failed_entry_def Let_def
        sane_durations_def)
next
  case False
  with assms show ?thesis
    by (auto simp: fail_entry_within failed_entry_def Let_def)
qed

lemma fail_run_entry:
  assumes "sane_durations w lo" and "1 \<le> mf" and "\<forall>t \<in> set ts. t - hd ts \<le> w"
  shows "state (fold (\<lambda>t. RecordFailure t k) ts (NewLimiter mf w lo)) k
      = (if ts = [] then None else Some (failed_entry mf lo ts))
    \<and> maxFailures (fold (\<lambda>t. RecordFailure t k) ts (NewLimiter mf w lo)) = mf
    \<and> window (fold (\<lambda>t. RecordFailure t k) ts (NewLimiter mf w lo)) = w
    \<and> lockout (fold (\<lambda>t. RecordFailure t k) ts (NewLimiter mf w lo)) = lo"
  using assms(3)
proof (induction ts rule: rev_induct)
  case Nil
  then show ?case by (simp add: NewLimiter_def)
next
  case (snoc t ts)
  have "\<forall>t \<in> set ts. t - hd ts \<le> w" using snoc.prems by (cases ts) auto
  with snoc.IH have IH: "state (fold (\<lambda>t. RecordFailure t k) ts (NewLimiter mf w lo)) k
      = (if ts = [] then None else Some (failed_entry mf lo ts))"
    "maxFailures (fold (\<lambda>t. RecordFailure t k) ts (NewLimiter mf w lo)) = mf"
    "window (fold (\<lambda>t. RecordFailure t k) ts (NewLimiter mf w lo)) = w"
    "lockout (fold (\<lambda>t. RecordFailure t k) ts (NewLimiter mf w lo)) = lo"
    by blast+
  have "fail_entry mf w lo t (if ts = [] then None else Some (failed_entry mf lo ts))
      = failed_entry mf lo (ts @ [t])"
    using snoc.prems by (intro failed_entry_snoc assms(1,2)) simp
  with IH show ?case by (simp add: state_RecordFailure)
qed

lemma failed_entry_locked:
  assumes "sane_durations w lo" and "1 \<le> mf" and "0 < last ts"
  shows "locked now (Some (failed_entry mf lo ts)) \<longleftrightarrow>
    mf \<le> int (length ts) \<and> now < last ts + lo * min 32 (int (length ts) - mf + 1)"
proof -
  have "0 \<le> lo * min 32 (int (length ts) - mf + 1)" if "mf \<le> int (length ts)"
    using assms(1) that by (simp add: sane_durations_def)
  with assms(3) show ?thesis by (auto simp: locked_def failed_entry_def)
qed

text \<open>
  Progressive lockout: after failures at the times \<open>ts\<close>, all within one window, the key
  stays admitted below \<open>maxFailures\<close>; from then on each further failure adds one more
  lockout period counted from the last failure, up to 32 periods, and \<open>Allow\<close> refuses the
  key exactly until that moment, whether or not the call sweeps.
\<close>

theorem lockout_progressive:
  assumes "sane_durations w lo" and "1 \<le> mf" and "ts \<noteq> []"
    and "\<forall>t \<in> set ts. t - hd ts \<le> w" and "0 < last ts" and "entry_now c k \<le> check_now c"
  shows "fst (Allow c k (fold (\<lambda>t. RecordFailure t k) ts (NewLimiter mf w lo))) \<longleftrightarrow>
    int (length ts) < mf \<or> last ts + lo * min 32 (int (length ts) - mf + 1) \<le> check_now c"
  using fail_run_entry [OF assms(1,2,4), of k] assms
  by (auto simp: Allow_answer failed_entry_locked)

theorem lockout_progressive_witness:
  "\<not> fst (Allow (example_clock 13) ''ip'' (fold (\<lambda>t. RecordFailure t ''ip'') [1, 2, 3, 4, 5] (NewLimiter 5 60 10)))
   \<and> fst (Allow (example_clock 15) ''ip'' (fold (\<lambda>t. RecordFailure t ''ip'') [1, 2, 3, 4, 5] (NewLimiter 5 60 10)))"
proof -
  have a: "sane_durations 60 10" by (simp add: sane_durations_def)
  have b: "\<forall>t \<in> set [1, 2, 3, 4, 5 :: time]. t - hd [1, 2, 3, 4, 5] \<le> 60" by simp
  have c: "entry_now (example_clock t) k \<le> check_now (example_clock t)" for t k
    by (simp add: example_clock_def)
  show ?thesis
    using lockout_progressive [OF a _ _ b _ c [of 13 "''ip''"], of 5]
      lockout_progressive [OF a _ _ b _ c [of 15 "''ip''"], of 5]
    by (simp add: example_clock_def)
qed

section \<open>Authentication\<close>

text \<open>An authenticator with one user, for which bcrypt is equality, and the clock readings of an attempt.\<close>

definition example_store :: Store where
  "example_store = NewStore [\<lparr>Username = ''ana'', PasswordHash = ''secret''\<rparr>]"

definition example_attempt :: "time \<Rightarrow> auth_clock" where
  "example_attempt t = \<lparr>ip_clock = example_clock t, user_clock = example_clock t, ip_fail = t, user_fail = t\<rparr>"

definition example_auth :: Authenticator where
  "example_auth = NewAuthenticator example_store (NewLimiter 2 60 10) (NewLimiter 2 60 10)"

text \<open>
  (C18) No user enumeration: whatever two stores hold (one may know the user and the other not)
  and whatever two passwords are tried, if both attempts fail then the client gets the same error
  and both limiters end in the same state; an unknown user and a wrong password cannot be told
  apart, now or by any later answer.
\<close>

theorem Authenticate_no_enumeration:
  assumes "Authenticate bcrypt dummy c ip user pw1 (a\<lparr>store := st1\<rparr>) = (Some e1, a1)"
    and "Authenticate bcrypt dummy c ip user pw2 (a\<lparr>store := st2\<rparr>) = (Some e2, a2)"
  shows "e1 = e2 \<and> byIP a1 = byIP a2 \<and> byUser a1 = byUser a2"
  using assms
  by (auto simp: Authenticate_def Let_def split: prod.splits bool.splits if_splits)

theorem Authenticate_no_enumeration_witness:
  "let known = Authenticate (=) ''-'' (example_attempt 5) ''10.0.0.1'' ''ana'' ''wrong'' example_auth;
       unknown = Authenticate (=) ''-'' (example_attempt 5) ''10.0.0.1'' ''ana'' ''guess'' (example_auth\<lparr>store := NewStore []\<rparr>)
   in fst known = fst unknown \<and> byIP (snd known) = byIP (snd unknown) \<and> byUser (snd known) = byUser (snd unknown)"
proof -
  have e: "example_auth\<lparr>store := example_store\<rparr> = example_auth" by (simp add: example_auth_def NewAuthenticator_def)
  have "fst (Authenticate (=) ''-'' (example_attempt 5) ''10.0.0.1'' ''ana'' ''wrong'' example_auth) = Some ErrInvalidCredentials"
    "fst (Authenticate (=) ''-'' (example_attempt 5) ''10.0.0.1'' ''ana'' ''guess'' (example_auth\<lparr>store := NewStore []\<rparr>)) = Some ErrInvalidCredentials"
    by code_simp+
  then obtain a1 a2 where
    r: "Authenticate (=) ''-'' (example_attempt 5) ''10.0.0.1'' ''ana'' ''wrong'' (example_auth\<lparr>store := example_store\<rparr>) = (Some ErrInvalidCredentials, a1)"
    "Authenticate (=) ''-'' (example_attempt 5) ''10.0.0.1'' ''ana'' ''guess'' (example_auth\<lparr>store := NewStore []\<rparr>) = (Some ErrInvalidCredentials, a2)"
    unfolding e by (metis prod.collapse)
  from Authenticate_no_enumeration [OF r] r show ?thesis by (simp add: e Let_def)
qed

lemma Authenticate_cases:
  assumes "entry_now (ip_clock c) ip \<le> check_now (ip_clock c)"
    and "entry_now (user_clock c) user \<le> check_now (user_clock c)"
  shows "fst (Authenticate bcrypt dummy c ip user pw a) =
    (if locked (check_now (ip_clock c)) (state (byIP a) ip)
        \<or> locked (check_now (user_clock c)) (state (byUser a) user) then Some ErrRateLimited
     else if \<exists>r. store a user = Some r \<and> bcrypt (PasswordHash r) pw then None
     else Some ErrInvalidCredentials)"
  using Allow_answer [OF assms(1), of "byIP a"] Allow_answer [OF assms(2), of "byUser a"]
  by (auto simp: Authenticate_def Lookup_def Let_def split: prod.splits bool.splits option.splits)

text \<open>The password behind the dummy hash opens nothing, although bcrypt accepts it for that hash.\<close>

lemma dummy_password_rejected:
  assumes "dummyHash gen = Some dummy" and "bcrypt dummy ''ftp2sftp-dummy-comparison-only''" and "store a user = None"
    and "entry_now (ip_clock c) ip \<le> check_now (ip_clock c)" and "entry_now (user_clock c) user \<le> check_now (user_clock c)"
  shows "fst (Authenticate bcrypt dummy c ip user ''ftp2sftp-dummy-comparison-only'' a) \<in> {Some ErrRateLimited, Some ErrInvalidCredentials}"
  using Authenticate_cases [OF assms(4,5)] assms(3) by simp

text \<open>
  (C17) Functional behaviour of \<open>Authenticate\<close> on every branch: while the address or the user
  name is locked out the attempt is refused without looking at the credentials; otherwise it
  succeeds exactly when the store has the user and bcrypt accepts the password for the stored
  hash, and then both failure counters are cleared; every other attempt is the one generic
  error.
\<close>

theorem Authenticate_outcome:
  assumes "entry_now (ip_clock c) ip \<le> check_now (ip_clock c)"
    and "entry_now (user_clock c) user \<le> check_now (user_clock c)"
    and "Authenticate bcrypt dummy c ip user pw a = (r, a')"
  shows "r = (if locked (check_now (ip_clock c)) (state (byIP a) ip)
        \<or> locked (check_now (user_clock c)) (state (byUser a) user) then Some ErrRateLimited
     else if \<exists>u. store a user = Some u \<and> bcrypt (PasswordHash u) pw then None
     else Some ErrInvalidCredentials)
   \<and> (r = None \<longrightarrow> state (byIP a') ip = None \<and> state (byUser a') user = None)
   \<and> store a' = store a"
proof -
  have "store a' = store a"
    using assms(3) by (auto simp: Authenticate_def Let_def split: prod.splits bool.splits if_splits)
  moreover have "state (byIP a') ip = None \<and> state (byUser a') user = None" if "r = None"
    using assms(3) that
    by (auto simp: Authenticate_def Let_def RecordSuccess_def split: prod.splits bool.splits if_splits)
  ultimately show ?thesis
    using Authenticate_cases [OF assms(1,2), of bcrypt dummy pw a] assms(3) by simp
qed

lemma example_attempt_ordered:
  "entry_now (ip_clock (example_attempt t)) k \<le> check_now (ip_clock (example_attempt t))"
  "entry_now (user_clock (example_attempt t)) k \<le> check_now (user_clock (example_attempt t))"
  by (simp_all add: example_attempt_def example_clock_def)

theorem Authenticate_outcome_witness:
  "fst (Authenticate (=) ''-'' (example_attempt 5) ''10.0.0.1'' ''ana'' ''secret'' example_auth) = None
   \<and> fst (Authenticate (=) ''-'' (example_attempt 5) ''10.0.0.1'' ''ana'' ''wrong'' example_auth) = Some ErrInvalidCredentials"
proof -
  note o = Authenticate_outcome [OF example_attempt_ordered(1) [of 5 "''10.0.0.1''"] example_attempt_ordered(2) [of 5 "''ana''"]
    prod.collapse [symmetric], where bcrypt = "(=)" and dummy = "''-''" and a = example_auth]
  show ?thesis
    using o [of "''secret''"] o [of "''wrong''"]
    by (simp add: example_auth_def NewAuthenticator_def NewLimiter_def example_store_def NewStore_def locked_def)
qed

section \<open>Lockouts end\<close>

text \<open>A history of attempts, from any addresses and with any credentials.\<close>

fun auth_history :: "(string \<Rightarrow> string \<Rightarrow> bool) \<Rightarrow> string \<Rightarrow> (auth_clock \<times> string \<times> string \<times> string) list
    \<Rightarrow> Authenticator \<Rightarrow> Authenticator" where
  "auth_history bcrypt dummy [] a = a"
| "auth_history bcrypt dummy ((c, ip, user, pw) # xs) a =
     auth_history bcrypt dummy xs (snd (Authenticate bcrypt dummy c ip user pw a))"

definition free_by :: "time \<Rightarrow> duration \<Rightarrow> duration \<Rightarrow> Limiter \<Rightarrow> bool" where
  "free_by t w lo l \<longleftrightarrow> window l = w \<and> lockout l = lo \<and> (\<forall>k s. state l k = Some s \<longrightarrow> lockedUntil s \<le> t)"

lemma free_by_sweep: "free_by t w lo l \<Longrightarrow> free_by t w lo (sweepOccasionally c l)"
  by (auto simp: free_by_def sweepOccasionally_def Let_def split: option.splits if_splits)

lemma free_by_success: "free_by t w lo l \<Longrightarrow> free_by t w lo (RecordSuccess k l)"
  by (simp add: free_by_def RecordSuccess_def)

lemma lockout_capped:
  assumes "sane_durations w lo" and "1 \<le> m"
  shows "wrap64 (lo * min 32 m) \<le> lo * 32"
proof -
  have "lo * min 32 m \<le> lo * 32" "0 \<le> lo * min 32 m"
    using assms by (auto simp: sane_durations_def intro!: mult_left_mono)
  moreover have "lo * 32 < 2 ^ 63" using assms(1) by (simp add: sane_durations_def)
  ultimately show ?thesis by (simp add: wrap64_id)
qed

lemma fail_entry_free:
  assumes "sane_durations w lo" and "0 \<le> t" and "now + lo * 32 \<le> t" and "\<And>s. e = Some s \<Longrightarrow> lockedUntil s \<le> t"
  shows "lockedUntil (fail_entry mf w lo now e) \<le> t"
proof -
  define s where "s = (case e of None \<Rightarrow> fresh_attempt now | Some s \<Rightarrow> if time_Sub now (windowStart s) > w then fresh_attempt now else s)"
  have s: "lockedUntil s \<le> t" using assms(2,4) by (auto simp: s_def fresh_attempt_def split: option.splits)
  have f: "fail_entry mf w lo now e = (if failures s + 1 \<ge> mf
      then s\<lparr>failures := failures s + 1, lastActivity := now, lockedUntil := now + wrap64 (lo * min 32 (failures s + 1 - mf + 1))\<rparr>
      else s\<lparr>failures := failures s + 1, lastActivity := now\<rparr>)"
    by (simp add: fail_entry_def s_def [symmetric] Let_def)
  show ?thesis
  proof (cases "failures s + 1 \<ge> mf")
    case True
    then have "wrap64 (lo * min 32 (failures s + 1 - mf + 1)) \<le> lo * 32" by (intro lockout_capped [OF assms(1)]) simp
    with True assms(3) show ?thesis unfolding f by simp
  qed (use s in \<open>simp add: f\<close>)
qed

lemma free_by_failure:
  assumes "free_by t w lo l" and "sane_durations w lo" and "0 \<le> t" and "now + lo * 32 \<le> t"
  shows "free_by t w lo (RecordFailure now k l)"
proof -
  have "lockedUntil (fail_entry (maxFailures l) w lo now (state l k)) \<le> t"
    by (rule fail_entry_free [OF assms(2-4)]) (use assms(1) in \<open>simp add: free_by_def\<close>)
  with assms(1) show ?thesis by (auto simp: free_by_def state_RecordFailure)
qed

lemma free_by_not_locked: "free_by t w lo l \<Longrightarrow> t \<le> now \<Longrightarrow> \<not> locked now (state l k)"
  by (force simp: free_by_def locked_def split: option.splits)

lemma free_by_Allow: "free_by t w lo l \<Longrightarrow> Allow c k l = (b, l') \<Longrightarrow> free_by t w lo l'"
  by (auto simp: Allow_eq Let_def intro: free_by_sweep)

lemma Authenticate_free:
  assumes "free_by t w lo (byIP a)" and "free_by t' w' lo' (byUser a)" and "sane_durations w lo" "sane_durations w' lo'"
    and "0 \<le> t" "0 \<le> t'" "ip_fail c + lo * 32 \<le> t" "user_fail c + lo' * 32 \<le> t'"
    and "Authenticate bcrypt dummy c ip user pw a = (r, a')"
  shows "free_by t w lo (byIP a') \<and> free_by t' w' lo' (byUser a') \<and> store a' = store a"
proof -
  obtain b l where 1: "Allow (ip_clock c) ip (byIP a) = (b, l)" by fastforce
  obtain b' l' where 2: "Allow (user_clock c) user (byUser a) = (b', l')" by fastforce
  note f = free_by_Allow [OF assms(1) 1] free_by_Allow [OF assms(2) 2]
  show ?thesis
    using assms(1,2,9) f free_by_success [OF f(1)] free_by_success [OF f(2)]
      free_by_failure [OF f(1) assms(3,5,7)] free_by_failure [OF f(2) assms(4,6,8)]
    by (auto simp: Authenticate_def 1 2 Let_def split: bool.splits if_splits)
qed

lemma auth_history_free:
  assumes "free_by t w lo (byIP a)" and "free_by t' w' lo' (byUser a)" and "sane_durations w lo" "sane_durations w' lo'"
    and "0 \<le> t" "0 \<le> t'" and "\<forall>x \<in> set xs. ip_fail (fst x) + lo * 32 \<le> t \<and> user_fail (fst x) + lo' * 32 \<le> t'"
  shows "free_by t w lo (byIP (auth_history bcrypt dummy xs a)) \<and> free_by t' w' lo' (byUser (auth_history bcrypt dummy xs a))
    \<and> store (auth_history bcrypt dummy xs a) = store a"
  using assms(1,2,7)
proof (induction bcrypt dummy xs a rule: auth_history.induct)
  case (2 bcrypt dummy c ip user pw xs a)
  note f = Authenticate_free [OF "2.prems"(1,2) assms(3-6) _ _ prod.collapse [symmetric], of c bcrypt dummy ip user pw]
  show ?case using "2.IH" f "2.prems"(3) by simp
qed simp

text \<open>
  (C13) Lockouts end: whatever has been tried before, by whomever and however often, a known user with the
  right password is let in once the longest lockout, thirty-two times the configured one, has passed
  since the last failed attempt. An attempt that is refused because of a lockout does not prolong it.
\<close>

theorem lockout_expires:
  assumes "sane_durations w lo" and "sane_durations w' lo'" and "0 \<le> t"
    and "\<forall>x \<in> set xs. ip_fail (fst x) \<le> t \<and> user_fail (fst x) \<le> t"
    and "t + lo * 32 \<le> check_now (ip_clock c)" and "t + lo' * 32 \<le> check_now (user_clock c)"
    and "entry_now (ip_clock c) ip \<le> check_now (ip_clock c)" and "entry_now (user_clock c) user \<le> check_now (user_clock c)"
    and "st user = Some r" and "bcrypt (PasswordHash r) pw"
  shows "fst (Authenticate bcrypt dummy c ip user pw
    (auth_history bcrypt dummy xs (NewAuthenticator st (NewLimiter mf w lo) (NewLimiter mf' w' lo')))) = None"
proof -
  let ?a = "NewAuthenticator st (NewLimiter mf w lo) (NewLimiter mf' w' lo')"
  let ?h = "auth_history bcrypt dummy xs ?a"
  have "free_by (t + lo * 32) w lo (byIP ?h) \<and> free_by (t + lo' * 32) w' lo' (byUser ?h) \<and> store ?h = store ?a"
    using assms(1-4) by (intro auth_history_free) (auto simp: free_by_def NewAuthenticator_def NewLimiter_def sane_durations_def)
  then show ?thesis
    using Authenticate_cases [OF assms(7,8), of bcrypt dummy pw ?h] free_by_not_locked assms(5,6,9,10)
    by (auto simp: NewAuthenticator_def)
qed

theorem lockout_expires_witness:
  "fst (Authenticate (=) ''-'' (example_attempt 400) ''10.0.0.1'' ''ana'' ''secret''
     (auth_history (=) ''-'' (replicate 5 (example_attempt 5, ''10.0.0.1'', ''ana'', ''guess'')) example_auth)) = None
   \<and> fst (Authenticate (=) ''-'' (example_attempt 6) ''10.0.0.1'' ''ana'' ''secret''
     (auth_history (=) ''-'' (replicate 5 (example_attempt 5, ''10.0.0.1'', ''ana'', ''guess'')) example_auth)) = Some ErrRateLimited"
proof
  let ?xs = "replicate 5 (example_attempt 5, ''10.0.0.1'', ''ana'', ''guess'')"
  have t: "\<forall>x \<in> set ?xs. ip_fail (fst x) \<le> 5 \<and> user_fail (fst x) \<le> 5"
    and c: "5 + 10 * 32 \<le> check_now (ip_clock (example_attempt 400))" "5 + 10 * 32 \<le> check_now (user_clock (example_attempt 400))"
    by (simp_all add: example_attempt_def example_clock_def)
  have d: "sane_durations 60 10" by (simp add: sane_durations_def)
  have s: "example_store ''ana'' = Some \<lparr>Username = ''ana'', PasswordHash = ''secret''\<rparr>" by code_simp
  show "fst (Authenticate (=) ''-'' (example_attempt 400) ''10.0.0.1'' ''ana'' ''secret'' (auth_history (=) ''-'' ?xs example_auth)) = None"
    unfolding example_auth_def
    by (rule lockout_expires [where t = 5 and r = "\<lparr>Username = ''ana'', PasswordHash = ''secret''\<rparr>"]) (use d t c s example_attempt_ordered in simp_all)
  show "fst (Authenticate (=) ''-'' (example_attempt 6) ''10.0.0.1'' ''ana'' ''secret'' (auth_history (=) ''-'' ?xs example_auth)) = Some ErrRateLimited"
    by code_simp
qed

text \<open>A run of attempts from one address.\<close>

fun attempts :: "(string \<Rightarrow> string \<Rightarrow> bool) \<Rightarrow> string \<Rightarrow> string \<Rightarrow> (auth_clock \<times> string \<times> string) list
    \<Rightarrow> Authenticator \<Rightarrow> go_error option list \<times> Authenticator" where
  "attempts bcrypt dummy ip [] a = ([], a)"
| "attempts bcrypt dummy ip ((c, user, pw) # xs) a =
     (case Authenticate bcrypt dummy c ip user pw a of (r, a1) \<Rightarrow>
        case attempts bcrypt dummy ip xs a1 of (rs, a2) \<Rightarrow> (r # rs, a2))"

lemma ErrRateLimited_neq [simp]: "ErrRateLimited \<noteq> ErrInvalidCredentials"
  by (simp add: ErrRateLimited_def ErrInvalidCredentials_def New_def)

definition ip_times :: "(auth_clock \<times> string \<times> string) list \<Rightarrow> time list" where
  "ip_times xs = map (\<lambda>(c, user, pw). ip_fail c) xs"

lemma ip_times_Cons [simp]: "ip_times ((c, u) # xs) = ip_fail c # ip_times xs"
  by (cases u) (simp add: ip_times_def)

lemma ip_times_Nil [simp]: "ip_times [] = []"
  by (simp add: ip_times_def)

lemma length_ip_times [simp]: "length (ip_times xs) = length xs"
  by (simp add: ip_times_def)

definition limiter_after :: "int \<Rightarrow> duration \<Rightarrow> duration \<Rightarrow> string \<Rightarrow> time list \<Rightarrow> Limiter \<Rightarrow> bool" where
  "limiter_after mf w lo k ts l \<longleftrightarrow> maxFailures l = mf \<and> window l = w \<and> lockout l = lo
     \<and> state l k = (if ts = [] then None else Some (failed_entry mf lo ts))"

lemma sweep_keeps_active:
  assumes "limiter_after mf w lo k ts l" and "sane_durations w lo"
    and "ts \<noteq> [] \<Longrightarrow> sweep_now c - w \<le> last ts"
  shows "limiter_after mf w lo k ts (sweepOccasionally c l)"
proof (cases "ts = []")
  case True
  with assms(1) sweep_state [of c l k] show ?thesis by (auto simp: limiter_after_def)
next
  case False
  have "0 \<le> w + lo * 32" "w \<le> w + lo * 32" "w + lo * 32 < 2 ^ 63 - 1"
    using assms(2) by (simp_all add: sane_durations_def)
  moreover have "wrap64 (lo * 32) = lo * 32" "wrap64 (w + lo * 32) = w + lo * 32"
    "wrap64 (- (w + lo * 32)) = - (w + lo * 32)"
    using assms(2) by (auto simp: sane_durations_def intro!: wrap64_id)
  ultimately show ?thesis
    using False assms(1,3) sweep_state [of c l k] by (auto simp: limiter_after_def failed_entry_def)
qed

lemma Authenticate_failed_byIP:
  assumes "Authenticate bcrypt dummy c ip user pw a = (Some ErrInvalidCredentials, a')"
  shows "byIP a' = RecordFailure (ip_fail c) ip (sweepOccasionally (ip_clock c) (byIP a))"
  using assms ErrRateLimited_neq
  by (auto simp: Authenticate_def Allow_eq Let_def split: prod.splits bool.splits if_splits)

lemma Authenticate_failed_step:
  assumes "Authenticate bcrypt dummy c ip user pw a = (Some ErrInvalidCredentials, a')"
    and "limiter_after mf w lo ip ts (byIP a)" and "sane_durations w lo" and "1 \<le> mf"
    and "sweep_now (ip_clock c) \<le> ip_fail c" and "ip_fail c - hd (ts @ [ip_fail c]) \<le> w"
    and "ts \<noteq> [] \<Longrightarrow> hd ts \<le> last ts"
  shows "limiter_after mf w lo ip (ts @ [ip_fail c]) (byIP a')"
proof -
  have "limiter_after mf w lo ip ts (sweepOccasionally (ip_clock c) (byIP a))"
    using assms(2,3)
  proof (rule sweep_keeps_active)
    assume "ts \<noteq> []"
    with assms(5-7) show "sweep_now (ip_clock c) - w \<le> last ts" by simp
  qed
  then show ?thesis
    using Authenticate_failed_byIP [OF assms(1)] failed_entry_snoc [OF assms(3,4,6)]
    by (simp add: limiter_after_def state_RecordFailure)
qed

lemma attempts_failed:
  assumes "attempts bcrypt dummy ip xs a = (rs, a')" and "set rs \<subseteq> {Some ErrInvalidCredentials}"
    and "limiter_after mf w lo ip ts (byIP a)" and "sane_durations w lo" and "1 \<le> mf"
    and "\<forall>(c, u) \<in> set xs. sweep_now (ip_clock c) \<le> ip_fail c"
    and "\<forall>t \<in> set (ts @ ip_times xs). hd (ts @ ip_times xs) \<le> t \<and> t - hd (ts @ ip_times xs) \<le> w"
  shows "limiter_after mf w lo ip (ts @ ip_times xs) (byIP a')"
  using assms
proof (induction xs arbitrary: a rs ts)
  case Nil
  then show ?case by simp
next
  case (Cons x xs)
  obtain c user pw where x: "x = (c, user, pw)" by (cases x)
  obtain r a1 where r: "Authenticate bcrypt dummy c ip user pw a = (r, a1)" by fastforce
  obtain rs1 where rs1: "attempts bcrypt dummy ip xs a1 = (rs1, a')" "rs = r # rs1"
    using Cons.prems(1) x r by (auto split: prod.splits)
  have bound: "ip_fail c - hd (ts @ [ip_fail c]) \<le> w" and "ts \<noteq> [] \<Longrightarrow> hd ts \<le> last ts"
    using Cons.prems(7) x by (cases ts; auto)+
  with r rs1(2) Cons.prems x have "limiter_after mf w lo ip (ts @ [ip_fail c]) (byIP a1)"
    by (intro Authenticate_failed_step [of bcrypt dummy c ip user pw a]) auto
  from Cons.IH [OF rs1(1) _ this] Cons.prems rs1(2) x show ?case by simp
qed



end
