(* ===== verification/GatewayCore.thy ===== *)
theory GatewayCore
  imports SftpFs Session SshClient Observability Auth
begin

text \<open>
  The state a running gateway shares between its connections (the \<open>Gateway\<close> struct of
  \<open>internal/ftpserver/gateway.go\<close>), and the parts of the package that the per-connection
  driver calls: metrics and logging, correlation identifiers, \<open>recordTransfer\<close>, and the
  connector that dials a user's SFTP target.

  What never changes after \<open>New\<close> is the record \<open>Gateway\<close>; what does is the record
  \<open>gw_world\<close>, which extends the remote world and the sessions with metrics, log, gates,
  counters and the per-connection extras that the FTP library keeps. The environment's answers
  (random bytes, clock) are streams in the state, read in order.
\<close>

record userRuntime =
  ur_cfg :: UserConfig
  ur_mapper :: Mapper
  ur_policy :: Policy

record Gateway =
  gw_cfg :: Config
  gw_users :: "string \<rightharpoonup> userRuntime"

text \<open>The session in a connection's extra is kept without its connector, which is never called from there.\<close>

record connState =
  cs_admitted :: bool
  cs_sess :: "unit Session option"

record 's gw_world = "'s sess_world" +
  metrics :: Metrics
  log :: "log_record list"
  gates :: "string \<Rightarrow> ConcurrencyGate"
  released :: "nat \<Rightarrow> bool"
  next_release :: nat
  authent :: Authenticator
  activeConnections :: "64 word"
  shuttingDown :: bool
  sessions :: int
  conns :: "nat list"
  extra :: "nat \<Rightarrow> connState option"
  path :: "nat \<Rightarrow> string"
  entropy :: "nat \<Rightarrow> bytes option"
  nanos :: "nat \<Rightarrow> nat"
  draws :: nat
  fallbackCounter :: "64 word"

section \<open>Metrics, log and identifiers\<close>

definition count :: "(Metrics \<Rightarrow> Metrics) \<Rightarrow> (('s, 'm) gw_world_scheme, unit) state" where
  "count f = modify (\<lambda>w. w\<lparr>metrics := f (metrics w)\<rparr>)"

definition emit_log :: "Level \<Rightarrow> string \<Rightarrow> (string \<times> attr) list \<Rightarrow> (('s, 'm) gw_world_scheme, unit) state" where
  "emit_log lvl msg attrs = modify (\<lambda>w. w\<lparr>log := log w @ [\<lparr>log_Level = lvl, log_Message = msg, log_Attrs = attrs\<rparr>]\<rparr>)"

definition draw_id :: "(('s, 'm) gw_world_scheme, string) state" where
  "draw_id = do {
     r \<leftarrow> gets (\<lambda>w. NewCorrelationID (entropy w (draws w)) (nanos w (draws w)) (fallbackCounter w));
     _ \<leftarrow> modify (\<lambda>w. w\<lparr>draws := Suc (draws w), fallbackCounter := snd r\<rparr>);
     return (fst r)
   }"

section \<open>recordTransfer\<close>

fun phase_string :: "Phase \<Rightarrow> string" where
  "phase_string PhaseNone = []"
| "phase_string PhaseStarted = ''started''"
| "phase_string PhaseWritten = ''written''"
| "phase_string PhaseCommitted = ''committed''"
| "phase_string PhaseFailed = ''failed''"

definition transfer_attrs :: "string \<Rightarrow> 'c Session \<Rightarrow> Result \<Rightarrow> (string \<times> attr) list" where
  "transfer_attrs command sess r =
     [(''sessionId'', AString (SessionID r)), (''transferId'', AString (TransferID r)),
      (''ftpUser'', AString (s_username sess)), (''clientIp'', AString (s_clientIP sess)),
      (''command'', AString command), (''virtualPath'', AString (VirtualPath r)),
      (''remotePath'', AString (RemotePath r)), (''bytes'', AInt (Bytes r)),
      (''phase'', AString (phase_string (Phase r)))]
     @ (if SHA256 r \<noteq> [] then [(''sha256'', AString (SHA256 r))] else [])"

definition recordTransfer :: "string \<Rightarrow> 'c Session \<Rightarrow> Result \<Rightarrow> (('s, 'm) gw_world_scheme, unit) state" where
  "recordTransfer command sess r = do {
     _ \<leftarrow> (if command = ''STOR''
           then count (\<lambda>m. m\<lparr>TemporaryFilesPending := Dec (TemporaryFilesPending m)\<rparr>) else return ());
     _ \<leftarrow> count (\<lambda>m. m\<lparr>TransferBytesTotal := Add (TransferBytesTotal m) (word_of_int (Bytes r))\<rparr>);
     if Phase r = PhaseFailed then do {
       _ \<leftarrow> count (\<lambda>m. m\<lparr>TransferFailuresTotal := Inc (TransferFailuresTotal m)\<rparr>);
       emit_log LevelError ''transfer failed'' (transfer_attrs command sess r
         @ (case Err r of Some e \<Rightarrow> [(''err'', AString (Error e))] | None \<Rightarrow> []))
     } else emit_log LevelInfo ''transfer completed'' (transfer_attrs command sess r)
   }"

section \<open>The connector\<close>

definition ssh_config :: "SFTPTargetConfig \<Rightarrow> duration \<Rightarrow> SSHConfig" where
  "ssh_config t timeout = \<lparr>ssh_Host = st_Host t, ssh_Port = st_Port t, ssh_Username = st_Username t,
     ssh_PrivateKeyFile = st_PrivateKeyFile t, ssh_PrivateKeyPassphraseFile = st_PrivateKeyPassphraseFile t,
     ssh_Password = st_Password t, ssh_KnownHostsFile = st_KnownHostsFile t, ssh_ConnectTimeout = timeout\<rparr>"

definition connector :: "'s ssh_lib \<Rightarrow> 's sftp_lib \<Rightarrow> userRuntime \<Rightarrow> (('s, 'm) gw_world_scheme, Client result) state" where
  "connector K L u = do {
     sshClient \<leftarrow> Dial K (ssh_config (uc_SFTP (ur_cfg u)) (st_ConnectTimeout (uc_SFTP (ur_cfg u))));
     case sshClient of
       Inl err \<Rightarrow> do {
         _ \<leftarrow> count (\<lambda>m. m\<lparr>SFTPConnectionFailuresTotal := Inc (SFTPConnectionFailuresTotal m)\<rparr>);
         return (Inl err)
       }
     | Inr h \<Rightarrow> do {
         client \<leftarrow> New_Client L h (st_RootPath (uc_SFTP (ur_cfg u)));
         case client of
           Inl err \<Rightarrow> do {
             _ \<leftarrow> count (\<lambda>m. m\<lparr>SFTPConnectionFailuresTotal := Inc (SFTPConnectionFailuresTotal m)\<rparr>);
             return (Inl err)
           }
         | Inr c \<Rightarrow> do {
             _ \<leftarrow> count (\<lambda>m. m\<lparr>SFTPConnectionsActive := Inc (SFTPConnectionsActive m)\<rparr>);
             return (Inr c)
           }
       }
   }"

section \<open>Library facts\<close>

lemma emits_count [emits_rules]: "emits wire P (count f)"
  unfolding count_def by (intro emits_rules) simp

lemma emits_emit_log [emits_rules]: "emits wire P (emit_log lvl msg attrs)"
  unfolding emit_log_def by (intro emits_rules) simp

lemma emits_draw_id [emits_rules]: "emits wire P draw_id"
  unfolding draw_id_def by (intro emits_rules) simp

lemma emits_recordTransfer [emits_rules]: "emits wire P (recordTransfer c s r)"
  unfolding recordTransfer_def by (intro emits_rules)

lemma run_count [simp]: "run_state (count f) w = ((), w\<lparr>metrics := f (metrics w)\<rparr>)"
  by (simp add: count_def)

lemma run_emit_log [simp]:
  "run_state (emit_log lvl msg attrs) w = ((), w\<lparr>log := log w @ [\<lparr>log_Level = lvl, log_Message = msg, log_Attrs = attrs\<rparr>]\<rparr>)"
  by (simp add: emit_log_def)

lemma emits_connector [emits_rules]:
  assumes "\<And>a t. P (DialTCP a t)" and "\<And>a u h t. P (Handshake a u h t)" and "P CloseConn"
    and "P OpenSFTP" and "P CloseSSH"
  shows "emits wire P (connector K L u)"
  unfolding connector_def by (intro emits_rules assms)

lemma draw_id_no_slash: "run_state draw_id w = (i, w') \<Longrightarrow> slash \<notin> set i"
  using NewCorrelationID_no_slash by (auto simp: draw_id_def)

text \<open>A client made by the connector is confined to the remote root of the user's mapper.\<close>

lemma connector_root:
  assumes "run_state (connector K L u) w = (Inr c, w')"
  shows "root c = cleanRoot (st_RootPath (uc_SFTP (ur_cfg u)))"
  using assms
  by (auto simp: connector_def New_Client_def cleanRoot_def path_Clean_def run_send split: prod.splits sum.splits)

end
