(* ===== verification/ClientDriver.thy ===== *)
theory ClientDriver
  imports GatewayCore
begin

text \<open>
  \<open>internal/ftpserver/clientdriver.go\<close>: the driver of one authenticated FTP connection,
  which turns the commands of the FTP library into policy checks and SFTP operations. Each method
  is a computation over the gateway's state; \<open>L\<close> is the SFTP library, \<open>gw\<close> and
  \<open>s\<close> the fields of the struct. Directory modes and offsets the methods ignore are left out.

  The theorems are the security argument of the gateway, over whole runs of a connection: every
  request confined to the user's remote root, every request covered by a permission of the user,
  and temporary files hidden from listings.
\<close>

type_synonym ('s, 'm) driver_session = "(('s, 'm) gw_world_scheme, Client result) state Session"

definition errNotImplemented :: go_error where
  "errNotImplemented = New KindUnsupportedCommand ''ftpserver.ClientDriver'' (''operaci'' @ o_acute @ ''n no soportada'')"

definition resolveAndContain :: "'c Session \<Rightarrow> string \<Rightarrow> string result" where
  "resolveAndContain s name = ResolveVirtual (s_mapper s) ''/'' name"

definition remotePath :: "'c Session \<Rightarrow> string \<Rightarrow> (string \<times> string) result" where
  "remotePath s name =
     (case resolveAndContain s name of
        Inl err \<Rightarrow> Inl err
      | Inr virtualPath \<Rightarrow>
          (case ToRemote (s_mapper s) virtualPath of
             Inl err \<Rightarrow> Inl err
           | Inr rpath \<Rightarrow> Inr (virtualPath, rpath)))"

definition driver_sftp :: "('s, 'm) driver_session \<Rightarrow> (('s, 'm) gw_world_scheme, Client result) state" where
  "driver_sftp s = Session_SFTP s"

definition maybeInvalidate ::
  "'s sftp_lib \<Rightarrow> 'c Session \<Rightarrow> go_error option \<Rightarrow> (('s, 'm) gw_world_scheme, unit) state" where
  "maybeInvalidate L s err =
     (case err of
        None \<Rightarrow> return ()
      | Some e \<Rightarrow>
          if KindOf e \<in> {KindSSHConnection, KindTimeout, KindDisconnected} then do {
            conn \<leftarrow> IsConnected s;
            if conn then do {
              _ \<leftarrow> InvalidateSFTP L s;
              count (\<lambda>m. m\<lparr>SFTPConnectionsActive := Dec (SFTPConnectionsActive m)\<rparr>)
            } else return ()
          } else return ())"

definition audit :: "'c Session \<Rightarrow> string \<Rightarrow> string \<Rightarrow> go_error option \<Rightarrow> (('s, 'm) gw_world_scheme, unit) state" where
  "audit s command virtualPath err = do {
     _ \<leftarrow> count (\<lambda>m. m\<lparr>FTPCommandsTotal := Inc (FTPCommandsTotal m)\<rparr>);
     let attrs = [(''sessionId'', AString (s_id s)), (''ftpUser'', AString (s_username s)),
       (''clientIp'', AString (s_clientIP s)), (''command'', AString command), (''virtualPath'', AString virtualPath)];
     case err of
       Some e \<Rightarrow> emit_log LevelWarn ''command failed'' (attrs @ [(''err'', AString (Error e))])
     | None \<Rightarrow> emit_log LevelInfo ''command completed'' attrs
   }"

section \<open>The file system methods\<close>

text \<open>An error or nil from a result: Go's \<open>err\<close> of a pair.\<close>

definition err_of :: "'a result \<Rightarrow> go_error option" where
  "err_of r = (case r of Inl e \<Rightarrow> Some e | Inr _ \<Rightarrow> None)"

definition driver_Stat ::
  "'s sftp_lib \<Rightarrow> ('s, 'm) driver_session \<Rightarrow> string \<Rightarrow> (('s, 'm) gw_world_scheme, FileInfo result) state" where
  "driver_Stat L s name =
     (case remotePath s name of
        Inl err \<Rightarrow> do { _ \<leftarrow> audit s ''STAT'' name (Some err); return (Inl err) }
      | Inr (virtualPath, rpath) \<Rightarrow> do {
          sc \<leftarrow> driver_sftp s;
          case sc of
            Inl err \<Rightarrow> do { _ \<leftarrow> audit s ''STAT'' virtualPath (Some err); return (Inl err) }
          | Inr sc \<Rightarrow> do {
              info \<leftarrow> Client_Stat L sc rpath;
              _ \<leftarrow> maybeInvalidate L s (err_of info);
              return info
            }
        })"

definition driver_Mkdir ::
  "'s sftp_lib \<Rightarrow> ('s, 'm) driver_session \<Rightarrow> string \<Rightarrow> (('s, 'm) gw_world_scheme, go_error option) state" where
  "driver_Mkdir L s name =
     (case remotePath s name of
        Inl err \<Rightarrow> do { _ \<leftarrow> audit s ''MKD'' name (Some err); return (Some err) }
      | Inr (virtualPath, rpath) \<Rightarrow>
          (case CheckMkdir (s_policy s) of
             Some err \<Rightarrow> do { _ \<leftarrow> audit s ''MKD'' virtualPath (Some err); return (Some err) }
           | None \<Rightarrow> do {
               sc \<leftarrow> driver_sftp s;
               case sc of
                 Inl err \<Rightarrow> do { _ \<leftarrow> audit s ''MKD'' virtualPath (Some err); return (Some err) }
               | Inr sc \<Rightarrow> do {
                   err \<leftarrow> Client_Mkdir L sc rpath;
                   _ \<leftarrow> maybeInvalidate L s err;
                   _ \<leftarrow> audit s ''MKD'' virtualPath err;
                   return err
                 }
             }))"

definition driver_MkdirAll :: "string \<Rightarrow> go_error option" where
  "driver_MkdirAll name = Some errNotImplemented"

definition driver_Remove ::
  "'s sftp_lib \<Rightarrow> ('s, 'm) driver_session \<Rightarrow> string \<Rightarrow> (('s, 'm) gw_world_scheme, go_error option) state" where
  "driver_Remove L s name =
     (case remotePath s name of
        Inl err \<Rightarrow> do { _ \<leftarrow> audit s ''DELE'' name (Some err); return (Some err) }
      | Inr (virtualPath, rpath) \<Rightarrow>
          (case CheckDelete (s_policy s) of
             Some err \<Rightarrow> do { _ \<leftarrow> audit s ''DELE'' virtualPath (Some err); return (Some err) }
           | None \<Rightarrow> do {
               sc \<leftarrow> driver_sftp s;
               case sc of
                 Inl err \<Rightarrow> do { _ \<leftarrow> audit s ''DELE'' virtualPath (Some err); return (Some err) }
               | Inr sc \<Rightarrow> do {
                   err \<leftarrow> Client_Remove L sc rpath;
                   _ \<leftarrow> maybeInvalidate L s err;
                   _ \<leftarrow> audit s ''DELE'' virtualPath err;
                   return err
                 }
             }))"

definition driver_RemoveAll :: "string \<Rightarrow> go_error option" where
  "driver_RemoveAll name = Some errNotImplemented"

definition driver_RemoveDir ::
  "'s sftp_lib \<Rightarrow> ('s, 'm) driver_session \<Rightarrow> string \<Rightarrow> (('s, 'm) gw_world_scheme, go_error option) state" where
  "driver_RemoveDir L s name =
     (case remotePath s name of
        Inl err \<Rightarrow> do { _ \<leftarrow> audit s ''RMD'' name (Some err); return (Some err) }
      | Inr (virtualPath, rpath) \<Rightarrow>
          (case CheckDelete (s_policy s) of
             Some err \<Rightarrow> do { _ \<leftarrow> audit s ''RMD'' virtualPath (Some err); return (Some err) }
           | None \<Rightarrow> do {
               sc \<leftarrow> driver_sftp s;
               case sc of
                 Inl err \<Rightarrow> do { _ \<leftarrow> audit s ''RMD'' virtualPath (Some err); return (Some err) }
               | Inr sc \<Rightarrow> do {
                   err \<leftarrow> Client_RemoveDirectory L sc rpath;
                   _ \<leftarrow> maybeInvalidate L s err;
                   _ \<leftarrow> audit s ''RMD'' virtualPath err;
                   return err
                 }
             }))"

definition driver_Rename ::
  "'s sftp_lib \<Rightarrow> ('s, 'm) driver_session \<Rightarrow> string \<Rightarrow> string \<Rightarrow> (('s, 'm) gw_world_scheme, go_error option) state" where
  "driver_Rename L s oldName newName =
     (case remotePath s oldName of
        Inl err \<Rightarrow> do { _ \<leftarrow> audit s ''RNTO'' (oldName @ '' -> '' @ newName) (Some err); return (Some err) }
      | Inr (oldVirtual, oldRemote) \<Rightarrow>
     (case remotePath s newName of
        Inl err \<Rightarrow> do { _ \<leftarrow> audit s ''RNTO'' (oldVirtual @ '' -> '' @ newName) (Some err); return (Some err) }
      | Inr (newVirtual, newRemote) \<Rightarrow>
     (case CheckRename (s_policy s) of
        Some err \<Rightarrow> do { _ \<leftarrow> audit s ''RNTO'' (oldVirtual @ '' -> '' @ newVirtual) (Some err); return (Some err) }
      | None \<Rightarrow> do {
          sc \<leftarrow> driver_sftp s;
          case sc of
            Inl err \<Rightarrow> do { _ \<leftarrow> audit s ''RNTO'' (oldVirtual @ '' -> '' @ newVirtual) (Some err); return (Some err) }
          | Inr sc \<Rightarrow> do {
              err \<leftarrow> Client_Rename L sc oldRemote newRemote (AllowOverwrite (s_policy s));
              _ \<leftarrow> maybeInvalidate L s err;
              _ \<leftarrow> audit s ''RNTO'' (oldVirtual @ '' -> '' @ newVirtual) err;
              return err
            }
        })))"

text \<open>\<open>Open\<close>, \<open>OpenFile\<close>, \<open>Create\<close>, \<open>Chmod\<close>, \<open>Chown\<close> and \<open>Chtimes\<close>: refused.\<close>

definition driver_unsupported :: "'a result" where
  "driver_unsupported = Inl errNotImplemented"

section \<open>Listing\<close>

definition visible_entries :: "string \<Rightarrow> FileInfo list \<Rightarrow> FileInfo list" where
  "visible_entries marker entries = filter (\<lambda>e. \<not> Contains (info_Name e) marker) entries"

text \<open>
  A nil entry of the map \<open>gw.users\<close> would be a nil pointer dereference; the timeout of an
  unknown user is modelled as 0. Sessions are only made for names in the map.
\<close>

definition readdir_timeout :: "Gateway \<Rightarrow> 'c Session \<Rightarrow> duration" where
  "readdir_timeout gw s = (case gw_users gw (s_username s) of
     Some u \<Rightarrow> st_ReadDirTimeout (uc_SFTP (ur_cfg u)) | None \<Rightarrow> 0)"

definition driver_ReadDir ::
  "'s sftp_lib \<Rightarrow> Gateway \<Rightarrow> ('s, 'm) driver_session \<Rightarrow> string \<Rightarrow> (('s, 'm) gw_world_scheme, FileInfo list result) state" where
  "driver_ReadDir L gw s name =
     (case remotePath s name of
        Inl err \<Rightarrow> do { _ \<leftarrow> audit s ''LIST'' name (Some err); return (Inl err) }
      | Inr (virtualPath, rpath) \<Rightarrow> do {
          sc \<leftarrow> driver_sftp s;
          case sc of
            Inl err \<Rightarrow> do { _ \<leftarrow> audit s ''LIST'' virtualPath (Some err); return (Inl err) }
          | Inr sc \<Rightarrow> do {
              entries \<leftarrow> Client_ReadDir L sc rpath (readdir_timeout gw s);
              _ \<leftarrow> maybeInvalidate L s (err_of entries);
              _ \<leftarrow> audit s ''LIST'' virtualPath (err_of entries);
              case entries of
                Inl err \<Rightarrow> return (Inl err)
              | Inr es \<Rightarrow> return (Inr (visible_entries (tc_TemporarySuffix (cfg_Transfer (gw_cfg gw)) @ ''-'') es))
            }
        })"

section \<open>Transfers\<close>

text \<open>The flags of \<open>GetHandle\<close>: \<open>O_WRONLY\<close> is bit 0, \<open>O_APPEND\<close> bit 10.\<close>

definition writing :: "int \<Rightarrow> bool" where "writing flags = bit flags 0"
definition appending :: "int \<Rightarrow> bool" where "appending flags = bit flags 10"

definition errAppend :: go_error where
  "errAppend = New KindUnsupportedCommand ''ftpserver.GetHandle''
     (''la operaci'' @ o_acute @ ''n APPE no est'' @ a_acute @ '' soportada'')"

definition errTransferLimit :: go_error where
  "errTransferLimit = New KindRateLimited ''ftpserver.GetHandle''
     (''l'' @ i_acute @ ''mite de transferencias concurrentes del usuario alcanzado'')"

text \<open>The gate of the session's user.\<close>

definition gate_TryAcquire :: "'c Session \<Rightarrow> (('s, 'm) gw_world_scheme, bool) state" where
  "gate_TryAcquire s = State (\<lambda>w. case TryAcquire (gates w (s_gate s)) of
     (ok, g) \<Rightarrow> (ok, w\<lparr>gates := (gates w)(s_gate s := g)\<rparr>))"

definition gate_Release :: "'c Session \<Rightarrow> (('s, 'm) gw_world_scheme, unit) state" where
  "gate_Release s = modify (\<lambda>w. w\<lparr>gates := (gates w)(s_gate s := Release (gates w (s_gate s)))\<rparr>)"

text \<open>The closure \<open>release\<close>, with its captured variable \<open>released\<close> in the store.\<close>

definition new_release :: "(('s, 'm) gw_world_scheme, nat) state" where
  "new_release = do {
     i \<leftarrow> gets next_release;
     _ \<leftarrow> modify (\<lambda>w. w\<lparr>next_release := Suc i, released := (released w)(i := False)\<rparr>);
     return i
   }"

definition release :: "'c Session \<Rightarrow> nat \<Rightarrow> (('s, 'm) gw_world_scheme, unit) state" where
  "release s i = do {
     done \<leftarrow> gets (\<lambda>w. released w i);
     if done then return ()
     else do {
       _ \<leftarrow> modify (\<lambda>w. w\<lparr>released := (released w)(i := True)\<rparr>);
       _ \<leftarrow> gate_Release s;
       count (\<lambda>m. m\<lparr>TransferActive := Dec (TransferActive m)\<rparr>)
     }
   }"

definition upload_options ::
  "Gateway \<Rightarrow> 'c Session \<Rightarrow> string \<Rightarrow> string \<Rightarrow> nat \<Rightarrow> ('s, 'm) gw_world_scheme UploadOptions" where
  "upload_options gw s virtualPath transferID rel =
     \<lparr>up_SessionID = s_id s, up_TransferID = transferID, up_VirtualPath = virtualPath,
      up_MaxSize = MaxFileSize (s_policy s), up_Overwrite = AllowOverwrite (s_policy s),
      up_CalculateSHA256 = tc_CalculateSHA256 (cfg_Transfer (gw_cfg gw)),
      up_TemporarySuffix = tc_TemporarySuffix (cfg_Transfer (gw_cfg gw)),
      up_OnComplete = Some (recordTransfer ''STOR'' s), up_Release = Some (release s rel)\<rparr>"

definition download_options ::
  "Gateway \<Rightarrow> 'c Session \<Rightarrow> string \<Rightarrow> string \<Rightarrow> nat \<Rightarrow> ('s, 'm) gw_world_scheme DownloadOptions" where
  "download_options gw s virtualPath transferID rel =
     \<lparr>dn_SessionID = s_id s, dn_TransferID = transferID, dn_VirtualPath = virtualPath,
      dn_CalculateSHA256 = tc_CalculateSHA256 (cfg_Transfer (gw_cfg gw)),
      dn_OnComplete = Some (recordTransfer ''RETR'' s), dn_Release = Some (release s rel)\<rparr>"

definition beginUpload ::
  "'s sftp_lib \<Rightarrow> Gateway \<Rightarrow> ('s, 'm) driver_session \<Rightarrow> Client \<Rightarrow> string \<Rightarrow> string \<Rightarrow> int
     \<Rightarrow> (('s, 'm) gw_world_scheme, ('s, 'm) gw_world_scheme UploadHandle result) state" where
  "beginUpload L gw s sc virtualPath rpath flags =
     (if appending flags then return (Inl errAppend)
      else case CheckUpload (s_policy s) of
        Some err \<Rightarrow> do { _ \<leftarrow> audit s ''STOR'' virtualPath (Some err); return (Inl err) }
      | None \<Rightarrow> do {
          ok \<leftarrow> gate_TryAcquire s;
          if \<not> ok then do {
            _ \<leftarrow> audit s ''STOR'' virtualPath (Some errTransferLimit);
            return (Inl errTransferLimit)
          } else do {
            rel \<leftarrow> new_release;
            _ \<leftarrow> count (\<lambda>m. m\<lparr>TransferActive := Inc (TransferActive m)\<rparr>);
            _ \<leftarrow> count (\<lambda>m. m\<lparr>TransferTotal := Inc (TransferTotal m)\<rparr>);
            _ \<leftarrow> count (\<lambda>m. m\<lparr>TemporaryFilesPending := Inc (TemporaryFilesPending m)\<rparr>);
            transferID \<leftarrow> draw_id;
            upload \<leftarrow> NewUpload (Client_RemoteFS L sc) rpath
              (upload_options gw s virtualPath transferID rel);
            case upload of
              Inl err \<Rightarrow> do {
                _ \<leftarrow> count (\<lambda>m. m\<lparr>TemporaryFilesPending := Dec (TemporaryFilesPending m)\<rparr>);
                _ \<leftarrow> release s rel;
                _ \<leftarrow> audit s ''STOR'' virtualPath (Some err);
                return (Inl err)
              }
            | Inr u \<Rightarrow> return (Inr u)
          }
        })"

definition beginDownload ::
  "'s sftp_lib \<Rightarrow> Gateway \<Rightarrow> ('s, 'm) driver_session \<Rightarrow> Client \<Rightarrow> string \<Rightarrow> string
     \<Rightarrow> (('s, 'm) gw_world_scheme, ('s, 'm) gw_world_scheme DownloadHandle result) state" where
  "beginDownload L gw s sc virtualPath rpath =
     (case CheckDownload (s_policy s) of
        Some err \<Rightarrow> do { _ \<leftarrow> audit s ''RETR'' virtualPath (Some err); return (Inl err) }
      | None \<Rightarrow> do {
          ok \<leftarrow> gate_TryAcquire s;
          if \<not> ok then do {
            _ \<leftarrow> audit s ''RETR'' virtualPath (Some errTransferLimit);
            return (Inl errTransferLimit)
          } else do {
            rel \<leftarrow> new_release;
            _ \<leftarrow> count (\<lambda>m. m\<lparr>TransferActive := Inc (TransferActive m)\<rparr>);
            _ \<leftarrow> count (\<lambda>m. m\<lparr>TransferTotal := Inc (TransferTotal m)\<rparr>);
            transferID \<leftarrow> draw_id;
            download \<leftarrow> NewDownload (Client_RemoteFS L sc) rpath
              (download_options gw s virtualPath transferID rel);
            case download of
              Inl err \<Rightarrow> do {
                _ \<leftarrow> release s rel;
                _ \<leftarrow> audit s ''RETR'' virtualPath (Some err);
                return (Inl err)
              }
            | Inr d \<Rightarrow> return (Inr d)
          }
        })"

datatype 'w FileTransfer = UploadTransfer "'w UploadHandle" | DownloadTransfer "'w DownloadHandle"

definition GetHandle ::
  "'s sftp_lib \<Rightarrow> Gateway \<Rightarrow> ('s, 'm) driver_session \<Rightarrow> string \<Rightarrow> int
     \<Rightarrow> (('s, 'm) gw_world_scheme, ('s, 'm) gw_world_scheme FileTransfer result) state" where
  "GetHandle L gw s name flags =
     (let command = (if writing flags then ''STOR'' else ''RETR'')
      in case remotePath s name of
        Inl err \<Rightarrow> do { _ \<leftarrow> audit s command name (Some err); return (Inl err) }
      | Inr (virtualPath, rpath) \<Rightarrow> do {
          sc \<leftarrow> driver_sftp s;
          case sc of
            Inl err \<Rightarrow> do { _ \<leftarrow> audit s command virtualPath (Some err); return (Inl err) }
          | Inr sc \<Rightarrow>
              if writing flags then do {
                u \<leftarrow> beginUpload L gw s sc virtualPath rpath flags;
                return (map_sum id UploadTransfer u)
              } else do {
                d \<leftarrow> beginDownload L gw s sc virtualPath rpath;
                return (map_sum id DownloadTransfer d)
              }
        })"

section \<open>Commands\<close>

text \<open>
  What the FTP library does with the driver: one method call per command, and for a transfer the
  calls on the handle it was given.
\<close>

datatype ftp_command =
    CmdStat string
  | CmdMkdir string
  | CmdRemove string
  | CmdRemoveDir string
  | CmdRename string string
  | CmdReadDir string
  | CmdTransfer string int "upload_call list" "download_call list"

definition drive_handle ::
  "(bytes \<Rightarrow> bytes) \<Rightarrow> upload_call list \<Rightarrow> download_call list \<Rightarrow> 'w FileTransfer result \<Rightarrow> ('w, unit) state" where
  "drive_handle sha us ds h =
     (case h of
        Inl _ \<Rightarrow> return ()
      | Inr ft \<Rightarrow>
          (case ft of
             UploadTransfer u \<Rightarrow> do { _ \<leftarrow> upload_run sha us u; return () }
           | DownloadTransfer d \<Rightarrow> do { _ \<leftarrow> download_run sha ds d; return () }))"

fun exec ::
  "(bytes \<Rightarrow> bytes) \<Rightarrow> 's sftp_lib \<Rightarrow> Gateway \<Rightarrow> ('s, 'm) driver_session \<Rightarrow> ftp_command \<Rightarrow> (('s, 'm) gw_world_scheme, unit) state" where
  "exec sha L gw s (CmdStat n) = do { _ \<leftarrow> driver_Stat L s n; return () }"
| "exec sha L gw s (CmdMkdir n) = do { _ \<leftarrow> driver_Mkdir L s n; return () }"
| "exec sha L gw s (CmdRemove n) = do { _ \<leftarrow> driver_Remove L s n; return () }"
| "exec sha L gw s (CmdRemoveDir n) = do { _ \<leftarrow> driver_RemoveDir L s n; return () }"
| "exec sha L gw s (CmdRename n n') = do { _ \<leftarrow> driver_Rename L s n n'; return () }"
| "exec sha L gw s (CmdReadDir n) = do { _ \<leftarrow> driver_ReadDir L gw s n; return () }"
| "exec sha L gw s (CmdTransfer n flags us ds) = do { h \<leftarrow> GetHandle L gw s n flags; drive_handle sha us ds h }"

fun exec_all ::
  "(bytes \<Rightarrow> bytes) \<Rightarrow> 's sftp_lib \<Rightarrow> Gateway \<Rightarrow> ('s, 'm) driver_session \<Rightarrow> ftp_command list \<Rightarrow> (('s, 'm) gw_world_scheme, unit) state" where
  "exec_all sha L gw s [] = return ()"
| "exec_all sha L gw s (c # cs) = do { _ \<leftarrow> exec sha L gw s c; exec_all sha L gw s cs }"

section \<open>What a connection may send\<close>

lemma emits_audit [emits_rules]: "emits wire P (audit s c v e)"
  unfolding audit_def Let_def by (intro emits_rules)

lemma emits_maybeInvalidate [emits_rules]:
  "P CloseSFTP \<Longrightarrow> P CloseSSH \<Longrightarrow> emits wire P (maybeInvalidate L s e)"
  unfolding maybeInvalidate_def by (intro emits_rules)

lemma emits_gate_TryAcquire [emits_rules]: "emits wire P (gate_TryAcquire s)"
  by (auto simp: gate_TryAcquire_def emits_def state_io_rel_def grows_def split: prod.splits)

lemma emits_gate_Release [emits_rules]: "emits wire P (gate_Release s)"
  unfolding gate_Release_def by (intro emits_rules) simp

lemma emits_new_release [emits_rules]: "emits wire P new_release"
  unfolding new_release_def by (intro emits_rules) simp

lemma emits_release [emits_rules]: "emits wire P (release s i)"
  unfolding release_def by (intro emits_rules) simp

text \<open>The paths the driver passes on: what some name resolves to.\<close>

definition resolves :: "'c Session \<Rightarrow> string \<Rightarrow> bool" where
  "resolves s r \<longleftrightarrow> (\<exists>name v. remotePath s name = Inr (v, r))"

lemma resolvesI [intro]: "remotePath s name = Inr (v, r) \<Longrightarrow> resolves s r"
  unfolding resolves_def by blast

text \<open>A transfer that started made its handle with the driver's options.\<close>

lemma beginUpload_Inr:
  assumes "run_state (beginUpload L gw s sc v r fl) w = (Inr u, w')"
  obtains tid rel w1 where "run_state (NewUpload (Client_RemoteFS L sc) r (upload_options gw s v tid rel)) w1 = (Inr u, w')"
    and "AllowUpload (s_policy s)"
  using assms by (auto simp: beginUpload_def split: if_splits option.splits prod.splits sum.splits)

lemma beginDownload_Inr:
  assumes "run_state (beginDownload L gw s sc v r) w = (Inr d, w')"
  obtains tid rel w1 where "run_state (NewDownload (Client_RemoteFS L sc) r (download_options gw s v tid rel)) w1 = (Inr d, w')"
    and "AllowDownload (s_policy s)"
  using assms by (auto simp: beginDownload_def split: if_splits option.splits prod.splits sum.splits)

lemma emits_upload_options:
  "emits wire P (run_Release (up_Release (upload_options gw s v tid rel)))"
  "emits wire P (run_OnComplete (up_OnComplete (upload_options gw s v tid rel)) r)"
  "emits wire P (run_Release (dn_Release (download_options gw s v tid rel)))"
  "emits wire P (run_OnComplete (dn_OnComplete (download_options gw s v tid rel)) r)"
  by (auto simp: upload_options_def download_options_def run_Release_def run_OnComplete_def intro: emits_rules)

text \<open>Branching on a resolved path.\<close>

lemma emits_resolved:
  assumes "\<And>e. emits tr P (f e)" and "\<And>v r. remotePath s n = Inr (v, r) \<Longrightarrow> emits tr P (g v r)"
  shows "emits tr P (case remotePath s n of Inl e \<Rightarrow> f e | Inr (v, r) \<Rightarrow> g v r)"
  using assms by (auto split: sum.split)

lemmas flow_rules = emits_resolved emits_sum emits_option emits_if emits_bind emits_return emits_audit
  emits_maybeInvalidate emits_count emits_new_release emits_draw_id emits_release

abbreviation temp_of :: "Gateway \<Rightarrow> 'c Session \<Rightarrow> string \<Rightarrow> string" where
  "temp_of gw s r \<equiv> TempPath r (s_id s) (tc_TemporarySuffix (cfg_Transfer (gw_cfg gw)))"

text \<open>Uploads of the command, if it is one, go to targets in \<open>T\<close>.\<close>

definition targets_ok :: "(string \<Rightarrow> bool) \<Rightarrow> 'c Session \<Rightarrow> ftp_command \<Rightarrow> bool" where
  "targets_ok T s c \<longleftrightarrow> (case c of
     CmdTransfer n fl us ds \<Rightarrow> writing fl \<longrightarrow> (\<forall>v r. remotePath s n = Inr (v, r) \<longrightarrow> T r)
   | _ \<Rightarrow> True)"

lemma remotePath_Inr:
  "remotePath s n = Inr (v, r) \<longleftrightarrow> ResolveVirtual (s_mapper s) ''/'' n = Inr v \<and> ToRemote (s_mapper s) v = Inr r"
  by (auto simp: remotePath_def resolveAndContain_def split: sum.splits)

text \<open>
  The interface between the driver and a policy on requests \<open>P\<close>: connection management is
  always allowed; queries on resolved paths and on the entries of a listed directory are; and each
  kind of change is, when the session's permissions grant the operation that needs it. Uploads
  are restricted to targets in \<open>T\<close>. The client lemma is that every command stays within the
  policy.
\<close>

locale command_policy =
  fixes P :: "request \<Rightarrow> bool"
    and T :: "string \<Rightarrow> bool"
    and gw :: Gateway
    and s :: "('s, 'm) driver_session"
  assumes conn: "P (DialTCP a t)" "P (Handshake a u h t)" "P CloseConn" "P OpenSFTP" "P CloseSSH" "P CloseSFTP"
    and query: "resolves s r \<Longrightarrow> P (Lstat r)" "resolves s r \<Longrightarrow> P (ReadLink r)" "resolves s r \<Longrightarrow> P (Stat r)"
      "resolves s r \<Longrightarrow> P (ReadDir r)"
    and child: "resolves s r \<Longrightarrow> plain_comp n \<Longrightarrow> P (Lstat (path_Join [r, n]))"
      "resolves s r \<Longrightarrow> plain_comp n \<Longrightarrow> P (ReadLink (path_Join [r, n]))"
    and mkdir: "resolves s r \<Longrightarrow> AllowMkdir (s_policy s) \<Longrightarrow> P (Mkdir r)"
    and delete: "resolves s r \<Longrightarrow> AllowDelete (s_policy s) \<Longrightarrow> P (Remove r)"
      "resolves s r \<Longrightarrow> AllowDelete (s_policy s) \<Longrightarrow> P (RemoveDirectory r)"
    and rename: "resolves s r \<Longrightarrow> resolves s r' \<Longrightarrow> AllowRename (s_policy s) \<Longrightarrow> P (Rename r r')"
      "resolves s r \<Longrightarrow> resolves s r' \<Longrightarrow> AllowRename (s_policy s) \<Longrightarrow> P (PosixRename r r')"
      "resolves s r \<Longrightarrow> AllowRename (s_policy s) \<Longrightarrow> AllowOverwrite (s_policy s) \<Longrightarrow> P (Remove r)"
    and download: "resolves s r \<Longrightarrow> AllowDownload (s_policy s) \<Longrightarrow> P (OpenFile r O_RDONLY)"
      "AllowDownload (s_policy s) \<Longrightarrow> P (ReadFile f)" "AllowDownload (s_policy s) \<Longrightarrow> P (SeekFile f i j)"
      "P (CloseFile f)"
    and upload: "resolves s r \<Longrightarrow> T r \<Longrightarrow> AllowUpload (s_policy s) \<Longrightarrow>
        P (OpenFile (temp_of gw s r) create_flags) \<and> P (Lstat (temp_of gw s r)) \<and> P (ReadLink (temp_of gw s r))
        \<and> P (Remove (temp_of gw s r)) \<and> P (Rename (temp_of gw s r) r) \<and> P (PosixRename (temp_of gw s r) r)"
      "resolves s r \<Longrightarrow> T r \<Longrightarrow> AllowUpload (s_policy s) \<Longrightarrow> AllowOverwrite (s_policy s) \<Longrightarrow> P (Remove r)"
      "AllowUpload (s_policy s) \<Longrightarrow> P (WriteFile f b)"
begin

lemma sftp_within:
  assumes "s_connect s = connector K L u"
  shows "emits wire P (driver_sftp s)"
  unfolding driver_sftp_def by (rule emits_Session_SFTP) (simp add: assms emits_connector conn)

lemma driver_Stat_within:
  assumes "s_connect s = connector K L u"
  shows "emits wire P (driver_Stat L s n)"
  unfolding driver_Stat_def
  by (intro flow_rules sftp_within [OF assms] emits_Client_Stat conn) (auto intro: query)

lemma driver_Mkdir_within:
  assumes "s_connect s = connector K L u"
  shows "emits wire P (driver_Mkdir L s n)"
  unfolding driver_Mkdir_def
  by (intro flow_rules sftp_within [OF assms] emits_Client_Mkdir conn) (auto intro: mkdir)

lemma driver_Remove_within:
  assumes "s_connect s = connector K L u"
  shows "emits wire P (driver_Remove L s n)"
  unfolding driver_Remove_def
  by (intro flow_rules sftp_within [OF assms] emits_Client_Remove conn) (auto intro: query delete)

lemma driver_RemoveDir_within:
  assumes "s_connect s = connector K L u"
  shows "emits wire P (driver_RemoveDir L s n)"
  unfolding driver_RemoveDir_def
  by (intro flow_rules sftp_within [OF assms] emits_Client_RemoveDirectory conn) (auto intro: query delete)

lemma driver_Rename_within:
  assumes "s_connect s = connector K L u"
  shows "emits wire P (driver_Rename L s n n')"
  unfolding driver_Rename_def
  by (intro flow_rules sftp_within [OF assms] emits_Client_Rename conn) (auto intro: query rename)

lemma driver_ReadDir_within:
  assumes "s_connect s = connector K L u" and "plain_listings L"
  shows "emits wire P (driver_ReadDir L gw s n)"
  unfolding driver_ReadDir_def
  by (intro flow_rules sftp_within [OF assms(1)] emits_Client_ReadDir conn assms(2)) (auto intro: query child)

lemma beginUpload_within:
  assumes "resolves s r" and "T r"
  shows "emits wire P (beginUpload L gw s sc v r fl)"
  unfolding beginUpload_def
  by (intro flow_rules emits_gate_TryAcquire emits_NewUpload emits_fs_CreateTemp)
     (use assms in \<open>auto simp: upload_options_def intro!: emits_Client_Stat query dest: upload(1)\<close>)

lemma beginUpload_handle:
  assumes "resolves s r" and "T r" and "run_state (beginUpload L gw s sc v r fl) w = (Inr x, w')"
  shows "upload_emits wire P x"
proof -
  obtain tid rel w1 where n: "run_state (NewUpload (Client_RemoteFS L sc) r (upload_options gw s v tid rel)) w1 = (Inr x, w')"
    and a: "AllowUpload (s_policy s)"
    using beginUpload_Inr [OF assms(3)] .
  show ?thesis
    by (rule NewUpload_upload_emits [OF n refl])
       (use upload(1) [OF assms(1,2) a] upload(2) [OF assms(1,2) a] upload(3) [OF a] query [OF assms(1)] download(4)
          emits_upload_options in \<open>simp_all add: upload_options_def\<close>)
qed

lemma beginDownload_within:
  assumes "resolves s r"
  shows "emits wire P (beginDownload L gw s sc v r)"
  unfolding beginDownload_def
  by (intro flow_rules emits_gate_TryAcquire emits_NewDownload emits_fs_OpenRead)
     (use assms in \<open>auto intro: query download\<close>)

lemma beginDownload_handle:
  assumes "run_state (beginDownload L gw s sc v r) w = (Inr x, w')"
  shows "download_emits wire P x"
proof -
  obtain tid rel w1 where n: "run_state (NewDownload (Client_RemoteFS L sc) r (download_options gw s v tid rel)) w1 = (Inr x, w')"
    and a: "AllowDownload (s_policy s)"
    using beginDownload_Inr [OF assms] .
  show ?thesis
    by (rule NewDownload_download_emits [OF n])
       (use download(2,3) [OF a] download(4) emits_upload_options in simp_all)
qed

lemma GetHandle_within:
  assumes "s_connect s = connector K L u" and "targets_ok T s (CmdTransfer n fl us ds)"
  shows "emits wire P (GetHandle L gw s n fl)"
  unfolding GetHandle_def Let_def
  by (intro flow_rules sftp_within [OF assms(1)] beginUpload_within beginDownload_within conn)
     (use assms(2) in \<open>auto simp: targets_ok_def\<close>)

lemma GetHandle_handle:
  assumes "targets_ok T s (CmdTransfer n fl us ds)" and "run_state (GetHandle L gw s n fl) w = (Inr ft, w')"
  shows "case ft of UploadTransfer x \<Rightarrow> upload_emits wire P x | DownloadTransfer x \<Rightarrow> download_emits wire P x"
proof -
  obtain v r where r: "remotePath s n = Inr (v, r)"
    using assms(2) by (auto simp: GetHandle_def Let_def split: sum.splits prod.splits)
  then have rs: "resolves s r" and tr: "writing fl \<Longrightarrow> T r" using assms(1) by (auto simp: targets_ok_def)
  consider sc w1 x where "writing fl" "run_state (beginUpload L gw s sc v r fl) w1 = (Inr x, w')" "ft = UploadTransfer x"
    | sc w1 x where "run_state (beginDownload L gw s sc v r) w1 = (Inr x, w')" "ft = DownloadTransfer x"
    using assms(2) r
    by (auto simp: GetHandle_def Let_def map_sum_def split: sum.splits prod.splits if_splits)
  then show ?thesis
  proof cases
    case 1
    with beginUpload_handle [OF rs tr] show ?thesis by simp
  next
    case 2
    with beginDownload_handle show ?thesis by simp
  qed
qed

lemma exec_within:
  assumes "s_connect s = connector K L u" and "plain_listings L" and "targets_ok T s c"
  shows "emits wire P (exec sha L gw s c)"
proof (cases c)
  case (CmdTransfer n fl us ds)
  have "emits wire P (drive_handle sha us ds h)" if "run_state (GetHandle L gw s n fl) w = (h, w')" for h w w'
    using GetHandle_handle [of n fl us ds L w _ w'] assms(3) that CmdTransfer
    by (auto simp: drive_handle_def split: sum.split FileTransfer.splits
        intro!: emits_return emits_bind emits_upload_run emits_download_run)
  then show ?thesis
    using GetHandle_within [OF assms(1), of n fl us ds] assms(3) CmdTransfer
    by (auto intro: emits_bind_results)
qed (auto intro!: emits_bind emits_return driver_Stat_within driver_Mkdir_within driver_Remove_within
      driver_RemoveDir_within driver_Rename_within driver_ReadDir_within assms)

lemma exec_all_within:
  assumes "s_connect s = connector K L u" and "plain_listings L" and "list_all (targets_ok T s) cs"
  shows "emits wire P (exec_all sha L gw s cs)"
  using assms(3) by (induction cs) (auto intro!: emits_bind emits_return exec_within [OF assms(1,2)])

end

section \<open>Confinement\<close>

text \<open>Every path of the request is inside the root.\<close>

definition confined :: "string \<Rightarrow> request \<Rightarrow> bool" where
  "confined rt q \<longleftrightarrow> list_all (WithinRoot rt) (request_paths q)"

text \<open>A session as the gateway makes it: a built mapper, and names that are safe in a file name.\<close>

definition wf_driver :: "Gateway \<Rightarrow> 'c Session \<Rightarrow> bool" where
  "wf_driver gw s \<longleftrightarrow> wf_mapper (s_mapper s) \<and> slash \<notin> set (s_id s)
     \<and> slash \<notin> set (tc_TemporarySuffix (cfg_Transfer (gw_cfg gw)))"

lemma resolves_confined:
  assumes "resolves s r" and "wf_mapper (s_mapper s)"
  shows "in_remote_root (s_mapper s) r"
  using assms(1) mapper.two_steps_confined [OF assms(2)] by (auto simp: resolves_def remotePath_Inr)

lemma WithinRoot_Join:
  assumes "clean_abs rt" "clean_abs r" "WithinRoot rt r" "plain_comp n"
  shows "WithinRoot rt (path_Join [r, n])"
proof -
  obtain rs qs where "plain_list rs" "plain_list qs" "rt = abs_path rs" "r = abs_path (rs @ qs)"
    using within_decomp [OF assms(1-3)] .
  with assms(4) show ?thesis
    using path_Join_plain_comp [of "rs @ qs" n] by (simp add: path_simps)
qed

lemma resolved_facts:
  assumes "resolves s r" and "wf_driver gw s"
  shows "WithinRoot (remoteRoot (s_mapper s)) r"
    and "plain_comp n \<Longrightarrow> WithinRoot (remoteRoot (s_mapper s)) (path_Join [r, n])"
    and "r \<noteq> remoteRoot (s_mapper s) \<Longrightarrow> WithinRoot (remoteRoot (s_mapper s)) (temp_of gw s r)"
proof -
  have wf: "wf_mapper (s_mapper s)" and rt: "clean_abs (remoteRoot (s_mapper s))"
    using assms(2) by (auto simp: wf_driver_def wf_mapper_def)
  show r: "WithinRoot (remoteRoot (s_mapper s)) r" using resolves_confined [OF assms(1) wf] by simp
  show "WithinRoot (remoteRoot (s_mapper s)) (path_Join [r, n])" if "plain_comp n"
    using WithinRoot_Join [OF rt _ r that] resolves_confined [OF assms(1) wf] by simp
  show "WithinRoot (remoteRoot (s_mapper s)) (temp_of gw s r)" if "r \<noteq> remoteRoot (s_mapper s)"
    using TempPath_within [OF rt _ r that] resolves_confined [OF assms(1) wf] assms(2) by (simp add: wf_driver_def)
qed

interpretation confining: command_policy
  "\<lambda>q. wf_driver gw s \<longrightarrow> confined (remoteRoot (s_mapper s)) q" "\<lambda>r. r \<noteq> remoteRoot (s_mapper s)" gw s
  for gw s
  by unfold_locales (auto simp: confined_def intro: resolved_facts)

lemma driver_confined:
  assumes "wf_driver gw s" and "s_connect s = connector K L u" and "plain_listings L"
    and "\<forall>n fl us ds. CmdTransfer n fl us ds \<in> set cs \<and> writing fl
           \<longrightarrow> (\<forall>v. remotePath s n \<noteq> Inr (v, remoteRoot (s_mapper s)))"
  shows "emits wire (confined (remoteRoot (s_mapper s))) (exec_all sha L gw s cs)"
proof -
  have "list_all (targets_ok (\<lambda>r. r \<noteq> remoteRoot (s_mapper s)) s) cs"
    using assms(4) by (force simp: list_all_iff targets_ok_def split: ftp_command.split)
  from confining.exec_all_within [OF assms(2,3) this, of gw sha] assms(1) show ?thesis by simp
qed

text \<open>
  Confinement of a whole connection: for a session of the gateway, whatever the FTP client
  sends as names and whatever order of commands, transfers and calls on their handles it causes,
  every request that reaches the SFTP server names only paths inside the user's remote root. The
  exception, which the code does not exclude, is an upload whose target is the root itself. The
  listing of a directory is assumed to name entries of that directory.
\<close>

theorem every_request_confined:
  assumes "wf_driver gw s" and "s_connect s = connector K L u" and "plain_listings L"
    and "\<forall>n fl us ds. CmdTransfer n fl us ds \<in> set cs \<and> writing fl
           \<longrightarrow> (\<forall>v. remotePath s n \<noteq> Inr (v, remoteRoot (s_mapper s)))"
    and "run_state (exec_all sha L gw s cs) w = (x, w')"
  shows "\<exists>qs. wire w' = wire w @ qs \<and> list_all (confined (remoteRoot (s_mapper s))) qs"
  using emitsE [OF driver_confined [OF assms(1-4)] assms(5)] by blast

section \<open>Permissions\<close>

text \<open>The permissions of the user that a request needs.\<close>

fun permitted :: "Policy \<Rightarrow> request \<Rightarrow> bool" where
  "permitted p (Mkdir d) = AllowMkdir p"
| "permitted p (RemoveDirectory d) = AllowDelete p"
| "permitted p (Remove f) = (AllowDelete p \<or> AllowUpload p \<or> (AllowRename p \<and> AllowOverwrite p))"
| "permitted p (Rename a b) = (AllowRename p \<or> AllowUpload p)"
| "permitted p (PosixRename a b) = (AllowRename p \<or> AllowUpload p)"
| "permitted p (OpenFile f fl) = (if fl = O_RDONLY then AllowDownload p else AllowUpload p)"
| "permitted p (WriteFile h b) = AllowUpload p"
| "permitted p (ReadFile h) = AllowDownload p"
| "permitted p _ = True"

interpretation permitting: command_policy "permitted (s_policy s)" "\<lambda>r. True" gw s for gw s
  by unfold_locales auto

lemma driver_permitted:
  assumes "s_connect s = connector K L u" and "plain_listings L"
  shows "emits wire (permitted (s_policy s)) (exec_all sha L gw s cs)"
proof -
  have "list_all (targets_ok (\<lambda>r. True) s) cs"
    by (auto simp: list_all_iff targets_ok_def split: ftp_command.split)
  from permitting.exec_all_within [OF assms this] show ?thesis .
qed

text \<open>
  (C7) Deny by default, over a whole connection: every request sent on behalf of a user is covered
  by a permission of that user. In particular a user with no permission causes no request that
  changes the remote file tree and none that reads or writes file contents.
\<close>

theorem every_request_permitted:
  assumes "s_connect s = connector K L u" and "plain_listings L"
    and "run_state (exec_all sha L gw s cs) w = (x, w')"
  shows "\<exists>qs. wire w' = wire w @ qs \<and> list_all (permitted (s_policy s)) qs
    \<and> (s_policy s = zero_Policy \<longrightarrow> list_all (\<lambda>q. \<not> mutating q \<and> (\<forall>h. q \<noteq> ReadFile h)) qs)"
proof -
  from emitsE [OF driver_permitted [OF assms(1,2)] assms(3)]
  obtain qs where qs: "wire w' = wire w @ qs" "list_all (permitted (s_policy s)) qs" .
  have "\<not> mutating q \<and> (\<forall>h. q \<noteq> ReadFile h)" if "permitted zero_Policy q" for q
    using that by (cases q) (auto simp: zero_Policy_def split: if_splits)
  then have "s_policy s = zero_Policy \<longrightarrow> list_all (\<lambda>q. \<not> mutating q \<and> (\<forall>h. q \<noteq> ReadFile h)) qs"
    using qs(2) unfolding list_all_iff by metis
  with qs show ?thesis by blast
qed

section \<open>Listings\<close>

lemma ReadDir_visible:
  assumes "run_state (driver_ReadDir L gw s n) w = (Inr es, w')"
  shows "\<forall>e \<in> set es. \<not> Contains (info_Name e) (tc_TemporarySuffix (cfg_Transfer (gw_cfg gw)) @ ''-'')"
  using assms
  by (auto simp: driver_ReadDir_def visible_entries_def split: sum.splits prod.splits)

text \<open>
  (C40) Temporary files never show in a listing: if any session of the gateway uploads to a target
  below a root, no listing of any directory by any session contains an entry with the name of the
  temporary file, whatever the server returns.
\<close>

theorem temporary_files_hidden:
  assumes "clean_abs final" and "final \<noteq> ''/''" and "wf_driver gw s"
    and "run_state (driver_ReadDir L gw s' n) w = (Inr es, w')"
  shows "\<forall>e \<in> set es. info_Name e \<noteq> path_Base (temp_of gw s final)"
proof -
  let ?suff = "tc_TemporarySuffix (cfg_Transfer (gw_cfg gw))"
  have sl: "slash \<notin> set ?suff" "slash \<notin> set (s_id s)" using assms(3) by (simp_all add: wf_driver_def)
  obtain cs c where f: "plain_list cs" "plain_comp c" "final = abs_path (cs @ [c])"
    using clean_abs_snocE [OF assms(1,2)] .
  have "temp_of gw s final = abs_path (cs @ [c @ ?suff @ ''-'' @ s_id s])"
    using TempPath_abs_path [OF f(1,2) sl] f(3) by simp
  then have "path_Base (temp_of gw s final) = c @ (?suff @ ''-'') @ s_id s"
    using path_Base_snoc [OF plain_temp_name [OF f(2) sl]] by simp
  then have "Contains (path_Base (temp_of gw s final)) (?suff @ ''-'')"
    by (simp only: Contains_append)
  with ReadDir_visible [OF assms(4)] show ?thesis by auto
qed

section \<open>A lost connection\<close>

text \<open>
  (C38) A lost connection is not replaced: an error of the SFTP library that is neither a timeout nor
  an expired deadline is translated to a kind on which \<open>maybeInvalidate\<close> does nothing, so the
  session keeps its dead client and the next command uses it again.
\<close>

theorem lost_connection_not_replaced:
  assumes "std_As_kind err = None" and "\<not> std_Is err DeadlineExceeded" and "std_As_timeout err \<noteq> Some True"
  shows "run_state (maybeInvalidate L s (Some (translateError op err))) w = ((), w)"
proof -
  have "KindOf err = KindInternal" using assms(1) by (simp add: KindOf_def)
  then have "KindOf (translateError op err) \<notin> {KindSSHConnection, KindTimeout, KindDisconnected}"
    using assms(2,3) by (auto simp: KindOf_translateError)
  then show ?thesis by (simp add: maybeInvalidate_def)
qed

section \<open>A concrete connection\<close>

text \<open>A gateway with one user on the tree server, with a session that was just authenticated.\<close>

definition accepting_lib :: "tree ssh_lib" where
  "accepting_lib = \<lparr>knownhosts_New = (\<lambda>p. Inr 7), os_ReadFile = (\<lambda>p. Inr []), ParsePrivateKey = (\<lambda>b. Inr 1),
     ParsePrivateKeyWithPassphrase = (\<lambda>b p. Inr 1), lib_Dial = (\<lambda>a t s. (Inr 3, s)),
     lib_NewClientConn = (\<lambda>c a u am cb t s. (Inr 4, s)), lib_CloseConn = (\<lambda>c s. (None, s))\<rparr>"

definition demo_runtime :: userRuntime where
  "demo_runtime = \<lparr>ur_cfg = default_user sample_user, ur_mapper = NewMapper ''/'' ''/data'',
     ur_policy = \<lparr>AllowUpload = True, AllowDownload = True, AllowDelete = False, AllowMkdir = False,
       AllowRename = False, AllowOverwrite = False, MaxFileSize = 1000\<rparr>\<rparr>"

definition demo_gw :: Gateway where
  "demo_gw = \<lparr>gw_cfg = applyDefaults sample_config, gw_users = [''ax'' \<mapsto> demo_runtime]\<rparr>"

definition demo_session :: "(tree, unit) driver_session" where
  "demo_session = \<lparr>s_ref = 0, s_id = ''00ff'', s_username = ''ax'', s_clientIP = ''10.0.0.9'', s_startedAt = 0,
     s_mapper = ur_mapper demo_runtime, s_policy = ur_policy demo_runtime, s_gate = ''ax'',
     s_connect = connector accepting_lib tree_lib demo_runtime\<rparr>"

definition demo_world :: "tree gw_world" where
  "demo_world = \<lparr>remote = empty_tree, wire = [], sess_slots = (\<lambda>_. \<lparr>slot_sftp = None, slot_closed = False\<rparr>), next_sess = 1,
     metrics = NewMetrics, log = [], gates = (\<lambda>_. \<lparr>capacity = 4, slots = 0\<rparr>), released = (\<lambda>_. False), next_release = 0,
     authent = NewAuthenticator (NewStore []) (NewLimiter 5 60 10) (NewLimiter 5 60 10), activeConnections = 1,
     shuttingDown = False, sessions = 1, conns = [1], extra = (\<lambda>_. None), path = (\<lambda>_. ''/''),
     entropy = (\<lambda>_. Some [0, 1, 2, 3, 4, 5, 6, 7]), nanos = (\<lambda>_. 0), draws = 0, fallbackCounter = 0\<rparr>"

definition demo_commands :: "ftp_command list" where
  "demo_commands = [CmdReadDir ''/../../etc'', CmdTransfer ''/a.xml'' 1 [CallWrite [1, 2], CallClose] [],
     CmdTransfer ''../a.xml'' 0 [] [CallRead 10, CallDownloadClose]]"

lemma demo_facts:
  "wf_driver demo_gw demo_session" "s_connect demo_session = connector accepting_lib tree_lib demo_runtime"
  by (simp_all add: wf_driver_def demo_session_def demo_gw_def demo_runtime_def applyDefaults_def sample_config_def
      default_to_def)

lemma tree_plain_listings: "plain_listings tree_lib"
  by (auto simp: plain_listings_def tree_lib_def tree_ReadDir_def node_info_def split: if_splits)

theorem every_request_confined_witness:
  "\<exists>qs. wire (snd (run_state (exec_all id tree_lib demo_gw demo_session demo_commands) demo_world)) = qs
     \<and> list_all (confined ''/data'') qs"
proof -
  have rp: "remotePath demo_session ''/a.xml'' = Inr (''/a.xml'', ''/data/a.xml'')"
    and rt: "remoteRoot (s_mapper demo_session) = ''/data''" by code_simp+
  have "\<forall>n fl us ds. CmdTransfer n fl us ds \<in> set demo_commands \<and> writing fl
           \<longrightarrow> (\<forall>v. remotePath demo_session n \<noteq> Inr (v, remoteRoot (s_mapper demo_session)))"
    by (auto simp: demo_commands_def writing_def rp rt)
  from every_request_confined [OF demo_facts tree_plain_listings this prod.collapse [symmetric], of id demo_world]
  show ?thesis by (simp add: rt demo_world_def)
qed

theorem every_request_permitted_witness:
  "\<exists>qs. wire (snd (run_state (exec_all id tree_lib demo_gw demo_session demo_commands) demo_world)) = qs
     \<and> list_all (permitted (ur_policy demo_runtime)) qs"
  using every_request_permitted [OF demo_facts(2) tree_plain_listings prod.collapse [symmetric], of id demo_gw demo_commands demo_world]
  by (auto simp: demo_session_def demo_world_def)

theorem lost_connection_not_replaced_witness:
  "run_state (maybeInvalidate tree_lib demo_session (Some (translateError ''sftpclient.Stat'' tree_lost))) demo_world = ((), demo_world)"
  by (rule lost_connection_not_replaced) (simp_all add: tree_lost_def)

theorem temporary_files_hidden_witness:
  "\<exists>es w'. run_state (driver_ReadDir tree_lib demo_gw demo_session ''/'') (demo_world\<lparr>remote := linked_tree\<rparr>) = (Inr es, w')
     \<and> es \<noteq> [] \<and> list_all (\<lambda>e. info_Name e \<noteq> ''b.part-00ff'') es"
proof -
  let ?r = "run_state (driver_ReadDir tree_lib demo_gw demo_session ''/'') (demo_world\<lparr>remote := linked_tree\<rparr>)"
  have "(case fst ?r of Inr es \<Rightarrow> es \<noteq> [] | Inl _ \<Rightarrow> False)" by code_simp
  then obtain es where es: "fst ?r = Inr es" "es \<noteq> []" by (auto split: sum.splits)
  have c: "clean_abs ''/data/b''" and b: "path_Base (temp_of demo_gw demo_session ''/data/b'') = ''b.part-00ff''" by code_simp+
  have r: "?r = (Inr es, snd ?r)" using es(1) by (metis prod.collapse)
  from temporary_files_hidden [OF c _ demo_facts(1) r] b have "\<forall>e \<in> set es. info_Name e \<noteq> ''b.part-00ff''" by simp
  with r es(2) show ?thesis unfolding list_all_iff by blast
qed

end
