(* ===== verification/Gateway.thy ===== *)
theory Gateway
  imports ClientDriver
begin

text \<open>
  \<open>internal/ftpserver/gateway.go\<close> and \<open>settings.go\<close>: building the gateway from its
  configuration, admission of connections, authentication, disconnection and shutdown. The
  callbacks of the FTP library are computations over \<open>gw_world\<close>; a connection is named by
  the identifier \<open>cc\<close> of its client context, whose extra, path and address the library keeps.

  The theorems show that admission never exceeds the limit under any interleaving of connections,
  that connecting and disconnecting balance, that an authenticated session is the configured
  user's and is confined, and what a second login on one connection leaves behind.
\<close>

section \<open>settings.go\<close>

record Settings =
  set_ListenAddr :: string
  set_PublicHost :: string
  set_Banner :: string
  set_PortStart :: int
  set_PortEnd :: int
  set_IdleTimeout :: int
  set_ConnectionTimeout :: int
  set_DisableActiveMode :: bool
  set_BinaryDefault :: bool
  set_DisableASCIIConversion :: bool
  set_DisableMLSD :: bool
  set_DisableMLST :: bool
  set_DisableMFMT :: bool
  set_DisableSite :: bool
  set_DisableSTAT :: bool
  set_DisableSYST :: bool

text \<open>
  \<open>int(d.Seconds())\<close>: the conversion truncates towards zero. The floating-point sum of
  seconds and fraction is exact enough for this below \<open>2 ^ 22\<close> seconds (48 days).
\<close>

definition whole_seconds :: "duration \<Rightarrow> int" where
  "whole_seconds d = sgn d * (\<bar>d\<bar> div Second)"

definition buildSettings :: "ServerConfig \<Rightarrow> Settings" where
  "buildSettings cfg = \<lparr>set_ListenAddr = srv_ListenAddress cfg @ '':'' @ fmt_d (srv_ControlPort cfg),
     set_PublicHost = srv_PassiveAddress cfg, set_Banner = ''ftp2sftp gateway'',
     set_PortStart = srv_PassivePortStart cfg, set_PortEnd = srv_PassivePortEnd cfg,
     set_IdleTimeout = whole_seconds (srv_IdleTimeout cfg),
     set_ConnectionTimeout = whole_seconds (srv_DataConnectionTimeout cfg),
     set_DisableActiveMode = True, set_BinaryDefault = True, set_DisableASCIIConversion = True,
     set_DisableMLSD = True, set_DisableMLST = True, set_DisableMFMT = True, set_DisableSite = True,
     set_DisableSTAT = True, set_DisableSYST = False\<rparr>"

section \<open>New\<close>

abbreviation authMaxFailures :: int where "authMaxFailures \<equiv> 5"
abbreviation authWindow :: duration where "authWindow \<equiv> 60 * Second"
abbreviation authLockout :: duration where "authLockout \<equiv> 10 * Second"

definition user_policy :: "UserConfig \<Rightarrow> Policy" where
  "user_policy u = \<lparr>AllowUpload = pc_AllowUpload (uc_Permissions u), AllowDownload = pc_AllowDownload (uc_Permissions u),
     AllowDelete = pc_AllowDelete (uc_Permissions u), AllowMkdir = pc_AllowMkdir (uc_Permissions u),
     AllowRename = pc_AllowRename (uc_Permissions u), AllowOverwrite = pc_AllowOverwrite (uc_Permissions u),
     MaxFileSize = uc_MaxFileSize u\<rparr>"

definition user_runtime :: "UserConfig \<Rightarrow> userRuntime" where
  "user_runtime u = \<lparr>ur_cfg = u, ur_mapper = NewMapper (uc_VirtualRoot u) (st_RootPath (uc_SFTP u)),
     ur_policy = user_policy u\<rparr>"

text \<open>
  The loop over the configured users: records for the store, the map of runtimes and the gates,
  where a later user of the same name replaces an earlier one. \<^term>\<open>None\<close> is the panic of a
  negative channel size.
\<close>

fun new_users ::
  "UserConfig list \<Rightarrow> UserRecord list \<times> (string \<rightharpoonup> userRuntime) \<times> (string \<Rightarrow> ConcurrencyGate)
     \<Rightarrow> (UserRecord list \<times> (string \<rightharpoonup> userRuntime) \<times> (string \<Rightarrow> ConcurrencyGate)) option" where
  "new_users [] acc = Some acc"
| "new_users (u # us) (records, users, gs) =
     (case NewConcurrencyGate (uc_MaxConcurrentTransfers u) of
        None \<Rightarrow> None
      | Some g \<Rightarrow> new_users us
          (records @ [\<lparr>Username = uc_Username u, PasswordHash = uc_PasswordHash u\<rparr>],
           users(uc_Username u \<mapsto> user_runtime u), gs(uc_Username u := g)))"

text \<open>\<open>New\<close> with the remote side \<open>srv\<close> and the environment's streams.\<close>

definition New_Gateway ::
  "Config \<Rightarrow> 's \<Rightarrow> (nat \<Rightarrow> bytes option) \<Rightarrow> (nat \<Rightarrow> nat) \<Rightarrow> (Gateway \<times> 's gw_world) option" where
  "New_Gateway cfg srv rand clk =
     (case new_users (cfg_Users cfg) ([], Map.empty, \<lambda>_. \<lparr>capacity = 0, slots = 0\<rparr>) of
        None \<Rightarrow> None
      | Some (records, users, gs) \<Rightarrow>
          Some (\<lparr>gw_cfg = cfg, gw_users = users\<rparr>,
            \<lparr>remote = srv, wire = [], sess_slots = (\<lambda>_. \<lparr>slot_sftp = None, slot_closed = False\<rparr>), next_sess = 0,
             metrics = NewMetrics, log = [], gates = gs, released = (\<lambda>_. False), next_release = 0,
             authent = NewAuthenticator (NewStore records)
               (NewLimiter authMaxFailures authWindow authLockout) (NewLimiter authMaxFailures authWindow authLockout),
             activeConnections = 0, shuttingDown = False, sessions = 0, conns = [], extra = (\<lambda>_. None),
             path = (\<lambda>_. []), entropy = rand, nanos = clk, draws = 0, fallbackCounter = 0\<rparr>))"

definition GetSettings :: "Gateway \<Rightarrow> Settings result" where
  "GetSettings gw = Inr (buildSettings (cfg_Server (gw_cfg gw)))"

definition GetTLSConfig :: "unit result" where
  "GetTLSConfig = Inl (New KindUnsupportedCommand ''ftpserver.GetTLSConfig'' (''FTPS no est'' @ a_acute @ '' soportado''))"

section \<open>Addresses\<close>

fun index_of :: "char \<Rightarrow> string \<Rightarrow> nat option" where
  "index_of c [] = None"
| "index_of c (x # xs) = (if x = c then Some 0 else map_option Suc (index_of c xs))"

definition last_index_of :: "char \<Rightarrow> string \<Rightarrow> nat option" where
  "last_index_of c s = map_option (\<lambda>i. length s - 1 - i) (index_of c (rev s))"

text \<open>\<open>net.SplitHostPort\<close>; \<^term>\<open>None\<close> is its error.\<close>

definition SplitHostPort :: "string \<Rightarrow> (string \<times> string) option" where
  "SplitHostPort hp =
     (case last_index_of CHR '':'' hp of
        None \<Rightarrow> None
      | Some i \<Rightarrow>
          (case (if hp \<noteq> [] \<and> hd hp = CHR ''[''
                 then (case index_of CHR '']'' hp of
                         None \<Rightarrow> None
                       | Some e \<Rightarrow> if e + 1 = i then Some (take (e - 1) (drop 1 hp), 1, e + 1) else None)
                 else if CHR '':'' \<in> set (take i hp) then None else Some (take i hp, 0, 0)) of
             None \<Rightarrow> None
           | Some (host, j, k) \<Rightarrow>
               if CHR ''['' \<in> set (drop j hp) \<or> CHR '']'' \<in> set (drop k hp) then None
               else Some (host, drop (i + 1) hp)))"

definition hostOnly :: "string \<Rightarrow> string" where
  "hostOnly addr = (case SplitHostPort addr of Some (host, port) \<Rightarrow> host | None \<Rightarrow> addr)"

section \<open>Admission\<close>

definition errShuttingDown :: go_error where
  "errShuttingDown = New KindDisconnected ''ftpserver.ClientConnected''
     (''el servicio est'' @ a_acute @ '' cerrando, intente m'' @ a_acute @ ''s tarde'')"

definition errTooManyConnections :: go_error where
  "errTooManyConnections = New KindRateLimited ''ftpserver.ClientConnected''
     (''demasiadas conexiones activas, intente m'' @ a_acute @ ''s tarde'')"

definition errNoUserRuntime :: go_error where
  "errNoUserRuntime = New KindInternal ''ftpserver.AuthUser'' (''error interno de configuraci'' @ o_acute @ ''n'')"

text \<open>\<open>ClientConnected\<close>: the greeting and nil, or the message and the error.\<close>

definition ClientConnected ::
  "Gateway \<Rightarrow> nat \<Rightarrow> string \<Rightarrow> (('s, 'm) gw_world_scheme, string \<times> go_error option) state" where
  "ClientConnected gw cc addr = do {
     _ \<leftarrow> count (\<lambda>m. m\<lparr>FTPConnectionsTotal := Inc (FTPConnectionsTotal m)\<rparr>);
     let clientIP = hostOnly addr;
     closing \<leftarrow> gets shuttingDown;
     if closing
     then return (''el servicio est'' @ a_acute @ '' cerrando, intente m'' @ a_acute @ ''s tarde'', Some errShuttingDown)
     else do {
       _ \<leftarrow> modify (\<lambda>w. w\<lparr>activeConnections := activeConnections w + 1\<rparr>);
       active \<leftarrow> gets activeConnections;
       if sint active > srv_MaxConnections (cfg_Server (gw_cfg gw)) then do {
         _ \<leftarrow> modify (\<lambda>w. w\<lparr>activeConnections := activeConnections w - 1\<rparr>);
         _ \<leftarrow> emit_log LevelWarn ''connection rejected: max connections reached'' [(''clientIp'', AString clientIP)];
         return (''demasiadas conexiones activas, intente m'' @ a_acute @ ''s tarde'', Some errTooManyConnections)
       } else do {
         _ \<leftarrow> modify (\<lambda>w. w\<lparr>extra := (extra w)(cc \<mapsto> \<lparr>cs_admitted = True, cs_sess = None\<rparr>)\<rparr>);
         _ \<leftarrow> count (\<lambda>m. m\<lparr>FTPConnectionsActive := Inc (FTPConnectionsActive m)\<rparr>);
         _ \<leftarrow> emit_log LevelInfo ''client connected'' [(''clientIp'', AString clientIP)];
         _ \<leftarrow> modify (\<lambda>w. w\<lparr>conns := cc # removeAll cc (conns w)\<rparr>);
         return (''ftp2sftp gateway listo'', None)
       }
     }
   }"

definition ClientDisconnected :: "'s sftp_lib \<Rightarrow> nat \<Rightarrow> (('s, 'm) gw_world_scheme, unit) state" where
  "ClientDisconnected L cc = do {
     _ \<leftarrow> modify (\<lambda>w. w\<lparr>conns := removeAll cc (conns w)\<rparr>);
     ex \<leftarrow> gets (\<lambda>w. extra w cc);
     case ex of
       None \<Rightarrow> return ()
     | Some cs \<Rightarrow> do {
         _ \<leftarrow> (if cs_admitted cs then do {
                 _ \<leftarrow> modify (\<lambda>w. w\<lparr>activeConnections := activeConnections w - 1\<rparr>);
                 count (\<lambda>m. m\<lparr>FTPConnectionsActive := Dec (FTPConnectionsActive m)\<rparr>)
               } else return ());
         case cs_sess cs of
           None \<Rightarrow> return ()
         | Some s \<Rightarrow> do {
             wasConnected \<leftarrow> IsConnected s;
             err \<leftarrow> Session_Close L s;
             _ \<leftarrow> (case err of
                    Some e \<Rightarrow> emit_log LevelWarn ''error closing session SFTP connection''
                      [(''sessionId'', AString (s_id s)), (''err'', AString (Error e))]
                  | None \<Rightarrow> return ());
             _ \<leftarrow> (if wasConnected
                  then count (\<lambda>m. m\<lparr>SFTPConnectionsActive := Dec (SFTPConnectionsActive m)\<rparr>) else return ());
             _ \<leftarrow> emit_log LevelInfo ''session closed''
                  [(''sessionId'', AString (s_id s)), (''ftpUser'', AString (s_username s))];
             modify (\<lambda>w. w\<lparr>sessions := sessions w - 1\<rparr>)
           }
       }
   }"

section \<open>Authentication\<close>

text \<open>A session without its connector.\<close>

definition forget_connect :: "'c Session \<Rightarrow> unit Session" where
  "forget_connect s = \<lparr>s_ref = s_ref s, s_id = s_id s, s_username = s_username s, s_clientIP = s_clientIP s,
     s_startedAt = s_startedAt s, s_mapper = s_mapper s, s_policy = s_policy s, s_gate = s_gate s, s_connect = ()\<rparr>"

text \<open>The bcrypt comparison, the dummy hash and the readings of the clock of one attempt.\<close>

record auth_env =
  ae_bcrypt :: "string \<Rightarrow> string \<Rightarrow> bool"
  ae_dummyHash :: string
  ae_clock :: auth_clock
  ae_now :: time

definition gw_Authenticate ::
  "auth_env \<Rightarrow> string \<Rightarrow> string \<Rightarrow> string \<Rightarrow> (('s, 'm) gw_world_scheme, go_error option) state" where
  "gw_Authenticate E ip user pw = State (\<lambda>w.
     case Authenticate (ae_bcrypt E) (ae_dummyHash E) (ae_clock E) ip user pw (authent w) of
       (err, a) \<Rightarrow> (err, w\<lparr>authent := a\<rparr>))"

definition AuthUser ::
  "'s ssh_lib \<Rightarrow> 's sftp_lib \<Rightarrow> Gateway \<Rightarrow> auth_env \<Rightarrow> nat \<Rightarrow> string \<Rightarrow> string \<Rightarrow> string
     \<Rightarrow> (('s, 'm) gw_world_scheme, ('s, 'm) driver_session result) state" where
  "AuthUser K L gw E cc addr username password = do {
     let clientIP = hostOnly addr;
     _ \<leftarrow> count (\<lambda>m. m\<lparr>FTPCommandsTotal := Inc (FTPCommandsTotal m)\<rparr>);
     _ \<leftarrow> count (\<lambda>m. m\<lparr>FTPAuthAttemptsTotal := Inc (FTPAuthAttemptsTotal m)\<rparr>);
     err \<leftarrow> gw_Authenticate E clientIP username password;
     case err of
       Some e \<Rightarrow> do {
         _ \<leftarrow> count (\<lambda>m. m\<lparr>FTPAuthFailuresTotal := Inc (FTPAuthFailuresTotal m)\<rparr>);
         _ \<leftarrow> (if Is e KindRateLimited
              then count (\<lambda>m. m\<lparr>RateLimitRejectionsTotal := Inc (RateLimitRejectionsTotal m)\<rparr>) else return ());
         _ \<leftarrow> emit_log LevelWarn ''authentication failed'' [(''clientIp'', AString clientIP), (''user'', AString username)];
         return (Inl e)
       }
     | None \<Rightarrow>
         (case gw_users gw username of
            None \<Rightarrow> do {
              _ \<leftarrow> emit_log LevelError ''authenticated user has no runtime configuration'' [(''user'', AString username)];
              return (Inl errNoUserRuntime)
            }
          | Some u \<Rightarrow> do {
              sessionID \<leftarrow> draw_id;
              sess \<leftarrow> New_Session sessionID username clientIP (ur_mapper u) (ur_policy u) username (connector K L u) (ae_now E);
              _ \<leftarrow> modify (\<lambda>w. case extra w cc of
                     Some cs \<Rightarrow> w\<lparr>extra := (extra w)(cc \<mapsto> cs\<lparr>cs_sess := Some (forget_connect sess)\<rparr>)\<rparr>
                   | None \<Rightarrow> w);
              _ \<leftarrow> modify (\<lambda>w. w\<lparr>sessions := sessions w + 1\<rparr>);
              _ \<leftarrow> modify (\<lambda>w. w\<lparr>path := (path w)(cc := virtualRoot (ur_mapper u))\<rparr>);
              _ \<leftarrow> emit_log LevelInfo ''session authenticated'' [(''sessionId'', AString sessionID),
                   (''ftpUser'', AString username), (''clientIp'', AString clientIP)];
              return (Inr sess)
            })
   }"

section \<open>Shutdown\<close>

definition PrepareShutdown :: "(('s, 'm) gw_world_scheme, unit) state" where
  "PrepareShutdown = modify (\<lambda>w. w\<lparr>shuttingDown := True\<rparr>)"

text \<open>
  \<open>WaitForSessions\<close> can return when the wait group counts no session, or when the caller's
  channel \<open>done\<close> is closed.
\<close>

definition WaitForSessions_returns :: "bool \<Rightarrow> int \<Rightarrow> bool" where
  "WaitForSessions_returns done_closed n \<longleftrightarrow> n = 0 \<or> done_closed"

text \<open>\<open>CloseAllConnections\<close>: \<open>close_cc\<close> is the library's \<open>ClientContext.Close\<close>. The
  connections are closed in the order of the list; Go's map gives no particular one.\<close>

fun close_each ::
  "(nat \<Rightarrow> (('s, 'm) gw_world_scheme, go_error option) state) \<Rightarrow> nat list \<Rightarrow> (('s, 'm) gw_world_scheme, unit) state" where
  "close_each close_cc [] = return ()"
| "close_each close_cc (cc # ccs) = do {
     err \<leftarrow> close_cc cc;
     _ \<leftarrow> (case err of
            Some e \<Rightarrow> emit_log LevelWarn ''error force-closing connection during shutdown'' [(''err'', AString (Error e))]
          | None \<Rightarrow> return ());
     close_each close_cc ccs
   }"

definition CloseAllConnections ::
  "(nat \<Rightarrow> (('s, 'm) gw_world_scheme, go_error option) state) \<Rightarrow> (('s, 'm) gw_world_scheme, unit) state" where
  "CloseAllConnections close_cc = do { cs \<leftarrow> gets conns; close_each close_cc cs }"

section \<open>Addresses of clients\<close>

lemma index_of_append: "c \<notin> set xs \<Longrightarrow> index_of c (xs @ c # ys) = Some (length xs)"
  by (induction xs) auto

lemma last_index_of_append: "c \<notin> set ys \<Longrightarrow> last_index_of c (xs @ c # ys) = Some (length xs)"
  using index_of_append [of c "rev ys" "rev xs"] by (simp add: last_index_of_def)

text \<open>
  The address a client is rate-limited and logged under is its host: for every host and port
  as \<open>net.JoinHostPort\<close> writes them (with brackets around an IPv6 host), \<open>hostOnly\<close>
  recovers the host.
\<close>

theorem hostOnly_JoinHostPort:
  assumes "CHR ''['' \<notin> set host" "CHR '']'' \<notin> set host"
    and "CHR '':'' \<notin> set port" "CHR ''['' \<notin> set port" "CHR '']'' \<notin> set port"
  shows "hostOnly (JoinHostPort host port) = host"
proof (cases "CHR '':'' \<in> set host")
  case True
  let ?hp = "''['' @ host @ '']:'' @ port"
  have i: "last_index_of CHR '':'' ?hp = Some (length host + 2)"
    using last_index_of_append [OF assms(3), of "''['' @ host @ '']''"] by simp
  have e: "index_of CHR '']'' ?hp = Some (length host + 1)"
    using index_of_append [of "CHR '']''" "''['' @ host" "'':'' @ port"] assms(2) by simp
  have "SplitHostPort ?hp = Some (host, port)"
    using assms unfolding SplitHostPort_def i e by simp
  with True show ?thesis by (simp add: hostOnly_def JoinHostPort_def)
next
  case False
  let ?hp = "host @ '':'' @ port"
  have i: "last_index_of CHR '':'' ?hp = Some (length host)"
    using last_index_of_append [OF assms(3), of host] by simp
  have "\<not> (?hp \<noteq> [] \<and> hd ?hp = CHR ''['')" using assms(1) by (cases host) auto
  then have "SplitHostPort ?hp = Some (host, port)"
    using assms False unfolding SplitHostPort_def i by (simp del: append.simps)
  with False show ?thesis by (simp add: hostOnly_def JoinHostPort_def)
qed

theorem hostOnly_JoinHostPort_witness: "hostOnly ''[fe80::1]:5021'' = ''fe80::1''"
  using hostOnly_JoinHostPort [of "''fe80::1''" "''5021''"] by (simp add: JoinHostPort_def)

section \<open>Connecting and disconnecting\<close>

text \<open>
  Admission, exactly: a connection is accepted if and only if the gateway is not shutting down
  and the connection counted is within \<open>maxConnections\<close>; a refused connection leaves the
  counter, the active gauge, the table of connections and the extras as they were.
\<close>

theorem ClientConnected_admits:
  assumes "run_state (ClientConnected gw cc addr) w = ((msg, err), w')"
  shows "(err = None \<longleftrightarrow> \<not> shuttingDown w \<and> sint (activeConnections w + 1) \<le> srv_MaxConnections (cfg_Server (gw_cfg gw)))
    \<and> (err = None \<longrightarrow> activeConnections w' = activeConnections w + 1 \<and> cc \<in> set (conns w')
        \<and> extra w' cc = Some \<lparr>cs_admitted = True, cs_sess = None\<rparr>)
    \<and> (err \<noteq> None \<longrightarrow> activeConnections w' = activeConnections w \<and> conns w' = conns w \<and> extra w' = extra w
        \<and> FTPConnectionsActive (metrics w') = FTPConnectionsActive (metrics w))"
  using assms by (auto simp: ClientConnected_def Let_def split: if_splits)

theorem ClientConnected_admits_witness:
  "snd (fst (run_state (ClientConnected demo_gw 9 ''10.0.0.9:4000'') (demo_world\<lparr>shuttingDown := True\<rparr>))) \<noteq> None"
proof -
  obtain msg err w' where r: "run_state (ClientConnected demo_gw 9 ''10.0.0.9:4000'') (demo_world\<lparr>shuttingDown := True\<rparr>) = ((msg, err), w')"
    by (metis prod.collapse)
  from ClientConnected_admits [OF r] show ?thesis using r by simp
qed

lemma close_fields:
  "keeps activeConnections (Session_Close L s)" "keeps conns (Session_Close L s)" "keeps extra (Session_Close L s)"
  "keeps metrics (Session_Close L s)" "keeps sessions (Session_Close L s)"
  unfolding Session_Close_def set_slot_def by (intro keeps_rules; simp)+

text \<open>
  Connecting and disconnecting balance: whatever the outcome of the admission, once the
  connection has gone the counter of active connections and the gauge are back to what they were,
  and the connection is no longer in the table.
\<close>

theorem connect_disconnect_balanced:
  assumes "extra w cc = None" and "run_state (ClientConnected gw cc addr) w = (r, w1)"
    and "run_state (ClientDisconnected L cc) w1 = (x, w2)"
  shows "activeConnections w2 = activeConnections w
    \<and> FTPConnectionsActive (metrics w2) = FTPConnectionsActive (metrics w) \<and> cc \<notin> set (conns w2)"
  using assms by (auto simp: ClientConnected_def ClientDisconnected_def Let_def Inc_def Dec_def split: if_splits)

theorem connect_disconnect_balanced_witness:
  "activeConnections (snd (run_state (do { _ \<leftarrow> ClientConnected demo_gw 9 ''10.0.0.9:4000''; ClientDisconnected tree_lib 9 }) demo_world)) = 1"
proof -
  obtain r w1 where 1: "run_state (ClientConnected demo_gw 9 ''10.0.0.9:4000'') demo_world = (r, w1)" by fastforce
  obtain x w2 where 2: "run_state (ClientDisconnected tree_lib 9) w1 = (x, w2)" by (metis surj_pair)
  have "extra demo_world 9 = None" by (simp add: demo_world_def)
  from connect_disconnect_balanced [OF this 1 2] 1 2 show ?thesis by (simp add: demo_world_def)
qed

section \<open>Sessions\<close>

text \<open>Everything a successful login does.\<close>

lemma run_gw_Authenticate:
  "run_state (gw_Authenticate E ip user pw) w =
     (fst (Authenticate (ae_bcrypt E) (ae_dummyHash E) (ae_clock E) ip user pw (authent w)),
      w\<lparr>authent := snd (Authenticate (ae_bcrypt E) (ae_dummyHash E) (ae_clock E) ip user pw (authent w))\<rparr>)"
  by (simp add: gw_Authenticate_def split: prod.splits)

lemma AuthUser_Inr:
  assumes "run_state (AuthUser K L gw E cc addr user pw) w = (Inr s, w')"
  obtains u where "gw_users gw user = Some u" and "s_connect s = connector K L u" and "s_mapper s = ur_mapper u"
    and "s_policy s = ur_policy u" and "s_username s = user" and "s_gate s = user" and "slash \<notin> set (s_id s)"
    and "s_ref s = next_sess w" and "next_sess w' = Suc (next_sess w)"
    and "sess_slots w' = (sess_slots w)(next_sess w := \<lparr>slot_sftp = None, slot_closed = False\<rparr>)"
    and "sessions w' = sessions w + 1"
    and "extra w' cc = map_option (\<lambda>cs. cs\<lparr>cs_sess := Some (forget_connect s)\<rparr>) (extra w cc)"
    and "wire w' = wire w"
    and "fst (Authenticate (ae_bcrypt E) (ae_dummyHash E) (ae_clock E) (hostOnly addr) user pw (authent w)) = None"
  using assms
  by (auto simp: AuthUser_def New_Session_def draw_id_def run_gw_Authenticate Let_def NewCorrelationID_no_slash
      split: option.splits if_splits)

lemma AuthUser_effects:
  assumes "run_state (AuthUser K L gw E cc addr user pw) w = (Inr s, w')"
  shows "s_ref s = next_sess w \<and> next_sess w' = Suc (next_sess w) \<and> sessions w' = sessions w + 1
    \<and> sess_slots w' = (sess_slots w)(next_sess w := \<lparr>slot_sftp = None, slot_closed = False\<rparr>)
    \<and> extra w' cc = map_option (\<lambda>cs. cs\<lparr>cs_sess := Some (forget_connect s)\<rparr>) (extra w cc)"
  by (rule AuthUser_Inr [OF assms]) simp

text \<open>A login makes a session of a configured user.\<close>

lemma new_users_runtime:
  assumes "new_users us (rs, m, gs) = Some (rs', m', gs')" and "m' n = Some u"
  shows "m n = Some u \<or> (\<exists>uc \<in> set us. uc_Username uc = n \<and> u = user_runtime uc)"
  using assms
proof (induction us arbitrary: rs m gs)
  case (Cons a us)
  then obtain rs1 gs1 where "new_users us (rs1, m(uc_Username a \<mapsto> user_runtime a), gs1) = Some (rs', m', gs')"
    by (auto split: option.splits)
  from Cons.IH [OF this Cons.prems(2)] show ?case by (auto split: if_splits)
qed simp

lemma New_Gateway_user:
  assumes "New_Gateway cfg srv rand clk = Some (gw, w0)" and "gw_users gw n = Some u"
  obtains uc where "uc \<in> set (cfg_Users cfg)" and "uc_Username uc = n" and "u = user_runtime uc" and "gw_cfg gw = cfg"
  using assms new_users_runtime [of "cfg_Users cfg" "[]" Map.empty "\<lambda>_. \<lparr>capacity = 0, slots = 0\<rparr>"]
  by (fastforce simp: New_Gateway_def split: option.splits)

text \<open>
  The whole gateway, from configuration to wire: on a gateway built from a configuration, when
  a client authenticates as a user and then sends any commands, every request that reaches the SFTP
  server names only paths inside the root configured for that user and is covered by a permission
  configured for that user, and the login itself sends nothing. As before, uploads to the root itself
  are excepted, and the configured temporary suffix must have no slash.
\<close>

theorem authenticated_connection_confined:
  assumes "New_Gateway cfg srv rand clk = Some (gw, w0)" and "slash \<notin> set (tc_TemporarySuffix (cfg_Transfer cfg))"
    and "run_state (AuthUser K L gw E cc addr user pw) w = (Inr s, w1)" and "plain_listings L"
    and "\<forall>n fl us ds. CmdTransfer n fl us ds \<in> set cs \<and> writing fl
           \<longrightarrow> (\<forall>v. remotePath s n \<noteq> Inr (v, remoteRoot (s_mapper s)))"
    and "run_state (exec_all sha L gw s cs) w1 = (x, w2)"
  shows "\<exists>uc \<in> set (cfg_Users cfg). uc_Username uc = user
    \<and> (\<exists>qs. wire w2 = wire w @ qs \<and> list_all (confined (cleanRoot (st_RootPath (uc_SFTP uc)))) qs
         \<and> list_all (permitted (user_policy uc)) qs)"
proof -
  obtain u where u: "gw_users gw user = Some u" "s_connect s = connector K L u" "s_mapper s = ur_mapper u"
    "s_policy s = ur_policy u" "slash \<notin> set (s_id s)" "wire w1 = wire w"
    using AuthUser_Inr [OF assms(3)] by metis
  obtain uc where uc: "uc \<in> set (cfg_Users cfg)" "uc_Username uc = user" "u = user_runtime uc" "gw_cfg gw = cfg"
    using New_Gateway_user [OF assms(1) u(1)] .
  have "wf_driver gw s" using u uc assms(2) by (simp add: wf_driver_def user_runtime_def)
  note c = emitsE [OF driver_confined [OF this u(2) assms(4,5)] assms(6)]
  note p = emitsE [OF driver_permitted [OF u(2) assms(4)] assms(6)]
  obtain qs where "wire w2 = wire w1 @ qs" "list_all (confined (remoteRoot (s_mapper s))) qs" using c .
  moreover obtain qs' where "wire w2 = wire w1 @ qs'" "list_all (permitted (s_policy s)) qs'" using p .
  ultimately show ?thesis using u uc by (auto simp: user_runtime_def)
qed

lemma Session_Close_slots:
  assumes "run_state (Session_Close L s) w = (e, w')"
  shows "slot_closed (slot_of s w') \<and> (\<forall>r. r \<noteq> s_ref s \<longrightarrow> sess_slots w' r = sess_slots w r)"
proof -
  have "keeps sess_slots (Client_Close L c)" for c by (rule keeps_Client_Close) simp
  note k = keepsD [OF this]
  show ?thesis
    using assms
    by (auto simp: Session_Close_def slot_of_def split: if_splits option.splits prod.splits dest!: k)
qed

text \<open>The disconnect of a connection with a session: its state before and after closing the session.\<close>

definition leaving :: "nat \<Rightarrow> connState \<Rightarrow> ('s, 'm) gw_world_scheme \<Rightarrow> ('s, 'm) gw_world_scheme" where
  "leaving cc cs w = (if cs_admitted cs
     then w\<lparr>conns := removeAll cc (conns w), activeConnections := activeConnections w - 1,
       metrics := (metrics w)\<lparr>FTPConnectionsActive := Dec (FTPConnectionsActive (metrics w))\<rparr>\<rparr>
     else w\<lparr>conns := removeAll cc (conns w)\<rparr>)"

lemma run_ClientDisconnected:
  assumes "extra w cc = Some cs" and "cs_sess cs = Some s" and "run_state (ClientDisconnected L cc) w = (x, w')"
  obtains e w2 m l where "run_state (Session_Close L s) (leaving cc cs w) = (e, w2)"
    and "w' = w2\<lparr>metrics := m, log := l, sessions := sessions w2 - 1\<rparr>"
    and "m = (if slot_sftp (slot_of s w) \<noteq> None
       then (metrics w2)\<lparr>SFTPConnectionsActive := Dec (SFTPConnectionsActive (metrics w2))\<rparr> else metrics w2)"
proof -
  obtain e w2 where 2: "run_state (Session_Close L s) (leaving cc cs w) = (e, w2)" by (metis surj_pair)
  let ?m = "if slot_sftp (slot_of s w) \<noteq> None
       then (metrics w2)\<lparr>SFTPConnectionsActive := Dec (SFTPConnectionsActive (metrics w2))\<rparr> else metrics w2"
  have "\<exists>l. w' = w2\<lparr>metrics := ?m, log := l, sessions := sessions w2 - 1\<rparr>"
    using assms 2
    by (auto simp: ClientDisconnected_def leaving_def IsConnected_def slot_of_def split: if_splits option.splits)
  with 2 that show thesis by blast
qed

lemma disconnect_session:
  assumes "extra w cc = Some cs" and "cs_sess cs = Some s" and "run_state (ClientDisconnected L cc) w = (x, w')"
  shows "sessions w' = sessions w - 1 \<and> slot_closed (slot_of s w') \<and> (\<forall>r. r \<noteq> s_ref s \<longrightarrow> sess_slots w' r = sess_slots w r)"
proof -
  obtain e w2 m l where 2: "run_state (Session_Close L s) (leaving cc cs w) = (e, w2)"
    and w': "w' = w2\<lparr>metrics := m, log := l, sessions := sessions w2 - 1\<rparr>"
    using run_ClientDisconnected [OF assms] .
  have "sessions (leaving cc cs w) = sessions w" "sess_slots (leaving cc cs w) = sess_slots w" by (simp_all add: leaving_def)
  with w' Session_Close_slots [OF 2] keepsD [OF close_fields(5) 2] show ?thesis by (simp add: slot_of_def)
qed

text \<open>
  (C36) A session ends with its connection: after a login and the disconnect of that connection, the
  wait group that shutdown drains counts as many sessions as before the login, and the session is
  closed, so its driver can no longer reach the SFTP server.
\<close>

theorem session_ends_with_connection:
  assumes "extra w cc = Some cs" and "run_state (AuthUser K L gw E cc addr user pw) w = (Inr s, w1)"
    and "run_state (ClientDisconnected L cc) w1 = (x, w2)"
  shows "sessions w2 = sessions w \<and> run_state (Session_SFTP s) w2 = (Inl errClosedSession, w2)"
proof -
  have s: "sessions w1 = sessions w + 1" "extra w1 cc = Some (cs\<lparr>cs_sess := Some (forget_connect s)\<rparr>)"
    using AuthUser_effects [OF assms(2)] assms(1) by simp_all
  have "sessions w2 = sessions w" and "slot_closed (slot_of (forget_connect s) w2)"
    using disconnect_session [OF s(2) _ assms(3)] s(1) by simp_all
  then show ?thesis by (simp add: Session_SFTP_def slot_of_def forget_connect_def)
qed


section \<open>A concrete gateway\<close>

definition demo_env :: auth_env where
  "demo_env = \<lparr>ae_bcrypt = (=), ae_dummyHash = ''-'', ae_clock = \<lparr>ip_clock = example_clock 5, user_clock = example_clock 5,
     ip_fail = 5, user_fail = 5\<rparr>, ae_now = 5\<rparr>"

definition demo_cfg :: Config where
  "demo_cfg = applyDefaults sample_config"

definition demo_built :: "(Gateway \<times> tree gw_world) option" where
  "demo_built = New_Gateway demo_cfg empty_tree (\<lambda>_. Some [0, 1, 2, 3, 4, 5, 6, 7]) (\<lambda>_. 0)"

definition demo_gateway :: Gateway where
  "demo_gateway = fst (the demo_built)"

definition demo_connected :: "tree gw_world" where
  "demo_connected = (snd (the demo_built))\<lparr>extra := (\<lambda>_. Some \<lparr>cs_admitted = True, cs_sess = None\<rparr>)\<rparr>"

abbreviation demo_AuthUser :: "(tree gw_world, (tree, unit) driver_session result) state" where
  "demo_AuthUser \<equiv> AuthUser accepting_lib tree_lib demo_gateway demo_env 1 ''10.0.0.9:4000'' ''ax'' ''$2a$hash''"

lemma demo_built_Some: "New_Gateway demo_cfg empty_tree (\<lambda>_. Some [0, 1, 2, 3, 4, 5, 6, 7]) (\<lambda>_. 0) = Some (demo_gateway, snd (the demo_built))"
proof -
  have "\<not> Option.is_none demo_built" by code_simp
  then show ?thesis by (simp add: demo_gateway_def demo_built_def [symmetric] Option.is_none_def)
qed

lemma AuthUser_succeeds:
  assumes "gw_users gw user = Some u"
    and "Authenticate (ae_bcrypt E) (ae_dummyHash E) (ae_clock E) (hostOnly addr) user pw (authent w) = (None, a)"
  shows "\<exists>s w'. run_state (AuthUser K L gw E cc addr user pw) w = (Inr s, w') \<and> authent w' = a"
  using assms
  by (simp add: AuthUser_def New_Session_def draw_id_def run_gw_Authenticate Let_def split: option.split)

text \<open>The authenticator before and after a login, which succeeds both times.\<close>

definition demo_Authenticate :: "Authenticator \<Rightarrow> go_error option \<times> Authenticator" where
  "demo_Authenticate = Authenticate (ae_bcrypt demo_env) (ae_dummyHash demo_env) (ae_clock demo_env) ''10.0.0.9'' ''ax'' ''$2a$hash''"

lemma demo_logins:
  obtains s w1 s' w2 where "run_state demo_AuthUser demo_connected = (Inr s, w1)" and "run_state demo_AuthUser w1 = (Inr s', w2)"
proof -
  have h: "hostOnly ''10.0.0.9:4000'' = ''10.0.0.9''" by code_simp
  have "\<not> Option.is_none (gw_users demo_gateway ''ax'')" by code_simp
  then obtain u where u: "gw_users demo_gateway ''ax'' = Some u" by (auto simp: Option.is_none_def)
  have n: "fst (demo_Authenticate (authent demo_connected)) = None"
    "fst (demo_Authenticate (snd (demo_Authenticate (authent demo_connected)))) = None" by code_simp+
  obtain a where 1: "demo_Authenticate (authent demo_connected) = (None, a)" using n(1) by (metis prod.collapse)
  obtain a' where 2: "demo_Authenticate a = (None, a')" using n(2) 1 by (metis prod.collapse snd_conv)
  note au = AuthUser_succeeds [OF u, of demo_env "''10.0.0.9:4000''" "''$2a$hash''", unfolded h, folded demo_Authenticate_def]
  from au [OF 1] obtain s w1 where "run_state demo_AuthUser demo_connected = (Inr s, w1)" "authent w1 = a" by blast
  moreover from au [of w1 a'] 2 this(2) obtain s' w2 where "run_state demo_AuthUser w1 = (Inr s', w2)" by blast
  ultimately show thesis using that by blast
qed

lemma demo_connected_extra: "extra demo_connected 1 = Some \<lparr>cs_admitted = True, cs_sess = None\<rparr>"
  by (simp add: demo_connected_def)

theorem session_ends_with_connection_witness:
  "\<exists>s w1. run_state demo_AuthUser demo_connected = (Inr s, w1)
     \<and> sessions (snd (run_state (ClientDisconnected tree_lib 1) w1)) = sessions demo_connected"
proof -
  obtain s w1 where 1: "run_state demo_AuthUser demo_connected = (Inr s, w1)" using demo_logins by metis
  from session_ends_with_connection [OF demo_connected_extra 1 prod.collapse [symmetric]] 1 show ?thesis by blast
qed


theorem authenticated_connection_confined_witness:
  "\<exists>s w1. run_state demo_AuthUser demo_connected = (Inr s, w1)
    \<and> (\<exists>uc \<in> set (cfg_Users demo_cfg). \<exists>qs.
         wire (snd (run_state (exec_all id tree_lib demo_gateway s [CmdReadDir ''/../..'', CmdRemove ''/a'']) w1)) = wire demo_connected @ qs
         \<and> list_all (confined (cleanRoot (st_RootPath (uc_SFTP uc)))) qs)"
proof -
  have s: "slash \<notin> set (tc_TemporarySuffix (cfg_Transfer demo_cfg))" by code_simp
  obtain s w1 where 1: "run_state demo_AuthUser demo_connected = (Inr s, w1)" using demo_logins by metis
  have c: "\<forall>n fl us ds. CmdTransfer n fl us ds \<in> set [CmdReadDir ''/../..'', CmdRemove ''/a''] \<and> writing fl
     \<longrightarrow> (\<forall>v. remotePath s n \<noteq> Inr (v, remoteRoot (s_mapper s)))" by simp
  show ?thesis
    using authenticated_connection_confined [OF demo_built_Some s 1 tree_plain_listings c prod.collapse [symmetric], of id] 1
    by blast
qed

text \<open>
  Why the confinement of a connection asks for a temporary suffix without a slash: the validation
  does not, and with such a suffix the temporary file of an ordinary upload leaves the root.
\<close>

theorem slash_suffix_escapes:
  "let cfg = demo_cfg\<lparr>cfg_Transfer := (cfg_Transfer demo_cfg)\<lparr>tc_TemporarySuffix := ''/../../tmp''\<rparr>\<rparr>
   in Validate sample_env cfg = None
      \<and> \<not> WithinRoot ''/data'' (TempPath ''/data/report.csv'' ''00ff'' (tc_TemporarySuffix (cfg_Transfer cfg)))"
proof -
  have "Validate sample_env demo_cfg = None" unfolding demo_cfg_def by (rule sample_valid)
  moreover have "\<not> WithinRoot ''/data'' (TempPath ''/data/report.csv'' ''00ff'' ''/../../tmp'')" by code_simp
  ultimately show ?thesis by (simp add: Let_def Validate_any_suffix)
qed

end
