(* ===== verification/Accounting.thy ===== *)
theory Accounting
  imports ClientDriver
begin

text \<open>
  The books of the gateway: what its gauges and concurrency gates count, and the operations that
  change them. The locale \<open>observer\<close> is a part of the state that ignores what every
  operation on the remote side writes (remote server, trace, log, identifiers and the counters that
  only grow); its lemmas go once through the SFTP client and the parts of a driver method that do
  not account. The ledger of transfers (gates, two gauges, release flags) and the ledger of
  connections are its instances.
\<close>

section \<open>Observers\<close>

definition gauges :: "Metrics \<Rightarrow> Gauge \<times> Gauge \<times> Gauge" where
  "gauges m = (SFTPConnectionsActive m, TransferActive m, TemporaryFilesPending m)"

locale observer =
  fixes f :: "('s, 'm) gw_world_scheme \<Rightarrow> 'b"
  assumes remote: "f (w\<lparr>remote := r, wire := ws\<rparr>) = f w"
    and log: "f (w\<lparr>log := l\<rparr>) = f w"
    and draws: "f (w\<lparr>draws := n\<rparr>) = f w"
    and fallback: "f (w\<lparr>fallbackCounter := c\<rparr>) = f w"
    and counters: "gauges m = gauges (metrics w) \<Longrightarrow> f (w\<lparr>metrics := m\<rparr>) = f w"
begin

lemma o_send: "keeps f (send q g)"
  by (rule keeps_send) (rule remote)

lemma o_count: "(\<And>m. gauges (g m) = gauges m) \<Longrightarrow> keeps f (count g)"
  unfolding count_def by (rule keeps_modify) (rule counters)

lemma o_log: "keeps f (emit_log lvl msg attrs)"
  unfolding emit_log_def by (rule keeps_modify) (rule log)

lemma o_draw: "keeps f draw_id"
  unfolding draw_id_def by (intro keeps_basic keeps_modify) (simp add: draws fallback)

lemma o_audit: "keeps f (audit s c v e)"
  unfolding audit_def Let_def by (intro keeps_basic o_count o_log) (simp add: gauges_def)

lemmas o_flow = keeps_basic o_send o_audit o_draw o_log

lemma o_dial: "keeps f (Dial K cfg)" "keeps f (New_Client L h rt)"
  unfolding New_Client_def by (rule keeps_Dial, rule remote) (intro o_flow)

lemma o_close: "keeps f (Client_Close L c)"
  by (rule keeps_Client_Close) (rule remote)

lemma o_client:
  "keeps f (checkNoEscapingSymlink L c p)" "keeps f (HasPosixRename L c)" "keeps f (rejectIfExists L c p)"
  unfolding checkNoEscapingSymlink_def HasPosixRename_def rejectIfExists_def Let_def by (intro o_flow)+

lemma o_ops:
  "keeps f (Client_Stat L c p)" "keeps f (Client_OpenRead L c p)" "keeps f (Client_Remove L c p)"
  "keeps f (Client_Commit L c p q ow)" "keeps f (Client_CreateTemp L c p)" "keeps f (Client_Mkdir L c p)"
  "keeps f (Client_RemoveDirectory L c p)" "keeps f (Client_Rename L c p q ow)"
  unfolding Client_Stat_def Client_OpenRead_def Client_Remove_def Client_Commit_def Client_CreateTemp_def
    Client_Mkdir_def Client_RemoveDirectory_def Client_Rename_def Let_def
  by (intro o_flow o_client)+

lemma o_safe_entries: "keeps f (safe_entries L c p es)"
  by (induction es) (auto intro!: o_flow o_client)

lemma o_ReadDir: "keeps f (Client_ReadDir L c p t)"
  unfolding Client_ReadDir_def by (intro o_flow o_client o_safe_entries)

lemma o_fs:
  "keeps f (fs_CreateTemp (Client_RemoteFS L c) p)" "keeps f (fs_OpenRead (Client_RemoteFS L c) p)"
  "keeps f (fs_Stat (Client_RemoteFS L c) p)"
  unfolding Client_RemoteFS_def by (simp, intro o_flow o_ops)+

lemma o_New:
  "keeps f (NewUpload (Client_RemoteFS L c) p opts)" "keeps f (NewDownload (Client_RemoteFS L c) p dopts)"
  unfolding NewUpload_def NewDownload_def Let_def by (intro o_flow o_fs)+

end

section \<open>Slots and gauges of a transfer\<close>

text \<open>
  What a transfer holds while its release has not run: a slot of the user's gate and one unit of
  the gauge of active transfers.
\<close>

definition slots_used :: "'c Session \<Rightarrow> ('s, 'm) gw_world_scheme \<Rightarrow> nat" where
  "slots_used s w = InUse (gates w (s_gate s))"

lemma run_gate_TryAcquire:
  "run_state (gate_TryAcquire s) w = (fst (TryAcquire (gates w (s_gate s))),
     w\<lparr>gates := (gates w)(s_gate s := snd (TryAcquire (gates w (s_gate s))))\<rparr>)"
  by (simp add: gate_TryAcquire_def split: prod.splits)

text \<open>The fields a transfer accounts in: gates, the two gauges, the release flags and the next of them.\<close>

type_synonym ledger = "(string \<Rightarrow> ConcurrencyGate) \<times> Gauge \<times> Gauge \<times> (nat \<Rightarrow> bool) \<times> nat"

definition books :: "('s, 'm) gw_world_scheme \<Rightarrow> ledger" where
  "books w = (gates w, TransferActive (metrics w), TemporaryFilesPending (metrics w), released w, next_release w)"

interpretation bookkeeping: observer books
  by unfold_locales (simp_all add: books_def gauges_def)

lemma keeps_books_sftp:
  assumes "s_connect s = connector K L u"
  shows "keeps books (driver_sftp s)"
proof -
  have "keeps books (connector K L u)"
    unfolding connector_def count_def
    by (intro bookkeeping.o_flow bookkeeping.o_dial keeps_modify) (simp_all add: books_def)
  moreover have "keeps books (set_slot s f)" for f
    unfolding set_slot_def by (rule keeps_modify) (simp add: books_def)
  ultimately show ?thesis
    unfolding driver_sftp_def Session_SFTP_def assms by (intro keeps_rules)
qed

text \<open>The callbacks of a transfer, on the books.\<close>

definition book_completed :: "bool \<Rightarrow> ledger \<Rightarrow> ledger" where
  "book_completed up b = (case b of (g, ta, tf, rl, nr) \<Rightarrow> (g, ta, if up then Dec tf else tf, rl, nr))"

definition book_released :: "string \<Rightarrow> nat \<Rightarrow> ledger \<Rightarrow> ledger" where
  "book_released k i b = (case b of (g, ta, tf, rl, nr) \<Rightarrow>
     if rl i then b else (g(k := Release (g k)), Dec ta, tf, rl(i := True), nr))"

lemma acts_release: "acts books (book_released (s_gate s) i) (release s i)"
  by (rule actsI) (auto simp: release_def gate_Release_def books_def book_released_def split: if_splits)

lemma acts_recordTransfer: "acts books (book_completed (c = ''STOR'')) (recordTransfer c s r)"
  by (rule actsI) (auto simp: recordTransfer_def books_def book_completed_def split: if_splits)

lemma beginUpload_ledger:
  assumes "run_state (NewUpload (Client_RemoteFS L c) r (upload_options gw s v tid i)) w = (Inr u, w')"
  shows "upload_ledger books (book_completed True) (book_released (s_gate s) i) u"
proof -
  note u = NewUpload_Inr [OF assms]
  then obtain h where "u_file u = sftp_writer L h" by (auto simp: run_CreateTemp_Inr)
  with u show ?thesis
    by (simp add: acts_recordTransfer [of "''STOR''", simplified] acts_release upload_ledger_def upload_options_def run_Release_def run_OnComplete_def bookkeeping.o_send bookkeeping.o_ops)
qed

lemma beginDownload_ledger:
  assumes "run_state (NewDownload (Client_RemoteFS L c) r (download_options gw s v tid i)) w = (Inr d, w')"
  shows "download_ledger books (book_completed False) (book_released (s_gate s) i) d \<and> \<not> d_closed d"
proof -
  obtain f w1 where f: "run_state (fs_OpenRead (Client_RemoteFS L c) r) w = (Inr f, w1)" "d_file d = f"
    "d_opts d = download_options gw s v tid i" "\<not> d_closed d"
    using assms by (auto simp: NewDownload_def split: prod.splits sum.splits)
  then obtain h where "f = sftp_reader L h" by (auto simp: run_OpenRead_Inr)
  with f show ?thesis
    by (simp add: acts_recordTransfer [of "''RETR''", simplified] acts_release download_ledger_def download_options_def run_Release_def run_OnComplete_def bookkeeping.o_send)
qed

lemma Release_TryAcquire: "fst (TryAcquire g) \<Longrightarrow> Release (snd (TryAcquire g)) = g"
  by (auto simp: TryAcquire_def Release_def split: if_splits)

text \<open>The gates and the two gauges.\<close>

definition open_books :: "('s, 'm) gw_world_scheme \<Rightarrow> (string \<Rightarrow> ConcurrencyGate) \<times> Gauge \<times> Gauge" where
  "open_books w = (gates w, TransferActive (metrics w), TemporaryFilesPending (metrics w))"

lemma open_books_eq: "books w' = books w \<Longrightarrow> open_books w' = open_books w"
  by (simp add: books_def open_books_def)

text \<open>The books after a transfer was admitted and before its handle is made.\<close>

definition book_admitted :: "bool \<Rightarrow> string \<Rightarrow> nat \<Rightarrow> ledger \<Rightarrow> ledger" where
  "book_admitted up k i b = (case b of (g, ta, tf, rl, nr) \<Rightarrow>
     (g(k := snd (TryAcquire (g k))), Inc ta, if up then Inc tf else tf, rl(i := False), Suc i))"

text \<open>Everything taken has been given back, and the release flags handed out earlier are untouched.\<close>

definition settled :: "('s, 'm) gw_world_scheme \<Rightarrow> ('s, 'm) gw_world_scheme \<Rightarrow> bool" where
  "settled w w' \<longleftrightarrow> open_books w' = open_books w \<and> next_release w \<le> next_release w'
     \<and> (\<forall>j < next_release w. released w' j = released w j)"

lemma settled_eq: "books w' = books w \<Longrightarrow> settled w w'"
  by (simp add: settled_def books_def open_books_def)

lemma book_round_trip:
  assumes "fst (TryAcquire (gates w (s_gate s)))"
    and "books w' = book_released (s_gate s) (next_release w)
      (book_completed up (book_admitted up (s_gate s) (next_release w) (books w)))"
  shows "settled w w'"
  using assms Release_TryAcquire [OF assms(1)]
  by (auto simp: settled_def books_def open_books_def book_admitted_def book_completed_def book_released_def Inc_def Dec_def fun_eq_iff)

lemma beginUpload_books:
  assumes "run_state (beginUpload L gw s sc v r fl) w = (res, w')"
  shows "case res of Inl e \<Rightarrow> settled w w'
    | Inr u \<Rightarrow> \<not> u_closed u \<and> fst (TryAcquire (gates w (s_gate s)))
        \<and> books w' = book_admitted True (s_gate s) (next_release w) (books w)
        \<and> upload_ledger books (book_completed True) (book_released (s_gate s) (next_release w)) u"
proof (cases "\<not> appending fl \<and> AllowUpload (s_policy s) \<and> fst (TryAcquire (gates w (s_gate s)))")
  case False
  have "snd (TryAcquire g) = g" if "\<not> fst (TryAcquire g)" for g using that by (simp add: TryAcquire_def split: if_splits)
  with False assms show ?thesis
    by (cases "appending fl"; cases "AllowUpload (s_policy s)")
       (auto simp: beginUpload_def run_gate_TryAcquire CheckUpload_def audit_def settled_def open_books_def)
next
  case True
  let ?i = "next_release w" and ?k = "s_gate s"
  define w1 where "w1 = w\<lparr>gates := (gates w)(?k := snd (TryAcquire (gates w ?k))), next_release := Suc ?i,
    released := (released w)(?i := False), metrics := (metrics w)\<lparr>TransferActive := Inc (TransferActive (metrics w)),
      TransferTotal := Inc (TransferTotal (metrics w)), TemporaryFilesPending := Inc (TemporaryFilesPending (metrics w))\<rparr>\<rparr>"
  obtain tid w2 where 2: "run_state draw_id w1 = (tid, w2)" by fastforce
  obtain up w3 where 3: "run_state (NewUpload (Client_RemoteFS L sc) r (upload_options gw s v tid ?i)) w2 = (up, w3)"
    by fastforce
  have "books w1 = book_admitted True ?k ?i (books w)" by (simp add: w1_def books_def book_admitted_def)
  moreover have "books w2 = books w1" "books w3 = books w2"
    using keepsD [OF bookkeeping.o_draw 2] keepsD [OF bookkeeping.o_New(1) 3] .
  ultimately have b: "books w3 = book_admitted True ?k ?i (books w)" by simp
  have run: "run_state (beginUpload L gw s sc v r fl) w = (case up of
      Inl err \<Rightarrow> run_state (do {
        _ \<leftarrow> count (\<lambda>m. m\<lparr>TemporaryFilesPending := Dec (TemporaryFilesPending m)\<rparr>);
        _ \<leftarrow> release s ?i;
        _ \<leftarrow> audit s ''STOR'' v (Some err);
        return (Inl err) }) w3
    | Inr u \<Rightarrow> (Inr u, w3))"
    using True 2 3
    by (simp add: beginUpload_def run_gate_TryAcquire new_release_def w1_def CheckUpload_def split: sum.split)
  show ?thesis
  proof (cases up)
    case (Inl err)
    define w4 where "w4 = w3\<lparr>metrics := (metrics w3)\<lparr>TemporaryFilesPending := Dec (TemporaryFilesPending (metrics w3))\<rparr>\<rparr>"
    obtain w5 where 5: "run_state (release s ?i) w4 = ((), w5)" by (metis old.unit.exhaust surj_pair)
    obtain w6 where 6: "run_state (audit s ''STOR'' v (Some err)) w5 = ((), w6)" by (metis old.unit.exhaust surj_pair)
    have "books w4 = book_completed True (books w3)" by (simp add: w4_def books_def book_completed_def)
    then have "books w6 = book_released ?k ?i (book_completed True (books w3))"
      using actsD [OF acts_release 5] keepsD [OF bookkeeping.o_audit 6] by simp
    with book_round_trip [of w s w6 True] b True have "settled w w6" by simp
    with assms run Inl 5 6 show ?thesis by (auto simp: w4_def)
  next
    case (Inr u)
    with assms run have "res = Inr u" "w' = w3" by simp_all
    with Inr 3 b True beginUpload_ledger NewUpload_Inr show ?thesis by fastforce
  qed
qed

lemma beginDownload_books:
  assumes "run_state (beginDownload L gw s sc v r) w = (res, w')"
  shows "case res of Inl e \<Rightarrow> settled w w'
    | Inr d \<Rightarrow> \<not> d_closed d \<and> fst (TryAcquire (gates w (s_gate s)))
        \<and> books w' = book_admitted False (s_gate s) (next_release w) (books w)
        \<and> download_ledger books (book_completed False) (book_released (s_gate s) (next_release w)) d"
proof (cases "AllowDownload (s_policy s) \<and> fst (TryAcquire (gates w (s_gate s)))")
  case False
  have "snd (TryAcquire g) = g" if "\<not> fst (TryAcquire g)" for g using that by (simp add: TryAcquire_def split: if_splits)
  with False assms show ?thesis
    by (cases "AllowDownload (s_policy s)")
       (auto simp: beginDownload_def run_gate_TryAcquire CheckDownload_def audit_def settled_def open_books_def)
next
  case True
  let ?i = "next_release w" and ?k = "s_gate s"
  define w1 where "w1 = w\<lparr>gates := (gates w)(?k := snd (TryAcquire (gates w ?k))), next_release := Suc ?i,
    released := (released w)(?i := False), metrics := (metrics w)\<lparr>TransferActive := Inc (TransferActive (metrics w)),
      TransferTotal := Inc (TransferTotal (metrics w))\<rparr>\<rparr>"
  obtain tid w2 where 2: "run_state draw_id w1 = (tid, w2)" by fastforce
  obtain dn w3 where 3: "run_state (NewDownload (Client_RemoteFS L sc) r (download_options gw s v tid ?i)) w2 = (dn, w3)"
    by fastforce
  have "books w1 = book_admitted False ?k ?i (books w)" by (simp add: w1_def books_def book_admitted_def)
  moreover have "books w2 = books w1" "books w3 = books w2"
    using keepsD [OF bookkeeping.o_draw 2] keepsD [OF bookkeeping.o_New(2) 3] .
  ultimately have b: "books w3 = book_admitted False ?k ?i (books w)" by simp
  have run: "run_state (beginDownload L gw s sc v r) w = (case dn of
      Inl err \<Rightarrow> run_state (do {
        _ \<leftarrow> release s ?i;
        _ \<leftarrow> audit s ''RETR'' v (Some err);
        return (Inl err) }) w3
    | Inr d \<Rightarrow> (Inr d, w3))"
    using True 2 3
    by (simp add: beginDownload_def run_gate_TryAcquire new_release_def w1_def CheckDownload_def split: sum.split)
  show ?thesis
  proof (cases dn)
    case (Inl err)
    obtain w5 where 5: "run_state (release s ?i) w3 = ((), w5)" by (metis old.unit.exhaust surj_pair)
    obtain w6 where 6: "run_state (audit s ''RETR'' v (Some err)) w5 = ((), w6)" by (metis old.unit.exhaust surj_pair)
    have "book_completed False x = x" for x by (simp add: book_completed_def split: prod.split)
    then have "books w6 = book_released ?k ?i (book_completed False (books w3))"
      using actsD [OF acts_release 5] keepsD [OF bookkeeping.o_audit 6] by simp
    with book_round_trip [of w s w6 False] b True have "settled w w6" by simp
    with assms run Inl 5 6 show ?thesis by auto
  next
    case (Inr d)
    with assms run have "res = Inr d" "w' = w3" by simp_all
    with Inr 3 b True beginDownload_ledger show ?thesis by fastforce
  qed
qed

text \<open>What \<open>GetHandle\<close> does: fail early, or start the transfer with unchanged books.\<close>

lemma GetHandle_cases:
  assumes "s_connect s = connector K L u" and "run_state (GetHandle L gw s n fl) w = (h, w')"
  obtains (early) e where "h = Inl e" and "settled w w'"
  | (up) sc v r w1 res where "books w1 = books w" and "run_state (beginUpload L gw s sc v r fl) w1 = (res, w')"
      and "h = map_sum id UploadTransfer res"
  | (down) sc v r w1 res where "books w1 = books w" and "run_state (beginDownload L gw s sc v r) w1 = (res, w')"
      and "h = map_sum id DownloadTransfer res"
proof (cases "remotePath s n")
  case (Inl e)
  with assms(2) early show ?thesis by (auto simp: GetHandle_def Let_def audit_def settled_def open_books_def)
next
  case (Inr vr)
  obtain v r where vr: "vr = (v, r)" by fastforce
  obtain c w1 where c: "run_state (driver_sftp s) w = (c, w1)" by fastforce
  have b: "books w1 = books w" using keepsD [OF keeps_books_sftp [OF assms(1)] c] .
  show ?thesis
  proof (cases c)
    case (Inl e)
    with assms(2) c \<open>remotePath s n = Inr vr\<close> vr settled_eq [OF b] early show ?thesis
      by (auto simp: GetHandle_def Let_def audit_def settled_def open_books_def)
  next
    case sc: (Inr sc)
    with assms(2) c \<open>remotePath s n = Inr vr\<close> vr up [OF b] down [OF b] show ?thesis
      by (auto simp: GetHandle_def Let_def split: prod.splits if_splits)
  qed
qed

lemma drive_upload_books:
  assumes "run_state (beginUpload L gw s sc v r fl) w = (res, w1)" and "CallClose \<in> set us"
    and "run_state (drive_handle sha us ds (map_sum id UploadTransfer res)) w1 = (x, w')"
  shows "settled w w'"
proof (cases res)
  case (Inl e)
  with beginUpload_books [OF assms(1)] assms(3) show ?thesis by (simp add: drive_handle_def)
next
  case (Inr y)
  with beginUpload_books [OF assms(1)] have i: "books w1 = book_admitted True (s_gate s) (next_release w) (books w)"
    "upload_ledger books (book_completed True) (book_released (s_gate s) (next_release w)) y" "\<not> u_closed y"
    "fst (TryAcquire (gates w (s_gate s)))" by auto
  obtain y' where r: "run_state (upload_run sha us y) w1 = (y', w')"
    using assms(3) Inr by (auto simp: drive_handle_def split: prod.splits)
  have "books w' = book_released (s_gate s) (next_release w) (book_completed True (books w1))"
    using upload_run_acts [OF i(2) r] assms(2) i(3) by simp
  with book_round_trip [OF i(4)] i(1) show ?thesis by simp
qed

lemma drive_download_books:
  assumes "run_state (beginDownload L gw s sc v r) w = (res, w1)" and "CallDownloadClose \<in> set ds"
    and "run_state (drive_handle sha us ds (map_sum id DownloadTransfer res)) w1 = (x, w')"
  shows "settled w w'"
proof (cases res)
  case (Inl e)
  with beginDownload_books [OF assms(1)] assms(3) show ?thesis by (simp add: drive_handle_def)
next
  case (Inr y)
  with beginDownload_books [OF assms(1)] have i: "books w1 = book_admitted False (s_gate s) (next_release w) (books w)"
    "download_ledger books (book_completed False) (book_released (s_gate s) (next_release w)) y" "\<not> d_closed y"
    "fst (TryAcquire (gates w (s_gate s)))" by auto
  obtain y' where r: "run_state (download_run sha ds y) w1 = (y', w')"
    using assms(3) Inr by (auto simp: drive_handle_def split: prod.splits)
  have "books w' = book_released (s_gate s) (next_release w) (book_completed False (books w1))"
    using download_run_acts [OF i(2) r] assms(2) i(3) by simp
  with book_round_trip [OF i(4)] i(1) show ?thesis by simp
qed

text \<open>
  (C22) A transfer gives back what it takes: whatever its outcome (refused by the policy, by the
  gate, by the remote server, failed half way or completed), once its handle has been closed, even
  several times, the user's concurrency gate, the gauge of active transfers and the gauge of
  pending temporary files are exactly as they were before the command.
\<close>

theorem transfer_returns_slot:
  assumes "s_connect s = connector K L u" and "CallClose \<in> set us" and "CallDownloadClose \<in> set ds"
    and "run_state (exec sha L gw s (CmdTransfer n fl us ds)) w = (x, w')"
  shows "open_books w' = open_books w"
proof -
  obtain h w1 where h: "run_state (GetHandle L gw s n fl) w = (h, w1)"
    and d: "run_state (drive_handle sha us ds h) w1 = (x, w')"
    using assms(4) by (auto split: prod.splits)
  from assms(1) h show ?thesis
  proof (cases rule: GetHandle_cases)
    case (early e)
    with d show ?thesis by (simp add: drive_handle_def settled_def)
  next
    case (up sc v r w2 res)
    with drive_upload_books [OF up(2) assms(2)] d open_books_eq show ?thesis by (metis settled_def)
  next
    case (down sc v r w2 res)
    with drive_download_books [OF down(2) assms(3)] d open_books_eq show ?thesis by (metis settled_def)
  qed
qed

theorem transfer_returns_slot_witness:
  "slots (gates (snd (run_state (exec id tree_lib demo_gw demo_session
     (CmdTransfer ''/a.xml'' 1 [CallWrite [1, 2], CallClose, CallClose] [CallDownloadClose])) demo_world)) ''ax'') = 0"
proof -
  have "open_books (snd (run_state (exec id tree_lib demo_gw demo_session
     (CmdTransfer ''/a.xml'' 1 [CallWrite [1, 2], CallClose, CallClose] [CallDownloadClose])) demo_world)) = open_books demo_world"
    by (rule transfer_returns_slot [OF demo_facts(2) _ _ prod.collapse [symmetric]]) simp_all
  then show ?thesis by (simp add: open_books_def demo_world_def)
qed

end
