(* ===== verification/Isolation.thy ===== *)
theory Isolation
  imports Gateway Accounting
begin

text \<open>
  What the commands of a connection cannot touch. The driver of a connection shares the gateway's
  state with every other connection; a part of that state is a bystander when it ignores the fields
  the driver writes. The locales extend the interface of an observer in two steps: a transfer
  bystander ignores what transfers account in (gates, release flags and their gauges), a bystander
  also the gauge of connections and the sessions' slots. Their lemmas go through every call on a
  transfer handle and every method of the driver; the interpretation of the second is the gateway's
  admission, authentication and shutdown state.
\<close>

locale transfer_bystander = observer f
  for f :: "('s, 'm) gw_world_scheme \<Rightarrow> 'b" +
  assumes gates: "f (w\<lparr>gates := g\<rparr>) = f w"
    and released: "f (w\<lparr>released := b\<rparr>) = f w"
    and next_release: "f (w\<lparr>next_release := n\<rparr>) = f w"
    and tallies: "SFTPConnectionsActive m = SFTPConnectionsActive (metrics w) \<Longrightarrow> f (w\<lparr>metrics := m\<rparr>) = f w"
begin

lemma x_count: "(\<And>m. SFTPConnectionsActive (g m) = SFTPConnectionsActive m) \<Longrightarrow> keeps f (count g)"
  unfolding count_def by (rule keeps_modify) (rule tallies)

lemma x_acquire: "keeps f (gate_TryAcquire s)"
  by (auto simp: gate_TryAcquire_def keeps_def state_io_rel_def gates split: prod.splits)

lemma x_new_release: "keeps f new_release"
  unfolding new_release_def by (intro keeps_basic keeps_modify) (simp add: next_release released)

lemma x_release: "keeps f (release s i)"
  unfolding release_def gate_Release_def by (intro keeps_basic keeps_modify x_count) (simp_all add: released gates)

lemma x_record: "keeps f (recordTransfer c s r)"
  unfolding recordTransfer_def Let_def by (intro keeps_basic x_count o_log) simp_all

lemmas x_flow = o_flow x_count x_acquire x_new_release x_release

lemma x_begin:
  "keeps f (beginUpload L gw s sc v r fl)" "keeps f (beginDownload L gw s sc v r)"
  unfolding beginUpload_def beginDownload_def Let_def by (intro x_flow o_New; simp)+

lemma upload_handle_ledger:
  assumes "run_state (beginUpload L gw s sc v r fl) w = (Inr x, w')"
  shows "upload_ledger f id id x"
proof -
  obtain tid rel w1 where n: "run_state (NewUpload (Client_RemoteFS L sc) r (upload_options gw s v tid rel)) w1 = (Inr x, w')"
    using beginUpload_Inr [OF assms] .
  note x = NewUpload_Inr [OF n]
  then obtain h where "u_file x = sftp_writer L h" by (auto simp: run_CreateTemp_Inr)
  with x show ?thesis
    by (simp add: upload_ledger_def upload_options_def run_Release_def run_OnComplete_def o_send o_ops keeps_acts x_release x_record)
qed

lemma download_handle_ledger:
  assumes "run_state (beginDownload L gw s sc v r) w = (Inr x, w')"
  shows "download_ledger f id id x"
proof -
  obtain tid rel w1 where n: "run_state (NewDownload (Client_RemoteFS L sc) r (download_options gw s v tid rel)) w1 = (Inr x, w')"
    using beginDownload_Inr [OF assms] .
  obtain h w2 where h: "run_state (fs_OpenRead (Client_RemoteFS L sc) r) w1 = (Inr h, w2)" "d_file x = h"
    "d_opts x = download_options gw s v tid rel"
    using n by (auto simp: NewDownload_def split: prod.splits sum.splits)
  then obtain hd where "h = sftp_reader L hd" by (auto simp: run_OpenRead_Inr)
  with h show ?thesis
    by (simp add: download_ledger_def download_options_def run_Release_def run_OnComplete_def o_send keeps_acts x_release x_record)
qed

lemma handle_of_GetHandle:
  assumes "run_state (GetHandle L gw s n fl) w = (Inr ft, w')"
  obtains (upload) x where "ft = UploadTransfer x" and "upload_ledger f id id x"
  | (download) x where "ft = DownloadTransfer x" and "download_ledger f id id x"
proof (cases ft)
  case (UploadTransfer x)
  then obtain v r sc w1 where "run_state (beginUpload L gw s sc v r fl) w1 = (Inr x, w')"
    using assms by (auto simp: GetHandle_def Let_def map_sum_def split: sum.splits prod.splits if_splits)
  with upload UploadTransfer upload_handle_ledger show thesis by blast
next
  case (DownloadTransfer x)
  then obtain v r sc w1 where "run_state (beginDownload L gw s sc v r) w1 = (Inr x, w')"
    using assms by (auto simp: GetHandle_def Let_def map_sum_def split: sum.splits prod.splits if_splits)
  with download DownloadTransfer download_handle_ledger show thesis by blast
qed

end

locale bystander = transfer_bystander f
  for f :: "('s, 'm) gw_world_scheme \<Rightarrow> 'b" +
  assumes metrics: "f (w\<lparr>metrics := m\<rparr>) = f w"
    and slots: "f (w\<lparr>sess_slots := sl\<rparr>) = f w"
begin

lemma k_count: "keeps f (count g)"
  unfolding count_def by (rule keeps_modify) (rule metrics)

lemma k_slot: "keeps f (set_slot s g)"
  unfolding set_slot_def by (rule keeps_modify) (simp add: slots)

lemmas k_flow = o_flow k_count k_slot

lemma k_connector: "keeps f (connector K L u)"
  unfolding connector_def by (intro k_flow o_dial)

lemma k_sftp:
  assumes "s_connect s = connector K L u"
  shows "keeps f (driver_sftp s)"
  unfolding driver_sftp_def Session_SFTP_def assms by (intro k_flow k_connector)

lemma k_invalidate: "keeps f (maybeInvalidate L s e)"
  unfolding maybeInvalidate_def IsConnected_def InvalidateSFTP_def Let_def by (intro k_flow o_close)

lemma k_GetHandle:
  assumes "s_connect s = connector K L u"
  shows "keeps f (GetHandle L gw s n fl)"
  unfolding GetHandle_def Let_def by (intro k_flow k_sftp [OF assms] x_begin)

lemma k_drive:
  assumes "run_state (GetHandle L gw s n fl) w = (h, w')"
  shows "keeps f (drive_handle sha us ds h)"
proof (cases h)
  case (Inl e)
  then show ?thesis by (simp add: drive_handle_def keeps_basic)
next
  case (Inr ft)
  from assms [unfolded Inr] show ?thesis
  proof (cases rule: handle_of_GetHandle)
    case (upload x)
    from upload_run_acts [OF upload(2)] have "keeps f (upload_run sha us x)" by (intro keepsI) auto
    with Inr upload show ?thesis by (simp add: drive_handle_def keeps_basic)
  next
    case (download x)
    from download_run_acts [OF download(2)] have "keeps f (download_run sha ds x)" by (intro keepsI) auto
    with Inr download show ?thesis by (simp add: drive_handle_def keeps_basic)
  qed
qed

lemma k_methods:
  assumes "s_connect s = connector K L u"
  shows "keeps f (driver_Stat L s n)" "keeps f (driver_Mkdir L s n)" "keeps f (driver_Remove L s n)"
    "keeps f (driver_RemoveDir L s n)" "keeps f (driver_Rename L s n n')" "keeps f (driver_ReadDir L gw s n)"
  unfolding driver_Stat_def driver_Mkdir_def driver_Remove_def driver_RemoveDir_def driver_Rename_def driver_ReadDir_def
  by (intro k_flow k_sftp [OF assms] o_ops o_ReadDir k_invalidate)+

lemma exec_keeps:
  assumes "s_connect s = connector K L u"
  shows "keeps f (exec sha L gw s c)"
proof (cases c)
  case (CmdTransfer n fl us ds)
  then show ?thesis by (auto intro: keeps_bind_results k_GetHandle [OF assms] k_drive)
qed (auto intro!: keeps_basic k_methods [OF assms])

lemma exec_all_keeps:
  assumes "s_connect s = connector K L u"
  shows "keeps f (exec_all sha L gw s cs)"
  by (induction cs) (auto intro!: keeps_basic exec_keeps [OF assms])

end

text \<open>Admission, authentication and shutdown state.\<close>

definition lobby :: "('s, 'm) gw_world_scheme \<Rightarrow> 64 word \<times> bool \<times> Authenticator \<times> int \<times> nat list \<times> (nat \<Rightarrow> connState option)" where
  "lobby w = (activeConnections w, shuttingDown w, authent w, sessions w, conns w, extra w)"

interpretation lobby_state: bystander lobby
  by unfold_locales (simp_all add: lobby_def)

end
