(* ===== verification/Admission.thy ===== *)
theory Admission
  imports Isolation
begin

text \<open>
  Connections are served by concurrent goroutines, and \<open>ClientConnected\<close> is not one atomic
  step: it reads \<open>shuttingDown\<close>, adds to \<open>activeConnections\<close>, compares the result of the
  addition, and takes it back when it is too large. This theory gives the step relation whose
  steps are those atomic operations, for any number of connections interleaved in any way, and
  proves by rule induction that the limit holds in every reachable state. The code's
  \<open>ClientConnected\<close> and \<open>ClientDisconnected\<close>, run without interference, are
  sequences of steps of the relation.
\<close>

section \<open>Steps\<close>

datatype conn_phase =
    NotSeen
  | Passed
  | Counted "64 word"
  | Refused
  | Admitted
  | Gone

record adm =
  adm_active :: "64 word"
  adm_closing :: bool
  adm_phase :: "nat \<Rightarrow> conn_phase"

text \<open>\<open>N\<close> bounds the connection identifiers, \<open>mx\<close> is \<open>maxConnections\<close>.\<close>

inductive adm_step :: "nat \<Rightarrow> int \<Rightarrow> adm \<Rightarrow> adm \<Rightarrow> bool" for N :: nat and mx :: int where
  arrive_closing: "i < N \<Longrightarrow> adm_phase s i = NotSeen \<Longrightarrow> adm_closing s \<Longrightarrow>
    adm_step N mx s (s\<lparr>adm_phase := (adm_phase s)(i := Refused)\<rparr>)"
| arrive: "i < N \<Longrightarrow> adm_phase s i = NotSeen \<Longrightarrow> \<not> adm_closing s \<Longrightarrow>
    adm_step N mx s (s\<lparr>adm_phase := (adm_phase s)(i := Passed)\<rparr>)"
| add: "i < N \<Longrightarrow> adm_phase s i = Passed \<Longrightarrow>
    adm_step N mx s (s\<lparr>adm_active := adm_active s + 1, adm_phase := (adm_phase s)(i := Counted (adm_active s + 1))\<rparr>)"
| admit: "adm_phase s i = Counted v \<Longrightarrow> sint v \<le> mx \<Longrightarrow>
    adm_step N mx s (s\<lparr>adm_phase := (adm_phase s)(i := Admitted)\<rparr>)"
| refuse: "adm_phase s i = Counted v \<Longrightarrow> sint v > mx \<Longrightarrow>
    adm_step N mx s (s\<lparr>adm_active := adm_active s - 1, adm_phase := (adm_phase s)(i := Refused)\<rparr>)"
| leave: "adm_phase s i = Admitted \<Longrightarrow>
    adm_step N mx s (s\<lparr>adm_active := adm_active s - 1, adm_phase := (adm_phase s)(i := Gone)\<rparr>)"
| shutdown: "adm_step N mx s (s\<lparr>adm_closing := True\<rparr>)"

inductive_cases adm_stepE: "adm_step N mx s s'"

definition adm_init :: adm where
  "adm_init = \<lparr>adm_active = 0, adm_closing = False, adm_phase = (\<lambda>_. NotSeen)\<rparr>"

abbreviation adm_reachable :: "nat \<Rightarrow> int \<Rightarrow> adm \<Rightarrow> bool" where
  "adm_reachable N mx s \<equiv> (adm_step N mx)\<^sup>*\<^sup>* adm_init s"

section \<open>The invariant\<close>

fun counted :: "conn_phase \<Rightarrow> bool" where
  "counted (Counted v) = True"
| "counted Admitted = True"
| "counted _ = False"

text \<open>Admitted, or sure to be: the result of its addition is within the limit.\<close>

fun within_limit :: "int \<Rightarrow> conn_phase \<Rightarrow> bool" where
  "within_limit mx (Counted v) = (sint v \<le> mx)"
| "within_limit mx Admitted = True"
| "within_limit mx _ = False"

definition holders :: "(nat \<Rightarrow> conn_phase) \<Rightarrow> nat set" where
  "holders f = {i. counted (f i)}"

definition winners :: "int \<Rightarrow> (nat \<Rightarrow> conn_phase) \<Rightarrow> nat set" where
  "winners mx f = {i. within_limit mx (f i)}"

definition adm_inv :: "nat \<Rightarrow> int \<Rightarrow> adm \<Rightarrow> bool" where
  "adm_inv N mx s \<longleftrightarrow> holders (adm_phase s) \<subseteq> {..<N} \<and> adm_active s = of_nat (card (holders (adm_phase s)))
     \<and> int (card (winners mx (adm_phase s))) \<le> mx \<and> (\<forall>i. adm_phase s i \<noteq> NotSeen \<longrightarrow> i < N)"

lemma counted_update:
  "holders (f(i := p)) = (if counted p then insert i (holders f) else holders f - {i})"
  "winners mx (f(i := p)) = (if within_limit mx p then insert i (winners mx f) else winners mx f - {i})"
  by (auto simp: holders_def winners_def)

lemma within_limit_counted: "within_limit mx p \<Longrightarrow> counted p"
  by (cases p) auto

lemma winners_holders: "winners mx f \<subseteq> holders f"
  by (auto simp: holders_def winners_def within_limit_counted)

lemma sint_of_nat_small: "n < 2 ^ 63 \<Longrightarrow> sint (of_nat n :: 64 word) = int n"
  by (simp add: signed_of_nat signed_take_bit_int_eq_self)

text \<open>The cardinalities after one connection changed its phase.\<close>

lemma adm_inv_finite: "adm_inv N mx s \<Longrightarrow> finite (holders (adm_phase s)) \<and> finite (winners mx (adm_phase s))"
  unfolding adm_inv_def using winners_holders finite_subset by (metis finite_lessThan)

lemma adm_inv_drop:
  assumes "adm_inv N mx s" and "i \<in> holders (adm_phase s)"
  shows "adm_active s - 1 = of_nat (card (holders (adm_phase s) - {i}))"
proof -
  have "card (holders (adm_phase s)) = Suc (card (holders (adm_phase s) - {i}))"
    using assms adm_inv_finite by (metis card.remove)
  with assms(1) have "adm_active s = of_nat (Suc (card (holders (adm_phase s) - {i})))" by (simp only: adm_inv_def)
  then show ?thesis by simp
qed

lemma adm_inv_parts:
  assumes "adm_inv N mx s"
  shows "holders (adm_phase s) \<subseteq> {..<N}" and "int (card (winners mx (adm_phase s))) \<le> mx"
    and "\<forall>j. adm_phase s j \<noteq> NotSeen \<longrightarrow> j < N"
  using assms by (simp_all add: adm_inv_def)

lemma adm_inv_step:
  assumes "adm_step N mx s s'" and "adm_inv N mx s" and "N < 2 ^ 63"
  shows "adm_inv N mx s'"
  using assms(1)
proof (cases rule: adm_step.cases)
  case (arrive_closing i)
  then have "i \<notin> holders (adm_phase s)" "i \<notin> winners mx (adm_phase s)" by (auto simp: holders_def winners_def)
  with arrive_closing assms(2) show ?thesis by (auto simp: adm_inv_def counted_update)
next
  case (arrive i)
  then have "i \<notin> holders (adm_phase s)" "i \<notin> winners mx (adm_phase s)" by (auto simp: holders_def winners_def)
  with arrive assms(2) show ?thesis by (auto simp: adm_inv_def counted_update)
next
  case (add i)
  note fin = adm_inv_finite [OF assms(2)]
  have n: "i \<notin> holders (adm_phase s)" "i \<notin> winners mx (adm_phase s)" using add by (auto simp: holders_def winners_def)
  then have ch: "card (insert i (holders (adm_phase s))) = Suc (card (holders (adm_phase s)))" and cw: "card (insert i (winners mx (adm_phase s))) = Suc (card (winners mx (adm_phase s)))"
    using fin by simp_all
  have sub: "insert i (holders (adm_phase s)) \<subseteq> {..<N}" using add(2) assms(2) by (auto simp: adm_inv_def)
  then have "card (insert i (holders (adm_phase s))) \<le> N" using card_mono [OF _ sub] by simp
  then have small: "Suc (card (holders (adm_phase s))) < 2 ^ 63" using assms(3) ch by simp
  have active: "adm_active s + 1 = of_nat (Suc (card (holders (adm_phase s))))"
    using assms(2) by (simp add: adm_inv_def add.commute)
  have v: "sint (adm_active s + 1) = int (Suc (card (holders (adm_phase s))))"
    unfolding active by (rule sint_of_nat_small [OF small])
  have "card (winners mx (adm_phase s)) \<le> card (holders (adm_phase s))" using card_mono fin winners_holders by blast
  then have "int (card (if sint (adm_active s + 1) \<le> mx then insert i (winners mx (adm_phase s)) else winners mx (adm_phase s))) \<le> mx"
    using v cw assms(2) by (auto simp: adm_inv_def)
  moreover have "adm_active s + 1 = of_nat (card (insert i (holders (adm_phase s))))"
    unfolding active ch ..
  moreover have "\<forall>j. adm_phase s j \<noteq> NotSeen \<longrightarrow> j < N" using assms(2) by (simp add: adm_inv_def)
  ultimately show ?thesis using add(1,2) sub n(2) by (auto simp: adm_inv_def counted_update split: if_splits)
next
  case (admit i v)
  then have "i \<in> holders (adm_phase s)" "i \<in> winners mx (adm_phase s)" by (auto simp: holders_def winners_def)
  with admit assms(2) show ?thesis by (auto simp: adm_inv_def counted_update insert_absorb)
next
  case (refuse i v)
  then have i: "i \<in> holders (adm_phase s)" "i \<notin> winners mx (adm_phase s)" by (auto simp: holders_def winners_def)
  note d = adm_inv_drop [OF assms(2) i(1)] and parts = adm_inv_parts [OF assms(2)]
  have "i < N" "holders (adm_phase s) - {i} \<subseteq> {..<N}" using parts(1) i(1) by auto
  with parts(2,3) i(2) refuse(1) d show ?thesis
    by (simp add: adm_inv_def counted_update del: card_Diff_insert card_Diff_singleton)
next
  case (leave i)
  then have i: "i \<in> holders (adm_phase s)" by (auto simp: holders_def)
  note d = adm_inv_drop [OF assms(2) i] and parts = adm_inv_parts [OF assms(2)]
  have "card (winners mx (adm_phase s) - {i}) \<le> card (winners mx (adm_phase s))"
    using adm_inv_finite [OF assms(2)] by (simp add: card_mono)
  then have "int (card (winners mx (adm_phase s) - {i})) \<le> mx" using parts(2) by linarith
  moreover have "i < N" "holders (adm_phase s) - {i} \<subseteq> {..<N}" using parts(1) i by auto
  ultimately show ?thesis using parts(3) leave(1) d
    by (simp add: adm_inv_def counted_update del: card_Diff_insert card_Diff_singleton)
next
  case shutdown
  with assms(2) show ?thesis by (auto simp: adm_inv_def counted_update)
qed

lemma adm_inv_reachable:
  assumes "adm_reachable N mx s" and "0 \<le> mx" and "N < 2 ^ 63"
  shows "adm_inv N mx s"
  using assms(1)
proof (induction rule: rtranclp_induct)
  case base
  then show ?case using assms(2) by (simp add: adm_inv_def adm_init_def holders_def winners_def)
next
  case (step s s')
  then show ?case using adm_inv_step assms(3) by blast
qed

text \<open>
  (C9) The connection limit holds under every interleaving: in every reachable state of any number of
  connections arriving, being counted, admitted, refused and leaving concurrently, at most
  \<open>maxConnections\<close> are admitted, although the counter itself may exceed the limit for a
  moment; and when no connection is being admitted or served, the counter is zero, so no slot is
  ever lost. Fewer than \<open>2 ^ 63\<close> connections are assumed.
\<close>

theorem admitted_never_exceed_limit:
  assumes "adm_reachable N mx s" and "0 \<le> mx" and "N < 2 ^ 63"
  shows "int (card {i. adm_phase s i = Admitted}) \<le> mx
    \<and> ((\<forall>i. \<not> counted (adm_phase s i)) \<longrightarrow> adm_active s = 0)"
proof -
  note inv = adm_inv_reachable [OF assms]
  have "{i. adm_phase s i = Admitted} \<subseteq> winners mx (adm_phase s)" by (auto simp: winners_def)
  then have "card {i. adm_phase s i = Admitted} \<le> card (winners mx (adm_phase s))"
    using adm_inv_finite [OF inv] by (simp add: card_mono)
  with inv show ?thesis by (auto simp: adm_inv_def holders_def)
qed

text \<open>Two connections race for one slot: both pass the check and are counted, one is refused.\<close>

definition race_won :: adm where
  "race_won = \<lparr>adm_active = 1, adm_closing = False, adm_phase = (\<lambda>_. NotSeen)(0 := Admitted, 1 := Refused)\<rparr>"

lemma race_won_reachable: "adm_reachable 2 1 race_won"
proof -
  let ?p = "\<lambda>a b. (\<lambda>_. NotSeen)(0 := a, 1 := b) :: nat \<Rightarrow> conn_phase"
  let ?s = "\<lambda>n a b. \<lparr>adm_active = n, adm_closing = False, adm_phase = ?p a b\<rparr>"
  have 1: "adm_step 2 1 adm_init (?s 0 Passed NotSeen)" using adm_step.arrive [of 0 2 adm_init 1] by (simp add: adm_init_def fun_upd_idem)
  have 2: "adm_step 2 1 (?s 0 Passed NotSeen) (?s 0 Passed Passed)" using adm_step.arrive [of 1 2 "?s 0 Passed NotSeen" 1] by simp
  have 3: "adm_step 2 1 (?s 0 Passed Passed) (?s 1 (Counted 1) Passed)" using adm_step.add [of 0 2 "?s 0 Passed Passed" 1] by (simp add: fun_upd_twist)
  have 4: "adm_step 2 1 (?s 1 (Counted 1) Passed) (?s 2 (Counted 1) (Counted 2))" using adm_step.add [of 1 2 "?s 1 (Counted 1) Passed" 1] by simp
  have 5: "adm_step 2 1 (?s 2 (Counted 1) (Counted 2)) (?s 1 (Counted 1) Refused)" using adm_step.refuse [of "?s 2 (Counted 1) (Counted 2)" 1 2 1 2] by simp
  have 6: "adm_step 2 1 (?s 1 (Counted 1) Refused) race_won"
    using adm_step.admit [of "?s 1 (Counted 1) Refused" 0 1 1 2] by (simp add: race_won_def fun_upd_twist)
  from 1 2 3 4 5 6 show ?thesis by (meson converse_rtranclp_into_rtranclp rtranclp.rtrancl_refl)
qed

theorem admitted_never_exceed_limit_witness: "card {i. adm_phase race_won i = Admitted} \<le> 1"
  using admitted_never_exceed_limit [OF race_won_reachable] by simp

section \<open>Shutdown\<close>

text \<open>A connection that is in, or past the check of \<open>shuttingDown\<close>.\<close>

fun underway :: "conn_phase \<Rightarrow> bool" where
  "underway Passed = True"
| "underway p = counted p"

lemma shutdown_step:
  "adm_step N mx s s' \<Longrightarrow> adm_closing s \<Longrightarrow> adm_closing s' \<and> (underway (adm_phase s' i) \<longrightarrow> underway (adm_phase s i))"
  by (cases rule: adm_step.cases, assumption) auto

text \<open>
  After \<open>PrepareShutdown\<close> no new connection gets in: whatever happens afterwards, in any
  interleaving, the connections being served or still being admitted are among those that had
  already passed the check of \<open>shuttingDown\<close> when it was set, so their number only falls.
\<close>

theorem shutdown_admits_no_new:
  assumes "(adm_step N mx)\<^sup>*\<^sup>* s s'" and "adm_closing s"
  shows "{i. underway (adm_phase s' i)} \<subseteq> {i. underway (adm_phase s i)} \<and> adm_closing s'"
  using assms(1)
proof (induction rule: rtranclp_induct)
  case base
  then show ?case using assms(2) by simp
next
  case (step y z)
  then show ?case using shutdown_step [OF step.hyps(2)] by auto
qed

theorem shutdown_admits_no_new_witness:
  "\<not> underway (adm_phase (race_won\<lparr>adm_closing := True, adm_phase := (adm_phase race_won)(2 := Refused)\<rparr>) 2)"
proof -
  let ?s = "race_won\<lparr>adm_closing := True\<rparr>"
  let ?s' = "race_won\<lparr>adm_closing := True, adm_phase := (adm_phase race_won)(2 := Refused)\<rparr>"
  have "adm_step 3 1 ?s ?s'"
    using adm_step.arrive_closing [of 2 3 ?s 1] by (simp add: race_won_def)
  from shutdown_admits_no_new [OF r_into_rtranclp [of "adm_step 3 1", OF this]]
  have "{i. underway (adm_phase ?s' i)} \<subseteq> {i. underway (adm_phase ?s i)}" by simp
  moreover have "2 \<notin> {i. underway (adm_phase ?s i)}" by (simp add: race_won_def)
  ultimately show ?thesis by blast
qed

section \<open>The gateway implements the steps\<close>

text \<open>
  A gateway with its connections: the state and the phase of every connection. The FTP library
  calls \<open>ClientConnected\<close> once per connection, authenticates and runs commands on admitted
  ones, and calls \<open>ClientDisconnected\<close> at the end, also for a refused connection.
\<close>

inductive gw_step ::
  "nat \<Rightarrow> 's ssh_lib \<Rightarrow> 's sftp_lib \<Rightarrow> Gateway \<Rightarrow> ('s, 'm) gw_world_scheme \<times> (nat \<Rightarrow> conn_phase)
     \<Rightarrow> ('s, 'm) gw_world_scheme \<times> (nat \<Rightarrow> conn_phase) \<Rightarrow> bool" for N K L gw where
  connect: "cc < N \<Longrightarrow> f cc = NotSeen \<Longrightarrow> run_state (ClientConnected gw cc addr) w = ((msg, err), w') \<Longrightarrow>
    gw_step N K L gw (w, f) (w', f(cc := if err = None then Admitted else Refused))"
| login: "f cc = Admitted \<Longrightarrow> run_state (AuthUser K L gw E cc addr user pw) w = (r, w') \<Longrightarrow>
    gw_step N K L gw (w, f) (w', f)"
| command: "s_connect s = connector K L u \<Longrightarrow> run_state (exec sha L gw s c) w = (x, w') \<Longrightarrow>
    gw_step N K L gw (w, f) (w', f)"
| disconnect: "f cc = Admitted \<Longrightarrow> run_state (ClientDisconnected L cc) w = (x, w') \<Longrightarrow>
    gw_step N K L gw (w, f) (w', f(cc := Gone))"
| disconnect_refused: "f cc = Refused \<Longrightarrow> run_state (ClientDisconnected L cc) w = (x, w') \<Longrightarrow>
    gw_step N K L gw (w, f) (w', f)"
| prepare_shutdown: "run_state PrepareShutdown w = (x, w') \<Longrightarrow> gw_step N K L gw (w, f) (w', f)"

definition adm_of :: "('s, 'm) gw_world_scheme \<times> (nat \<Rightarrow> conn_phase) \<Rightarrow> adm" where
  "adm_of = (\<lambda>(w, f). \<lparr>adm_active = activeConnections w, adm_closing = shuttingDown w, adm_phase = f\<rparr>)"

text \<open>The extras agree with the phases: a connection has one exactly from its admission on.\<close>

definition extras_ok :: "('s, 'm) gw_world_scheme \<times> (nat \<Rightarrow> conn_phase) \<Rightarrow> bool" where
  "extras_ok = (\<lambda>(w, f). \<forall>cc. (f cc = Admitted \<longrightarrow> (\<exists>cs. extra w cc = Some cs \<and> cs_admitted cs))
     \<and> (f cc \<in> {NotSeen, Refused} \<longrightarrow> extra w cc = None))"

lemma ClientConnected_steps:
  assumes "cc < N" and "f cc = NotSeen" and "run_state (ClientConnected gw cc addr) w = ((msg, err), w')"
  shows "(adm_step N (srv_MaxConnections (cfg_Server (gw_cfg gw))))\<^sup>*\<^sup>* (adm_of (w, f))
    (adm_of (w', f(cc := if err = None then Admitted else Refused)))"
proof -
  let ?mx = "srv_MaxConnections (cfg_Server (gw_cfg gw))"
  let ?st = "\<lambda>n p. \<lparr>adm_active = n, adm_closing = shuttingDown w, adm_phase = f(cc := p)\<rparr>"
  let ?n = "activeConnections w"
  have s0: "adm_of (w, f) = ?st ?n NotSeen" using assms(2) by (simp add: adm_of_def fun_upd_idem)
  show ?thesis
  proof (cases "shuttingDown w")
    case True
    then have "adm_of (w', f(cc := if err = None then Admitted else Refused)) = ?st ?n Refused"
      using assms(3) by (auto simp: ClientConnected_def adm_of_def Let_def)
    moreover have "adm_step N ?mx (?st ?n NotSeen) (?st ?n Refused)"
      using adm_step.arrive_closing [of cc N "?st ?n NotSeen" ?mx] assms(1) True by simp
    ultimately show ?thesis using s0 by simp
  next
    case False
    have 1: "adm_step N ?mx (?st ?n NotSeen) (?st ?n Passed)"
      using adm_step.arrive [of cc N "?st ?n NotSeen" ?mx] assms(1) False by simp
    have 2: "adm_step N ?mx (?st ?n Passed) (?st (?n + 1) (Counted (?n + 1)))"
      using adm_step.add [of cc N "?st ?n Passed" ?mx] assms(1) by simp
    have 3: "adm_step N ?mx (?st (?n + 1) (Counted (?n + 1))) (adm_of (w', f(cc := if err = None then Admitted else Refused)))"
    proof (cases "sint (?n + 1) \<le> ?mx")
      case True
      then have "adm_of (w', f(cc := if err = None then Admitted else Refused)) = ?st (?n + 1) Admitted"
        using assms(3) False by (auto simp: ClientConnected_def adm_of_def Let_def)
      with True show ?thesis using adm_step.admit [of "?st (?n + 1) (Counted (?n + 1))" cc "?n + 1" ?mx N] by simp
    next
      case over: False
      then have "adm_of (w', f(cc := if err = None then Admitted else Refused)) = ?st ?n Refused"
        using assms(3) False by (auto simp: ClientConnected_def adm_of_def Let_def errTooManyConnections_def)
      with over show ?thesis using adm_step.refuse [of "?st (?n + 1) (Counted (?n + 1))" cc "?n + 1" ?mx N] by simp
    qed
    show ?thesis
      unfolding s0 using rtranclp.rtrancl_into_rtrancl [OF rtranclp.rtrancl_into_rtrancl [OF r_into_rtranclp [of "adm_step N ?mx", OF 1] 2] 3] .
  qed
qed

text \<open>What admission reads of the gateway's state.\<close>

definition admission :: "('s, 'm) gw_world_scheme \<Rightarrow> 64 word \<times> bool \<times> (nat \<Rightarrow> bool option)" where
  "admission w = (activeConnections w, shuttingDown w, \<lambda>c. map_option cs_admitted (extra w c))"

lemma admission_count: "keeps admission (count f)" "keeps admission (emit_log lvl m as)"
  unfolding count_def emit_log_def by (rule keeps_modify; simp add: admission_def)+

lemma AuthUser_admission: "keeps admission (AuthUser K L gw E cc addr user pw)"
proof -
  have a: "keeps admission (gw_Authenticate E ip u p)" for ip u p
    by (rule keepsI) (auto simp: run_gw_Authenticate admission_def)
  have d: "keeps admission draw_id" "keeps admission (New_Session i u c m p g k t)" for i u c m p g k t
    unfolding draw_id_def New_Session_def Let_def by (intro keeps_rules; simp add: admission_def)+
  show ?thesis
    unfolding AuthUser_def Let_def
    by (intro keeps_basic keeps_modify admission_count a d) (auto simp: admission_def fun_eq_iff split: option.split)
qed

lemma admission_Close: "keeps admission (Session_Close L s)"
  unfolding Session_Close_def set_slot_def Let_def by (intro keeps_rules) (simp_all add: admission_def)

lemma ClientDisconnected_admission:
  assumes "run_state (ClientDisconnected L cc) w = (x, w')"
  shows "admission w' = (if map_option cs_admitted (extra w cc) = Some True then activeConnections w - 1 else activeConnections w,
    snd (admission w))"
proof (cases "extra w cc")
  case None
  with assms show ?thesis by (auto simp: ClientDisconnected_def admission_def)
next
  case (Some cs)
  show ?thesis
  proof (cases "cs_sess cs")
    case None
    with Some assms show ?thesis by (auto simp: ClientDisconnected_def admission_def split: if_splits)
  next
    case (Some s)
    obtain e w2 m l where 2: "run_state (Session_Close L s) (leaving cc cs w) = (e, w2)"
      and w': "w' = w2\<lparr>metrics := m, log := l, sessions := sessions w2 - 1\<rparr>"
      using run_ClientDisconnected [OF \<open>extra w cc = Some cs\<close> Some assms] .
    have "admission w2 = admission (leaving cc cs w)" using keepsD [OF admission_Close 2] .
    with w' \<open>extra w cc = Some cs\<close> show ?thesis by (simp add: admission_def leaving_def)
  qed
qed

lemma extras_ok_admission:
  "extras_ok (w, f) \<longleftrightarrow> (\<forall>cc. (f cc = Admitted \<longrightarrow> snd (snd (admission w)) cc = Some True)
     \<and> (f cc \<in> {NotSeen, Refused} \<longrightarrow> snd (snd (admission w)) cc = None))"
  by (simp add: extras_ok_def admission_def)

lemma adm_of_admission: "adm_of (w, f) = \<lparr>adm_active = fst (admission w), adm_closing = fst (snd (admission w)), adm_phase = f\<rparr>"
  by (simp add: adm_of_def admission_def)

lemma ClientConnected_extras:
  assumes "extras_ok (w, f)" and "f cc = NotSeen" and "run_state (ClientConnected gw cc addr) w = ((msg, err), w')"
  shows "extras_ok (w', f(cc := if err = None then Admitted else Refused))"
proof -
  have "extra w' = (if err = None then (extra w)(cc \<mapsto> \<lparr>cs_admitted = True, cs_sess = None\<rparr>) else extra w)"
    using assms(3) by (auto simp: ClientConnected_def Let_def errTooManyConnections_def errShuttingDown_def split: if_splits)
  with assms(1,2) show ?thesis by (auto simp: extras_ok_def)
qed

lemma gw_step_simulated:
  assumes "gw_step N K L gw c c'" and "extras_ok c"
  shows "(adm_step N (srv_MaxConnections (cfg_Server (gw_cfg gw))))\<^sup>*\<^sup>* (adm_of c) (adm_of c') \<and> extras_ok c'"
  using assms(1)
proof (cases rule: gw_step.cases)
  case (connect cc f addr w msg err w')
  with assms(2) show ?thesis using ClientConnected_steps ClientConnected_extras by metis
next
  case (login f cc E addr user pw w r w')
  then have "admission w' = admission w" using keepsD [OF AuthUser_admission] by blast
  with login assms(2) show ?thesis by (simp add: extras_ok_admission adm_of_admission)
next
  case (command s u sha c w x w' f)
  then have "lobby w' = lobby w" using keepsD [OF lobby_state.exec_keeps] by blast
  with command assms(2) show ?thesis by (simp add: lobby_def extras_ok_def adm_of_def)
next
  case (disconnect f cc w x w')
  then have a: "admission w' = (activeConnections w - 1, snd (admission w))"
    using ClientDisconnected_admission [of L cc w x w'] assms(2) by (auto simp: extras_ok_def)
  have "adm_step N (srv_MaxConnections (cfg_Server (gw_cfg gw))) (adm_of (w, f)) (adm_of (w', f(cc := Gone)))"
    using adm_step.leave [of "adm_of (w, f)" cc N] disconnect a by (simp add: adm_of_admission) (simp add: admission_def)
  with disconnect a assms(2) show ?thesis by (simp add: extras_ok_admission)
next
  case (disconnect_refused f cc w x w')
  then have "admission w' = admission w"
    using ClientDisconnected_admission [of L cc w x w'] assms(2) by (auto simp: extras_ok_def admission_def)
  with disconnect_refused assms(2) show ?thesis by (simp add: extras_ok_admission adm_of_admission)
next
  case (prepare_shutdown w x w' f)
  then have w': "w' = w\<lparr>shuttingDown := True\<rparr>" by (simp add: PrepareShutdown_def)
  have "adm_step N (srv_MaxConnections (cfg_Server (gw_cfg gw))) (adm_of (w, f)) (adm_of (w', f))"
    using adm_step.shutdown [of N _ "adm_of (w, f)"] by (simp add: w' adm_of_def)
  with prepare_shutdown(1,2) assms(2) show ?thesis by (simp add: w' extras_ok_def)
qed

lemma gw_steps_simulated:
  assumes "(gw_step N K L gw)\<^sup>*\<^sup>* c c'" and "extras_ok c"
  shows "(adm_step N (srv_MaxConnections (cfg_Server (gw_cfg gw))))\<^sup>*\<^sup>* (adm_of c) (adm_of c') \<and> extras_ok c'"
  using assms(1)
proof (induction rule: rtranclp_induct)
  case base
  then show ?case using assms(2) by simp
next
  case (step c' c'')
  then show ?case using gw_step_simulated by (metis rtranclp_trans)
qed

lemma New_Gateway_init:
  assumes "New_Gateway cfg srv rand clk = Some (gw, w0)"
  shows "gw_cfg gw = cfg \<and> adm_of (w0, \<lambda>_. NotSeen) = adm_init \<and> extras_ok (w0, \<lambda>_. NotSeen)"
  using assms by (auto simp: New_Gateway_def adm_of_def adm_init_def extras_ok_def split: option.splits prod.splits)

text \<open>
  (C8) The gateway refines the admission protocol, and so keeps its promise: from a freshly built
  gateway, after any sequence of connections, logins, commands, disconnects and the start of a
  shutdown, the state seen through admission is a reachable state of the step relation, at most
  \<open>maxConnections\<close> connections are admitted, and the counter is exactly the number of
  connections being served.
\<close>

theorem gateway_refines_admission:
  assumes "New_Gateway cfg srv rand clk = Some (gw, w0)"
    and "(gw_step N K L gw)\<^sup>*\<^sup>* (w0, \<lambda>_. NotSeen) (w, f)"
    and "0 \<le> srv_MaxConnections (cfg_Server cfg)" and "N < 2 ^ 63"
  shows "adm_reachable N (srv_MaxConnections (cfg_Server cfg)) (adm_of (w, f))
    \<and> int (card {i. f i = Admitted}) \<le> srv_MaxConnections (cfg_Server cfg)
    \<and> activeConnections w = of_nat (card {i. counted (f i)})"
proof -
  note i = New_Gateway_init [OF assms(1)]
  have r: "adm_reachable N (srv_MaxConnections (cfg_Server cfg)) (adm_of (w, f))"
    using gw_steps_simulated [OF assms(2)] i by simp
  note inv = adm_inv_reachable [OF r assms(3,4)]
  have "card {i. f i = Admitted} \<le> card (winners (srv_MaxConnections (cfg_Server cfg)) f)"
    using adm_inv_finite [OF inv] by (intro card_mono) (auto simp: winners_def adm_of_def)
  with r inv show ?thesis by (auto simp: adm_inv_def adm_of_def holders_def)
qed

theorem gateway_refines_admission_witness:
  "\<exists>w f. (gw_step 1 accepting_lib tree_lib demo_gateway)\<^sup>*\<^sup>* (snd (the demo_built), \<lambda>_. NotSeen) (w, f)
     \<and> f 0 \<noteq> NotSeen \<and> activeConnections w = of_nat (card {i. counted (f i)})"
proof -
  obtain msg err w where c: "run_state (ClientConnected demo_gateway 0 ''10.0.0.9:4000'') (snd (the demo_built)) = ((msg, err), w)"
    by (metis prod.collapse)
  let ?f = "(\<lambda>_. NotSeen)(0 := if err = None then Admitted else Refused)"
  have s: "(gw_step 1 accepting_lib tree_lib demo_gateway)\<^sup>*\<^sup>* (snd (the demo_built), \<lambda>_. NotSeen) (w, ?f)"
    by (rule r_into_rtranclp, rule gw_step.connect [OF _ _ c]) simp_all
  have "0 \<le> srv_MaxConnections (cfg_Server demo_cfg)" by code_simp
  from gateway_refines_admission [OF demo_built_Some s this] s show ?thesis by (intro exI conjI) (assumption, simp_all)
qed

end
