(* ===== verification/Health.thy ===== *)
theory Health
  imports Gateway
begin

text \<open>
  \<open>internal/health/server.go\<close>: the internal HTTP server with the liveness, readiness and
  metrics endpoints. The liveness flag joins the gateway's state, because the process sets it while
  the gateway runs; a handler is a computation that returns the response written. The HTTP library
  (listening, parsing, routing of other paths) is not modelled: \<open>endpoint\<close> is the table of
  registered paths, and what \<open>ListenAndServe\<close> and \<open>Shutdown\<close> of the library return
  are arguments.

  A readiness check takes its context, of which it observes \<open>Err()\<close>: the argument
  gives the answer at each successive call.
\<close>

record 's proc_world = "'s gw_world" +
  alive :: bool

type_synonym ctx = "nat \<Rightarrow> go_error option"

type_synonym 'w ReadinessCheck = "ctx \<Rightarrow> ('w, go_error option) state"

record 'w HealthServer =
  hs_Addr :: string
  readinessRequiresCheck :: bool
  hs_readinessCheck :: "'w ReadinessCheck option"
  readinessTimeout :: duration

definition NewServer :: "string \<Rightarrow> bool \<Rightarrow> 'w ReadinessCheck option \<Rightarrow> 'w HealthServer" where
  "NewServer addr requires check =
     \<lparr>hs_Addr = addr, readinessRequiresCheck = requires, hs_readinessCheck = check, readinessTimeout = 5 * Second\<rparr>"

definition SetAlive :: "bool \<Rightarrow> (('s, 'm) proc_world_scheme, unit) state" where
  "SetAlive b = modify (\<lambda>w. w\<lparr>alive := b\<rparr>)"

text \<open>\<open>ErrServerClosed\<close> is the library's answer after a shutdown; it is no error.\<close>

definition ListenAndServe :: "(bool \<times> go_error) option \<Rightarrow> go_error option" where
  "ListenAndServe r = (case r of Some (server_closed, e) \<Rightarrow> if server_closed then None else Some e | None \<Rightarrow> None)"

definition Server_Shutdown :: "go_error option \<Rightarrow> go_error option" where
  "Server_Shutdown lib_err = lib_err"

section \<open>Handlers\<close>

record response =
  rp_status :: int
  rp_ctype :: "string option"
  rp_body :: string

definition respond :: "int \<Rightarrow> string \<Rightarrow> response" where
  "respond st b = \<lparr>rp_status = st, rp_ctype = None, rp_body = b\<rparr>"

definition handleHealthz :: "(('s, 'm) proc_world_scheme, response) state" where
  "handleHealthz = do {
     a \<leftarrow> gets alive;
     if \<not> a then return (respond 503 (''not alive'' @ [newline]))
     else return (respond 200 (''ok'' @ [newline]))
   }"

definition handleReadyz ::
  "('s, 'm) proc_world_scheme HealthServer \<Rightarrow> ctx \<Rightarrow> (('s, 'm) proc_world_scheme, response) state" where
  "handleReadyz hs cx = do {
     a \<leftarrow> gets alive;
     if \<not> a then return (respond 503 (''not alive'' @ [newline]))
     else do {
       err \<leftarrow> (case hs_readinessCheck hs of
                Some check \<Rightarrow> if readinessRequiresCheck hs then check cx else return None
              | None \<Rightarrow> return None);
       case err of
         Some e \<Rightarrow> do {
           _ \<leftarrow> emit_log LevelWarn ''readiness check failed'' [(''err'', AString (Error e))];
           return (respond 503 (''not ready: dependency check failed'' @ [newline]))
         }
       | None \<Rightarrow> return (respond 200 (''ready'' @ [newline]))
     }
   }"

text \<open>
  \<open>handleMetrics\<close>: \<open>fails l\<close> is the error of writing the text \<open>l\<close> to the
  connection. The first write fixes the status 200.
\<close>

definition write_body :: "(string \<Rightarrow> go_error option) \<Rightarrow> string \<Rightarrow> response \<Rightarrow> go_error option \<times> response" where
  "write_body fails l r = (case fails l of Some e \<Rightarrow> (Some e, r) | None \<Rightarrow> (None, r\<lparr>rp_body := rp_body r @ l\<rparr>))"

definition handleMetrics :: "(string \<Rightarrow> go_error option) \<Rightarrow> (('s, 'm) proc_world_scheme, response) state" where
  "handleMetrics fails = do {
     m \<leftarrow> gets metrics;
     case WriteText m (write_body fails) \<lparr>rp_status = 200, rp_ctype = Some ''text/plain; version=0.0.4'', rp_body = []\<rparr> of
       (Some e, r) \<Rightarrow> do {
         _ \<leftarrow> emit_log LevelWarn ''failed to write metrics response'' [(''err'', AString (Error e))];
         return r
       }
     | (None, r) \<Rightarrow> return r
   }"

definition endpoint ::
  "('s, 'm) proc_world_scheme HealthServer \<Rightarrow> ctx \<Rightarrow> (string \<Rightarrow> go_error option) \<Rightarrow> string
     \<Rightarrow> (('s, 'm) proc_world_scheme, response) state option" where
  "endpoint hs cx fails pattern =
     map_of [(''/healthz'', handleHealthz), (''/readyz'', handleReadyz hs cx), (''/metrics'', handleMetrics fails)] pattern"

section \<open>Theorems\<close>

text \<open>
  The probes of the orchestrator: liveness is the flag alone, and asking for it changes
  nothing and sends nothing (an unreachable backend can never make the process look dead);
  readiness is 200 exactly if the process is alive and the configured check, when it is required,
  returned no error; and a process that is not alive is reported as such without running the check.
\<close>

theorem probes_exact:
  assumes "run_state (handleReadyz hs cx) w = (r, w')"
  shows "run_state handleHealthz w = (respond (if alive w then 200 else 503)
       ((if alive w then ''ok'' else ''not alive'') @ [newline]), w)
    \<and> (rp_status r = 200 \<longleftrightarrow> alive w \<and>
        (\<forall>check. hs_readinessCheck hs = Some check \<and> readinessRequiresCheck hs \<longrightarrow> fst (run_state (check cx) w) = None))
    \<and> (\<not> alive w \<longrightarrow> w' = w) \<and> rp_status r \<in> {200, 503}"
  using assms
  by (auto simp: handleReadyz_def handleHealthz_def respond_def split: option.splits if_splits prod.splits)

definition failing_server :: "tree proc_world HealthServer" where
  "failing_server = NewServer '':8080'' True (Some (\<lambda>cx. return (cx 0)))"

definition live_world :: "tree proc_world" where
  "live_world = gw_world.extend demo_world \<lparr>alive = True\<rparr>"

theorem probes_exact_witness:
  "rp_status (fst (run_state (handleReadyz failing_server (\<lambda>_. Some tree_lost)) live_world)) = 503"
proof -
  obtain r w' where r: "run_state (handleReadyz failing_server (\<lambda>_. Some tree_lost)) live_world = (r, w')" by fastforce
  from probes_exact [OF r] r show ?thesis by (auto simp: failing_server_def NewServer_def)
qed

end
