(* ===== verification/Durations.thy ===== *)
theory Durations
  imports Errors
begin

text \<open>
  Durations as text: \<open>time.ParseDuration\<close> and \<open>Duration.String\<close> of the standard
  library, which the configuration (\<open>Duration.UnmarshalYAML\<close> of
  \<open>internal/config/types.go\<close>), the command line flags and the shutdown log use. The
  accumulators are unsigned 64-bit integers, written as non-negative integers with the wrap-around where an
  addition can leave the range. The one floating point expression of the parser, for the digits
  after a decimal point, is the argument \<open>fl\<close>: \<open>fl f unit scale\<close> is
  \<open>uint64(float64(f) * (float64(unit) / scale))\<close>.

  The theorems: what the parser accepts always fits a duration, and it reads back what
  \<open>String\<close> prints for whole seconds.
\<close>

section \<open>time.ParseDuration\<close>

definition is_digit :: "char \<Rightarrow> bool" where
  "is_digit c \<longleftrightarrow> of_char c \<in> {48..57 :: nat}"

definition digit_val :: "char \<Rightarrow> int" where
  "digit_val c = int (of_char c) - 48"

text \<open>\<open>leadingInt\<close>, with \<^term>\<open>None\<close> for an overflow.\<close>

fun leadingInt :: "int \<Rightarrow> string \<Rightarrow> (int \<times> string) option" where
  "leadingInt x [] = Some (x, [])"
| "leadingInt x (c # s) =
     (if \<not> is_digit c then Some (x, c # s)
      else if x > 2 ^ 63 div 10 then None
      else let x = x * 10 + digit_val c in if x > 2 ^ 63 then None else leadingInt x s)"

text \<open>\<open>leadingFraction\<close>: digits that do not fit are skipped.\<close>

fun leadingFraction :: "int \<Rightarrow> int \<Rightarrow> bool \<Rightarrow> string \<Rightarrow> int \<times> int \<times> string" where
  "leadingFraction x scale overflow [] = (x, scale, [])"
| "leadingFraction x scale overflow (c # s) =
     (if \<not> is_digit c then (x, scale, c # s)
      else if overflow then leadingFraction x scale True s
      else if x > (2 ^ 63 - 1) div 10 then leadingFraction x scale True s
      else let y = x * 10 + digit_val c
           in if y > 2 ^ 63 then leadingFraction x scale True s
              else leadingFraction y (scale * 10) False s)"

definition unitMap :: "string \<Rightarrow> int option" where
  "unitMap u = map_of [(''ns'', 1), (''us'', 10 ^ 3), ([CHR 0xC2, CHR 0xB5] @ ''s'', 10 ^ 3),
     ([CHR 0xCE, CHR 0xBC] @ ''s'', 10 ^ 3), (''ms'', 10 ^ 6), (''s'', 10 ^ 9), (''m'', 60 * 10 ^ 9),
     (''h'', 3600 * 10 ^ 9)] u"

datatype duration_error = InvalidDuration | MissingUnit | UnknownUnit string

text \<open>One number with its unit: the value in nanoseconds and the rest.\<close>

definition parse_term :: "(int \<Rightarrow> int \<Rightarrow> int \<Rightarrow> int) \<Rightarrow> string \<Rightarrow> duration_error + int \<times> string" where
  "parse_term fl s =
     (if s = [] \<or> \<not> (hd s = CHR ''.'' \<or> is_digit (hd s)) then Inl InvalidDuration
      else case leadingInt 0 s of
        None \<Rightarrow> Inl InvalidDuration
      | Some (v, s1) \<Rightarrow>
          let pre = (length s \<noteq> length s1);
              (f, scale, s2) = (if s1 \<noteq> [] \<and> hd s1 = CHR ''.'' then leadingFraction 0 1 False (tl s1) else (0, 1, s1));
              post = (s1 \<noteq> [] \<and> hd s1 = CHR ''.'' \<and> length (tl s1) \<noteq> length s2)
          in if \<not> pre \<and> \<not> post then Inl InvalidDuration
             else let u = takeWhile (\<lambda>c. \<not> (c = CHR ''.'' \<or> is_digit c)) s2;
                      s3 = dropWhile (\<lambda>c. \<not> (c = CHR ''.'' \<or> is_digit c)) s2
                  in if u = [] then Inl MissingUnit
                     else case unitMap u of
                       None \<Rightarrow> Inl (UnknownUnit u)
                     | Some unit \<Rightarrow>
                         if v > 2 ^ 63 div unit then Inl InvalidDuration
                         else let w = v * unit + (if f > 0 then fl f unit scale else 0)
                              in if f > 0 \<and> w > 2 ^ 63 then Inl InvalidDuration
                                 else Inr (w, s3))"

lemma leadingFraction_rest: "length (snd (snd (leadingFraction x sc b s))) \<le> length s"
  by (induction x sc b s rule: leadingFraction.induct) (auto simp: Let_def le_SucI)

lemma leadingInt_rest: "leadingInt x s = Some (v, r) \<Longrightarrow> length r \<le> length s"
  by (induction x s rule: leadingInt.induct) (auto simp: Let_def le_SucI split: if_splits)

lemma dropWhile_shorter: "takeWhile P s \<noteq> [] \<Longrightarrow> length (dropWhile P s) < length s"
  by (cases s) (auto simp: le_imp_less_Suc length_dropWhile_le split: if_splits)

lemma parse_term_shorter:
  assumes "parse_term fl s = Inr (v, r)"
  shows "length r < length s"
proof -
  let ?P = "\<lambda>c. \<not> (c = CHR ''.'' \<or> is_digit c)"
  obtain x s1 s2 where 1: "leadingInt 0 s = Some (x, s1)"
    and 2: "s2 = (if s1 \<noteq> [] \<and> hd s1 = CHR ''.'' then snd (snd (leadingFraction 0 1 False (tl s1))) else s1)"
    and 3: "takeWhile ?P s2 \<noteq> []" "r = dropWhile ?P s2"
    using assms by (auto simp: parse_term_def Let_def split: if_splits option.splits prod.splits)
  have "length s2 \<le> length s1"
    using leadingFraction_rest [of 0 1 False "tl s1"] by (auto simp: 2)
  with leadingInt_rest [OF 1] dropWhile_shorter [OF 3(1)] 3(2) show ?thesis by simp
qed

function parse_terms :: "(int \<Rightarrow> int \<Rightarrow> int \<Rightarrow> int) \<Rightarrow> int \<Rightarrow> string \<Rightarrow> duration_error + int" where
  "parse_terms fl d s =
     (if s = [] then Inr d
      else case parse_term fl s of
        Inl e \<Rightarrow> Inl e
      | Inr (v, r) \<Rightarrow>
          let d = (d + v) mod 2 ^ 64 in if d > 2 ^ 63 then Inl InvalidDuration else parse_terms fl d r)"
  by pat_completeness auto
termination
  by (relation "measure (\<lambda>(fl, d, s). length s)") (auto dest: parse_term_shorter)

declare parse_terms.simps [simp del]

definition ParseDuration :: "(int \<Rightarrow> int \<Rightarrow> int \<Rightarrow> int) \<Rightarrow> string \<Rightarrow> duration_error + duration" where
  "ParseDuration fl orig =
     (let neg = (orig \<noteq> [] \<and> hd orig = CHR ''-'');
          s = (if orig \<noteq> [] \<and> (hd orig = CHR ''-'' \<or> hd orig = CHR ''+'') then tl orig else orig)
      in if s = ''0'' then Inr 0
         else if s = [] then Inl InvalidDuration
         else case parse_terms fl 0 s of
           Inl e \<Rightarrow> Inl e
         | Inr d \<Rightarrow> if neg then Inr (- d)
                    else if d > 2 ^ 63 - 1 then Inl InvalidDuration else Inr d)"

text \<open>The texts of the errors; \<open>quote\<close> is the quoting of package time.\<close>

fun duration_error_text :: "(string \<Rightarrow> string) \<Rightarrow> string \<Rightarrow> duration_error \<Rightarrow> string" where
  "duration_error_text quote orig InvalidDuration = ''time: invalid duration '' @ quote orig"
| "duration_error_text quote orig MissingUnit = ''time: missing unit in duration '' @ quote orig"
| "duration_error_text quote orig (UnknownUnit u) = ''time: unknown unit '' @ quote u @ '' in duration '' @ quote orig"

section \<open>Duration.UnmarshalYAML\<close>

text \<open>
  \<open>node\<close> is what the decoder's callback gives for a string; \<open>quote\<close> is \<open>%q\<close>.
\<close>

definition UnmarshalYAML ::
  "(string \<Rightarrow> string) \<Rightarrow> (string \<Rightarrow> string) \<Rightarrow> (int \<Rightarrow> int \<Rightarrow> int \<Rightarrow> int) \<Rightarrow> string result \<Rightarrow> duration result" where
  "UnmarshalYAML quote time_quote fl node =
     (case node of
        Inl err \<Rightarrow> Inl err
      | Inr s \<Rightarrow>
          (case ParseDuration fl s of
             Inl e \<Rightarrow> (let err = ForeignError (duration_error_text time_quote s e) [] None
                       in Inl (WrappedError (''duraci'' @ o_acute @ ''n inv'' @ a_acute @ ''lida '' @ quote s
                            @ '': '' @ Error err) err))
           | Inr parsed \<Rightarrow> Inr parsed))"

section \<open>Duration.String\<close>

text \<open>\<open>fmtFrac\<close>: the last \<open>prec\<close> digits as a fraction without trailing zeros.\<close>

fun frac_digits :: "int \<Rightarrow> nat \<Rightarrow> string" where
  "frac_digits v 0 = []"
| "frac_digits v (Suc p) = frac_digits (v div 10) p @ [digit_char (nat (v mod 10))]"

definition fmtFrac :: "int \<Rightarrow> nat \<Rightarrow> string" where
  "fmtFrac v prec =
     (let ds = rev (dropWhile (\<lambda>c. c = CHR ''0'') (rev (frac_digits v prec)))
      in if ds = [] then [] else CHR ''.'' # ds)"

definition fmtInt :: "int \<Rightarrow> string" where
  "fmtInt v = dec_nat (nat v)"

definition Duration_String :: "duration \<Rightarrow> string" where
  "Duration_String d =
     (let u = \<bar>d\<bar>;
          body =
            (if u = 0 then ''0s''
             else if u < 10 ^ 3 then fmtInt u @ ''ns''
             else if u < 10 ^ 6 then fmtInt (u div 10 ^ 3) @ fmtFrac u 3 @ [CHR 0xC2, CHR 0xB5] @ ''s''
             else if u < 10 ^ 9 then fmtInt (u div 10 ^ 6) @ fmtFrac u 6 @ ''ms''
             else let sec = u div 10 ^ 9; mins = sec div 60
                  in (if mins > 0 then (if mins div 60 > 0 then fmtInt (mins div 60) @ ''h'' else [])
                        @ fmtInt (mins mod 60) @ ''m'' else [])
                     @ fmtInt (sec mod 60) @ fmtFrac u 9 @ ''s'')
      in if d < 0 then CHR ''-'' # body else body)"

section \<open>Theorems\<close>

lemma parse_terms_bounds:
  "parse_terms fl d s = Inr v \<Longrightarrow> 0 \<le> d \<Longrightarrow> d \<le> 2 ^ 63 \<Longrightarrow> 0 \<le> v \<and> v \<le> 2 ^ 63"
proof (induction fl d s rule: parse_terms.induct)
  case (1 fl d s)
  show ?case
  proof (cases "s = []")
    case True
    with "1.prems" show ?thesis by (simp add: parse_terms.simps)
  next
    case False
    then obtain x r where x: "parse_term fl s = Inr (x, r)" "(d + x) mod 2 ^ 64 \<le> 2 ^ 63"
      "parse_terms fl ((d + x) mod 2 ^ 64) r = Inr v"
      using "1.prems"(1) by (subst (asm) parse_terms.simps) (auto simp: Let_def split: sum.splits if_splits)
    show ?thesis
      using "1.IH" [OF False x(1) refl refl _ x(3)] x(2) by simp
  qed
qed

text \<open>
  A duration that is accepted fits: whatever text the configuration or a flag gives, and
  whatever the floating point unit computes for a fraction, a successful parse is a signed 64-bit
  number of nanoseconds, negative only for a text with a leading minus sign.
\<close>

theorem ParseDuration_fits:
  assumes "UnmarshalYAML quote time_quote fl (Inr s) = Inr d"
  shows "- (2 ^ 63) \<le> d \<and> d < 2 ^ 63 \<and> (d < 0 \<longrightarrow> s \<noteq> [] \<and> hd s = CHR ''-'')"
  using assms parse_terms_bounds [of fl 0]
  by (fastforce simp: UnmarshalYAML_def ParseDuration_def Let_def split: sum.splits if_splits)

theorem ParseDuration_fits_witness:
  "UnmarshalYAML id id (\<lambda>f u s. f * u div s) (Inr ''-1h30m'') = Inr (- 5400000000000) \<and> - (2 ^ 63) \<le> (- 5400000000000 :: int)"
proof -
  have p: "UnmarshalYAML id id (\<lambda>f u s. f * u div s) (Inr ''-1h30m'') = Inr (- 5400000000000)" by code_simp
  from p ParseDuration_fits [OF p] show ?thesis by simp
qed

text \<open>Reading back what was printed.\<close>

lemma is_digit_char [simp]: "n < 10 \<Longrightarrow> is_digit (digit_char n)"
  by (simp add: is_digit_def digit_char_def)

lemma digit_val_char [simp]: "n < 10 \<Longrightarrow> digit_val (digit_char n) = int n"
  by (simp add: digit_val_def digit_char_def)

lemma leadingInt_digit:
  "n \<le> 2 ^ 63 \<Longrightarrow> leadingInt (int (n div 10)) (digit_char (n mod 10) # s) = leadingInt (int n) s"
proof -
  assume "n \<le> 2 ^ 63"
  then have "int (n div 10) \<le> 2 ^ 63 div 10" by (simp add: zdiv_int)
  moreover have "int (n div 10) * 10 + int (n mod 10) = int n" by (metis div_mult_mod_eq of_nat_add of_nat_mult of_nat_numeral)
  moreover have "int n \<le> 2 ^ 63" using \<open>n \<le> 2 ^ 63\<close> by simp
  ultimately show ?thesis by (simp add: Let_def)
qed

lemma leadingInt_dec: "n \<le> 2 ^ 63 \<Longrightarrow> leadingInt 0 (dec_nat n @ s) = leadingInt (int n) s"
proof (induction n arbitrary: s rule: dec_nat.induct)
  case (1 n)
  show ?case
  proof (cases "n < 10")
    case True
    then show ?thesis using leadingInt_digit [of n s] "1.prems" by (simp add: dec_nat.simps)
  next
    case False
    then have "leadingInt 0 (dec_nat n @ s) = leadingInt (int (n div 10)) (digit_char (n mod 10) # s)"
      using "1.IH" [of "digit_char (n mod 10) # s"] "1.prems" by (subst dec_nat.simps) simp
    with leadingInt_digit [OF "1.prems"] show ?thesis by simp
  qed
qed

lemma dec_nat_Cons: obtains c s where "dec_nat n = c # s" and "is_digit c"
proof -
  have "dec_nat n \<noteq> [] \<and> is_digit (hd (dec_nat n))"
    by (induction n rule: dec_nat.induct) (subst (1 2) dec_nat.simps, auto)
  with that show thesis by (cases "dec_nat n") auto
qed

definition no_number :: "string \<Rightarrow> bool" where
  "no_number u \<longleftrightarrow> list_all (\<lambda>c. \<not> (c = CHR ''.'' \<or> is_digit c)) u"

lemma parse_term_dec:
  assumes "unitMap u = Some unit" and "no_number u" and "u \<noteq> []" and "0 < unit" and "int n * unit \<le> 2 ^ 63"
    and "r = [] \<or> is_digit (hd r)"
  shows "parse_term fl (dec_nat n @ u @ r) = Inr (int n * unit, r)"
proof -
  let ?P = "\<lambda>c. \<not> (c = CHR ''.'' \<or> is_digit c)"
  obtain c s where c: "dec_nat n = c # s" "is_digit c" using dec_nat_Cons .
  have le: "int n \<le> 2 ^ 63 div unit" using zdiv_mono1 [OF assms(5,4)] assms(4) by simp
  have "int n * 1 \<le> int n * unit" using assms(4) by (intro mult_left_mono) simp_all
  then have "int n \<le> 2 ^ 63" using assms(5) by simp
  then have "leadingInt 0 (dec_nat n @ u @ r) = leadingInt (int n) (u @ r)" by (intro leadingInt_dec) simp
  also have "\<dots> = Some (int n, u @ r)" using assms(2,3) by (cases u) (auto simp: no_number_def)
  finally have l: "leadingInt 0 (c # s @ u @ r) = Some (int n, u @ r)" using c by simp
  have "takeWhile ?P (u @ r) = u" "dropWhile ?P (u @ r) = r"
    using assms(2,6) by (auto simp: no_number_def list_all_iff takeWhile_append dropWhile_append takeWhile_eq_Nil_iff dropWhile_eq_self_iff)
  moreover have "hd (u @ r) \<noteq> CHR ''.''" "u @ r \<noteq> []" using assms(2,3) by (cases u; auto simp: no_number_def)+
  ultimately show ?thesis
    using c l assms le by (simp add: parse_term_def Let_def)
qed

lemma digit_char_0: "digit_char 0 = CHR ''0''"
  by code_simp

lemma frac_digits_zero: "v mod 10 ^ p = 0 \<Longrightarrow> frac_digits v p = replicate p CHR ''0''"
proof (induction p arbitrary: v)
  case (Suc p)
  then have "10 ^ Suc p dvd v" by (simp add: dvd_eq_mod_eq_0)
  then obtain k where v: "v = 10 * (10 ^ p * k)" by (auto simp: ac_simps)
  with Suc.IH [of "v div 10"] show ?case by (simp add: digit_char_0 replicate_append_same)
qed simp

lemma fmtFrac_zero: "v mod 10 ^ p = 0 \<Longrightarrow> fmtFrac v p = []"
  by (simp add: fmtFrac_def frac_digits_zero dropWhile_replicate)

lemma parse_units:
  "unitMap ''s'' = Some (10 ^ 9)" "unitMap ''m'' = Some (60 * 10 ^ 9)" "unitMap ''h'' = Some (3600 * 10 ^ 9)"
  "no_number ''s''" "no_number ''m''" "no_number ''h''"
  by (simp_all add: unitMap_def no_number_def is_digit_def)

lemma parse_terms_dec:
  assumes "unitMap u = Some unit" and "no_number u" and "u \<noteq> []" and "0 < unit"
    and "0 \<le> d" and "d + int n * unit \<le> 2 ^ 63" and "r = [] \<or> is_digit (hd r)"
  shows "parse_terms fl d (dec_nat n @ u @ r) = parse_terms fl (d + int n * unit) r"
proof -
  have "0 \<le> int n * unit" using assms(4) by simp
  then have b: "int n * unit \<le> 2 ^ 63" "(d + int n * unit) mod 2 ^ 64 = d + int n * unit"
    using assms(5,6) by simp_all
  show ?thesis
    using parse_term_dec [OF assms(1-4) b(1) assms(7), of fl] assms(3,6) b(2)
    by (subst parse_terms.simps) simp
qed

lemma hd_dec_nat [simp]: "is_digit (hd (dec_nat n @ s))" "is_digit (hd (dec_nat n))" "dec_nat n \<noteq> []"
  by (rule dec_nat_Cons [of n]; simp)+

text \<open>Whole seconds as hours, minutes and seconds.\<close>

definition clock_text :: "int \<Rightarrow> string" where
  "clock_text n =
     (if n div 60 > 0 then (if n div 60 div 60 > 0 then fmtInt (n div 60 div 60) @ ''h'' else [])
        @ fmtInt (n div 60 mod 60) @ ''m'' else []) @ fmtInt (n mod 60) @ ''s''"

lemma parse_clock_text:
  assumes "0 \<le> n" and "n * 10 ^ 9 \<le> 2 ^ 63"
  shows "parse_terms fl 0 (clock_text n) = Inr (n * 10 ^ 9)"
proof -
  define h m s where hms: "h = n div 60 div 60" "m = n div 60 mod 60" "s = n mod 60"
  have "n = 60 * (60 * h + m) + s" unfolding hms by (metis div_mult_mod_eq mult.commute)
  then have n: "n = 3600 * h + 60 * m + s" by simp
  have pos: "0 \<le> h" "0 \<le> m" "0 \<le> s" using assms(1) by (simp_all add: hms pos_imp_zdiv_nonneg_iff)
  have b: "h * (3600 * 10 ^ 9) + m * (60 * 10 ^ 9) + s * 10 ^ 9 \<le> 2 ^ 63" using assms(2) n by simp
  have nil: "parse_terms fl d [] = Inr d" for d by (simp add: parse_terms.simps)
  have sec: "parse_terms fl d (fmtInt s @ ''s'') = Inr (d + s * 10 ^ 9)" if "0 \<le> d" "d + s * 10 ^ 9 \<le> 2 ^ 63" for d
    using parse_terms_dec [OF parse_units(1,4) _ _ that(1), of "nat s" "[]" fl] that(2) nil pos by (simp add: fmtInt_def)
  have mins: "parse_terms fl d (fmtInt m @ ''m'' @ fmtInt s @ ''s'') = Inr (d + m * (60 * 10 ^ 9) + s * 10 ^ 9)"
    if "0 \<le> d" "d + m * (60 * 10 ^ 9) + s * 10 ^ 9 \<le> 2 ^ 63" for d
    using parse_terms_dec [OF parse_units(2,5) _ _ that(1), of "nat m" "fmtInt s @ ''s''" fl] sec [of "d + m * (60 * 10 ^ 9)"] that pos
    by (simp add: fmtInt_def)
  have hour: "parse_terms fl 0 (fmtInt h @ ''h'' @ fmtInt m @ ''m'' @ fmtInt s @ ''s'') = Inr (n * 10 ^ 9)"
    using parse_terms_dec [OF parse_units(3,6), of 0 "nat h" "fmtInt m @ ''m'' @ fmtInt s @ ''s''" fl] mins [of "h * (3600 * 10 ^ 9)"] b n pos
    by (simp add: fmtInt_def)
  have ct: "clock_text n = (if 0 < n div 60 then (if 0 < h then fmtInt h @ ''h'' else []) @ fmtInt m @ ''m'' else []) @ fmtInt s @ ''s''"
    by (simp only: clock_text_def hms)
  show ?thesis
  proof (cases "0 < n div 60")
    case False
    then have "n div 60 = 0" using assms(1) by (simp add: pos_imp_zdiv_nonneg_iff not_less)
    then have "h = 0" "m = 0" by (simp_all add: hms)
    with False ct sec [of 0] b n show ?thesis by simp
  next
    case True
    show ?thesis
    proof (cases "0 < h")
      case True
      with \<open>0 < n div 60\<close> ct hour show ?thesis by simp
    next
      case False
      then have "h = 0" using pos by simp
      with \<open>0 < n div 60\<close> ct mins [of 0] b n show ?thesis by simp
    qed
  qed
qed

lemma clock_text_Cons: obtains c s where "clock_text n = c # s" and "is_digit c" and "s \<noteq> []"
proof -
  have "is_digit (hd (clock_text n))" by (simp add: clock_text_def fmtInt_def)
  moreover have "0 < length (dec_nat (nat (n mod 60)))" by (simp del: length_greater_0_conv add: length_greater_0_conv)
  then have "1 < length (clock_text n)" by (simp add: clock_text_def fmtInt_def)
  ultimately show thesis using that by (cases "clock_text n") auto
qed

lemma Duration_String_seconds:
  assumes "d mod 10 ^ 9 = 0"
  shows "Duration_String d = (if d < 0 then CHR ''-'' # clock_text (\<bar>d\<bar> div 10 ^ 9) else clock_text (\<bar>d\<bar> div 10 ^ 9))"
proof -
  have u: "\<bar>d\<bar> mod 10 ^ 9 = 0" using assms by (simp add: mod_eq_0_iff_dvd del: power_numeral)
  show ?thesis
  proof (cases "d = 0")
    case True
    then show ?thesis by (simp add: Duration_String_def clock_text_def fmtInt_def dec_nat.simps digit_char_0)
  next
    case False
    with u have "10 ^ 9 \<le> \<bar>d\<bar>" by (metis abs_ge_zero abs_le_zero_iff mod_pos_pos_trivial not_le)
    with u show ?thesis by (auto simp: Duration_String_def clock_text_def fmtFrac_zero Let_def)
  qed
qed

text \<open>
  Printing and parsing durations agree: every whole number of seconds of either sign in the
  range of a duration, printed by \<open>Duration.String\<close> (as the shutdown log does with its
  timeout), is read back as the same duration by the configuration's decoder.
\<close>

theorem UnmarshalYAML_String:
  assumes "d mod 10 ^ 9 = 0" and "- (2 ^ 63) < d" and "d < 2 ^ 63"
  shows "UnmarshalYAML quote time_quote fl (Inr (Duration_String d)) = Inr d"
proof -
  let ?n = "\<bar>d\<bar> div 10 ^ 9"
  have n: "?n * 10 ^ 9 = \<bar>d\<bar>" using assms(1) by (simp add: mod_eq_0_iff_dvd dvd_div_mult_self del: power_numeral)
  obtain c s where c: "clock_text ?n = c # s" "is_digit c" "s \<noteq> []"
    using clock_text_Cons .
  have "parse_terms fl 0 (c # s) = Inr \<bar>d\<bar>" using parse_clock_text [of ?n fl] n assms c(1) by (simp add: pos_imp_zdiv_nonneg_iff)
  moreover have "c \<noteq> CHR ''-''" "c \<noteq> CHR ''+''" using c(2) by (auto simp: is_digit_def)
  moreover have "Duration_String d = (if d < 0 then CHR ''-'' # c # s else c # s)"
    unfolding Duration_String_seconds [OF assms(1)] c(1) by (rule refl)
  ultimately show ?thesis
    using c(3) assms by (auto simp: UnmarshalYAML_def ParseDuration_def Let_def)
qed

theorem UnmarshalYAML_String_witness:
  "UnmarshalYAML id id (\<lambda>f u s. 0) (Inr (Duration_String (3725 * 10 ^ 9))) = Inr (3725 * 10 ^ 9)"
  by (rule UnmarshalYAML_String) simp_all

end
