(* ===== verification/Flags.thy ===== *)
theory Flags
  imports Durations
begin

text \<open>
  Command line flags: \<open>FlagSet.Parse\<close> of the standard library's package flag, for the three
  kinds of flags the program declares. The texts that the package prints itself (its error and the
  usage) are not modelled; the program only distinguishes success, a request for help and an error.
\<close>

datatype flag_kind = BoolFlag | StringFlag | DurationFlag

datatype flag_value = BoolVal bool | StringVal string | DurationVal duration

datatype flag_error = ErrHelp | BadSyntax string | NotDefined string | NeedsArgument string | InvalidValue string string

type_synonym flag_set = "string \<rightharpoonup> flag_kind"
type_synonym flag_values = "string \<rightharpoonup> flag_value"

definition ParseBool :: "string \<Rightarrow> bool option" where
  "ParseBool s =
     (if s \<in> {''1'', ''t'', ''T'', ''TRUE'', ''true'', ''True''} then Some True
      else if s \<in> {''0'', ''f'', ''F'', ''FALSE'', ''false'', ''False''} then Some False
      else None)"

text \<open>\<open>Set\<close> of a flag's value; \<^term>\<open>None\<close> is an error.\<close>

definition set_flag :: "(int \<Rightarrow> int \<Rightarrow> int \<Rightarrow> int) \<Rightarrow> flag_kind \<Rightarrow> string \<Rightarrow> flag_value option" where
  "set_flag fl k v =
     (case k of
        BoolFlag \<Rightarrow> map_option BoolVal (ParseBool v)
      | StringFlag \<Rightarrow> Some (StringVal v)
      | DurationFlag \<Rightarrow> (case ParseDuration fl v of Inl _ \<Rightarrow> None | Inr d \<Rightarrow> Some (DurationVal d)))"

text \<open>\<open>name=value\<close>, cut at the first equals sign that is not the first character.\<close>

definition split_value :: "string \<Rightarrow> string \<times> string option" where
  "split_value n =
     (let pre = takeWhile (\<lambda>c. c \<noteq> CHR ''='') (tl n)
      in if length pre = length (tl n) then (n, None)
         else (hd n # pre, Some (drop (Suc (length pre)) (tl n))))"

text \<open>\<open>parseOne\<close>: the end of the flags with the remaining arguments, or one flag set.\<close>

datatype parsed_flag = NoMore "string list" | Assign string flag_value "string list"

definition assign :: "(int \<Rightarrow> int \<Rightarrow> int \<Rightarrow> int) \<Rightarrow> flag_kind \<Rightarrow> string \<Rightarrow> string \<Rightarrow> string list \<Rightarrow> flag_error + parsed_flag" where
  "assign fl k nm v rest =
     (case set_flag fl k v of None \<Rightarrow> Inl (InvalidValue nm v) | Some x \<Rightarrow> Inr (Assign nm x rest))"

definition parseOne ::
  "(int \<Rightarrow> int \<Rightarrow> int \<Rightarrow> int) \<Rightarrow> flag_set \<Rightarrow> string list \<Rightarrow> flag_error + parsed_flag" where
  "parseOne fl defs args =
     (case args of
        [] \<Rightarrow> Inr (NoMore [])
      | s # args' \<Rightarrow>
          if length s < 2 \<or> hd s \<noteq> CHR ''-'' then Inr (NoMore args)
          else if s = ''--'' then Inr (NoMore args')
          else let name = (if s ! 1 = CHR ''-'' then drop 2 s else drop 1 s)
               in if name = [] \<or> hd name = CHR ''-'' \<or> hd name = CHR ''='' then Inl (BadSyntax s)
                  else let (nm, val) = split_value name
                       in case defs nm of
                         None \<Rightarrow> if nm = ''help'' \<or> nm = ''h'' then Inl ErrHelp else Inl (NotDefined nm)
                       | Some k \<Rightarrow>
                           (case val of
                              Some v \<Rightarrow> assign fl k nm v args'
                            | None \<Rightarrow>
                                if k = BoolFlag then assign fl k nm ''true'' args'
                                else (case args' of [] \<Rightarrow> Inl (NeedsArgument nm) | v # rest \<Rightarrow> assign fl k nm v rest)))"

lemma assign_Inr: "assign fl k nm v rest = Inr r \<longleftrightarrow> (\<exists>x. set_flag fl k v = Some x \<and> r = Assign nm x rest)"
  by (auto simp: assign_def split: option.splits)

lemma parseOne_Assign:
  assumes "parseOne fl defs args = Inr (Assign n x rest)"
  shows "length rest < length args \<and> (\<exists>k v. defs n = Some k \<and> set_flag fl k v = Some x)"
  using assms
  by (auto simp: parseOne_def Let_def assign_Inr split: list.splits if_splits prod.splits option.splits)

function flag_parse ::
  "(int \<Rightarrow> int \<Rightarrow> int \<Rightarrow> int) \<Rightarrow> flag_set \<Rightarrow> string list \<Rightarrow> flag_values \<Rightarrow> flag_error + flag_values \<times> string list" where
  "flag_parse fl defs args vals =
     (case parseOne fl defs args of
        Inl e \<Rightarrow> Inl e
      | Inr (NoMore rest) \<Rightarrow> Inr (vals, rest)
      | Inr (Assign n x rest) \<Rightarrow> flag_parse fl defs rest (vals(n \<mapsto> x)))"
  by pat_completeness auto
termination
  by (relation "measure (\<lambda>(fl, defs, args, vals). length args)") (auto dest: parseOne_Assign)

declare flag_parse.simps [simp del]

definition bool_flag :: "flag_values \<Rightarrow> string \<Rightarrow> bool \<Rightarrow> bool" where
  "bool_flag vals n dflt = (case vals n of Some (BoolVal b) \<Rightarrow> b | _ \<Rightarrow> dflt)"

definition string_flag :: "flag_values \<Rightarrow> string \<Rightarrow> string \<Rightarrow> string" where
  "string_flag vals n dflt = (case vals n of Some (StringVal s) \<Rightarrow> s | _ \<Rightarrow> dflt)"

definition duration_flag :: "flag_values \<Rightarrow> string \<Rightarrow> duration \<Rightarrow> duration" where
  "duration_flag vals n dflt = (case vals n of Some (DurationVal d) \<Rightarrow> d | _ \<Rightarrow> dflt)"

text \<open>A parsed value has the kind its flag was declared with.\<close>

fun has_kind :: "flag_kind \<Rightarrow> flag_value \<Rightarrow> bool" where
  "has_kind BoolFlag (BoolVal b) = True"
| "has_kind StringFlag (StringVal s) = True"
| "has_kind DurationFlag (DurationVal d) = True"
| "has_kind _ _ = False"

definition well_kinded :: "flag_set \<Rightarrow> flag_values \<Rightarrow> bool" where
  "well_kinded defs vals \<longleftrightarrow> (\<forall>n v. vals n = Some v \<longrightarrow> (\<exists>k. defs n = Some k \<and> has_kind k v))"

lemma set_flag_kind: "set_flag fl k v = Some x \<Longrightarrow> has_kind k x"
  by (cases k) (auto simp: set_flag_def split: sum.splits)

lemma well_kinded_upd:
  "well_kinded defs vals \<Longrightarrow> defs n = Some k \<Longrightarrow> set_flag fl k s = Some v \<Longrightarrow> well_kinded defs (vals(n \<mapsto> v))"
  by (auto simp: well_kinded_def dest: set_flag_kind)

lemma flag_parse_well_kinded:
  "flag_parse fl defs args vals = Inr (vals', rest) \<Longrightarrow> well_kinded defs vals \<Longrightarrow> well_kinded defs vals'"
proof (induction fl defs args vals rule: flag_parse.induct)
  case (1 fl defs args vals)
  show ?case
  proof (cases "\<exists>n x r. parseOne fl defs args = Inr (Assign n x r)")
    case True
    then obtain n x r where p: "parseOne fl defs args = Inr (Assign n x r)" by blast
    then have "well_kinded defs (vals(n \<mapsto> x))" using parseOne_Assign [OF p] "1.prems"(2) well_kinded_upd by blast
    moreover have "flag_parse fl defs r (vals(n \<mapsto> x)) = Inr (vals', rest)"
      using "1.prems"(1) p by (subst (asm) flag_parse.simps) simp
    ultimately show ?thesis using "1.IH" [OF p refl] by blast
  next
    case False
    with "1.prems" show ?thesis
      by (subst (asm) flag_parse.simps) (auto split: sum.splits parsed_flag.splits)
  qed
qed

end
