(* ===== verification/Process.thy ===== *)
theory Process
  imports Health Flags
begin

text \<open>
  \<open>cmd/ftp2sftp/main.go\<close>: start-up, shutdown, the readiness check and the self check of the
  process. What the environment decides is an argument: the command line, the environment
  variable, the answers of the FTP library when it binds and stops its listener, the event that
  ends the wait, and the traffic served meanwhile (an arbitrary computation on the process state).
  The drain of the sessions, where two goroutines and a timer run concurrently, is also given as a
  step relation.
\<close>

section \<open>Probing the targets\<close>

definition probeUserSFTP ::
  "'s ssh_lib \<Rightarrow> 's sftp_lib \<Rightarrow> UserConfig \<Rightarrow> duration \<Rightarrow> (('s, 'm) world_scheme, go_error option) state" where
  "probeUserSFTP K L u timeout = do {
     sshClient \<leftarrow> Dial K (ssh_config (uc_SFTP u) timeout);
     case sshClient of
       Inl err \<Rightarrow> return (Some err)
     | Inr h \<Rightarrow> do {
         client \<leftarrow> New_Client L h (st_RootPath (uc_SFTP u));
         case client of
           Inl err \<Rightarrow> return (Some err)
         | Inr c \<Rightarrow> do {
             pingErr \<leftarrow> Client_Ping L c;
             _ \<leftarrow> Client_Close L c;
             return pingErr
           }
       }
   }"

text \<open>The loop of \<open>readinessCheck\<close>; the context is asked before each user.\<close>

fun readiness_loop ::
  "'s ssh_lib \<Rightarrow> 's sftp_lib \<Rightarrow> ctx \<Rightarrow> nat \<Rightarrow> UserConfig list \<Rightarrow> (('s, 'm) world_scheme, go_error option) state" where
  "readiness_loop K L cx i [] = return None"
| "readiness_loop K L cx i (u # us) =
     (case cx i of
        Some err \<Rightarrow> return (Some err)
      | None \<Rightarrow> do {
          err \<leftarrow> probeUserSFTP K L u (3 * Second);
          case err of
            Some e \<Rightarrow> return (Some (WrappedError (''usuario '' @ uc_Username u @ '': '' @ Error e) e))
          | None \<Rightarrow> readiness_loop K L cx (Suc i) us
        })"

definition readinessCheck ::
  "'s ssh_lib \<Rightarrow> 's sftp_lib \<Rightarrow> Config \<Rightarrow> ('s, 'm) world_scheme ReadinessCheck" where
  "readinessCheck K L cfg = (\<lambda>cx. readiness_loop K L cx 0 (cfg_Users cfg))"

definition process_health :: "'s ssh_lib \<Rightarrow> 's sftp_lib \<Rightarrow> Config \<Rightarrow> ('s, 'm) proc_world_scheme HealthServer" where
  "process_health K L cfg = NewServer (hc_ListenAddress (cfg_Health cfg)) (hc_ReadinessRequiresSFTP (cfg_Health cfg))
     (Some (readinessCheck K L cfg))"

section \<open>Self check\<close>

definition defaultConfigPath :: "string \<Rightarrow> string" where
  "defaultConfigPath config_file_env = (if config_file_env \<noteq> [] then config_file_env else ''/app/config/config.yaml'')"

text \<open>
  \<open>runHealthcheck\<close>: the exit code and what is written to standard error.
  \<open>http_Get\<close> gives the status of a GET, \<open>addr_error\<close> the text of the error of
  \<open>net.SplitHostPort\<close>.
\<close>

definition runHealthcheck ::
  "config_env \<Rightarrow> (string \<Rightarrow> string) \<Rightarrow> (string \<Rightarrow> int result) \<Rightarrow> string \<Rightarrow> int \<times> string" where
  "runHealthcheck env addr_error http_Get configPath =
     (case Load env configPath of
        Inl err \<Rightarrow> (1, ''ftp2sftp healthcheck: '' @ Error err @ [newline])
      | Inr cfg \<Rightarrow>
          (case SplitHostPort (hc_ListenAddress (cfg_Health cfg)) of
             None \<Rightarrow> (1, ''ftp2sftp healthcheck: invalid health.listenAddress: ''
                        @ addr_error (hc_ListenAddress (cfg_Health cfg)) @ [newline])
           | Some (host, port) \<Rightarrow>
               let host = (if host = [] \<or> host = ''0.0.0.0'' then ''127.0.0.1'' else host)
               in case http_Get (''http://'' @ JoinHostPort host port @ ''/healthz'') of
                    Inl err \<Rightarrow> (1, ''ftp2sftp healthcheck: '' @ Error err @ [newline])
                  | Inr st \<Rightarrow>
                      if st \<noteq> 200 then (1, ''ftp2sftp healthcheck: /healthz returned '' @ fmt_d st @ [newline])
                      else (0, [])))"

section \<open>Shutdown\<close>

text \<open>The branch that the final \<open>select\<close> takes.\<close>

datatype drain_branch = SawDrained | SawDeadline

record 'w shutdown_env =
  sd_Stop :: "go_error option"
  sd_traffic :: "('w, unit) state"
  sd_branch :: drain_branch
  sd_Close :: "nat \<Rightarrow> ('w, go_error option) state"
  sd_HealthShutdown :: "go_error option"

text \<open>\<open>shutdown\<close> after the two flags are set: stopping, draining, forcing, stopping the health server.\<close>

definition drain ::
  "Config \<Rightarrow> ('s, 'm) proc_world_scheme shutdown_env \<Rightarrow> (('s, 'm) proc_world_scheme, unit) state" where
  "drain cfg E = do {
     _ \<leftarrow> (case sd_Stop E of
            Some err \<Rightarrow> emit_log LevelWarn ''error stopping FTP listener'' [(''err'', AString (Error err))]
          | None \<Rightarrow> return ());
     let deadline = srv_ShutdownTimeout (cfg_Server cfg);
     _ \<leftarrow> emit_log LevelInfo ''draining active sessions'' [(''timeout'', AString (Duration_String deadline))];
     _ \<leftarrow> sd_traffic E;
     _ \<leftarrow> (case sd_branch E of
            SawDrained \<Rightarrow> emit_log LevelInfo ''all sessions drained cleanly'' []
          | SawDeadline \<Rightarrow> do {
              _ \<leftarrow> emit_log LevelWarn ''shutdown deadline reached with sessions still active; forcing close'' [];
              CloseAllConnections (sd_Close E)
            });
     _ \<leftarrow> (case Server_Shutdown (sd_HealthShutdown E) of
            Some err \<Rightarrow> emit_log LevelWarn ''error stopping health server'' [(''err'', AString (Error err))]
          | None \<Rightarrow> return ());
     emit_log LevelInfo ''shutdown complete'' []
   }"

definition shutdown ::
  "Config \<Rightarrow> ('s, 'm) proc_world_scheme shutdown_env \<Rightarrow> (('s, 'm) proc_world_scheme, int) state" where
  "shutdown cfg E = do {
     _ \<leftarrow> SetAlive False;
     _ \<leftarrow> PrepareShutdown;
     _ \<leftarrow> drain cfg E;
     return 0
   }"

section \<open>Start-up\<close>

datatype stop_event = Signal string | FtpStopped "go_error option" | HealthStopped "(bool \<times> go_error) option"

record 's run_env =
  re_config :: config_env
  re_CONFIG_FILE :: string
  re_float :: "int \<Rightarrow> int \<Rightarrow> int \<Rightarrow> int"
  re_addr_error :: "string \<Rightarrow> string"
  re_http_Get :: "string \<Rightarrow> int result"
  re_rand :: "nat \<Rightarrow> bytes option"
  re_clock :: "nat \<Rightarrow> nat"
  re_server :: 's
  re_Listen :: "go_error option"
  re_Addr :: string
  re_traffic :: "Gateway \<Rightarrow> ('s proc_world, unit) state"
  re_event :: stop_event
  re_shutdown :: "Gateway \<Rightarrow> 's proc_world shutdown_env"

definition serve :: "'s run_env \<Rightarrow> string \<Rightarrow> Config \<Rightarrow> Gateway \<Rightarrow> ('s proc_world, int) state" where
  "serve R configPath cfg gw = do {
     _ \<leftarrow> emit_log LevelInfo ''starting ftp2sftp''
           [(''configPath'', AString configPath), (''users'', AInt (int (length (cfg_Users cfg))))];
     case re_Listen R of
       Some err \<Rightarrow> do {
         _ \<leftarrow> emit_log LevelError ''failed to bind FTP listener'' [(''err'', AString (Error err))];
         return 1
       }
     | None \<Rightarrow> do {
         _ \<leftarrow> emit_log LevelInfo ''FTP listener bound'' [(''addr'', AString (re_Addr R))];
         _ \<leftarrow> SetAlive True;
         _ \<leftarrow> emit_log LevelInfo ''health server listening'' [(''addr'', AString (hc_ListenAddress (cfg_Health cfg)))];
         _ \<leftarrow> re_traffic R gw;
         _ \<leftarrow> (case re_event R of
                Signal sig \<Rightarrow> emit_log LevelInfo ''shutdown signal received'' [(''signal'', AString sig)]
              | FtpStopped err \<Rightarrow> do {
                  _ \<leftarrow> (case err of
                         Some e \<Rightarrow> emit_log LevelError ''FTP server stopped unexpectedly'' [(''err'', AString (Error e))]
                       | None \<Rightarrow> return ());
                  SetAlive False
                }
              | HealthStopped r \<Rightarrow>
                  (case ListenAndServe r of
                     Some e \<Rightarrow> emit_log LevelError ''health server stopped unexpectedly'' [(''err'', AString (Error e))]
                   | None \<Rightarrow> return ()));
         shutdown cfg (re_shutdown R gw)
       }
   }"

definition run_flags :: flag_set where
  "run_flags = [''healthcheck'' \<mapsto> BoolFlag, ''config'' \<mapsto> StringFlag]"

text \<open>
  \<open>run\<close>: the exit code, the standard error text and the final state of the process if it got
  as far as building a gateway. A rejected command line ends the process inside \<open>flag.Parse\<close>
  (exit code 2, or 0 after a request for help); a panic of \<open>New\<close> has exit code 2.
\<close>

definition run :: "'s run_env \<Rightarrow> string list \<Rightarrow> int \<times> string \<times> 's proc_world option" where
  "run R args =
     (case flag_parse (re_float R) run_flags args Map.empty of
        Inl e \<Rightarrow> (if e = ErrHelp then 0 else 2, [], None)
      | Inr (vals, _) \<Rightarrow>
          let configPath = string_flag vals ''config'' (defaultConfigPath (re_CONFIG_FILE R))
          in if bool_flag vals ''healthcheck'' False
             then (case runHealthcheck (re_config R) (re_addr_error R) (re_http_Get R) configPath of
                     (code, err) \<Rightarrow> (code, err, None))
             else case Load (re_config R) configPath of
               Inl err \<Rightarrow> (1, ''ftp2sftp: configuraci'' @ o_acute @ ''n inv'' @ a_acute @ ''lida: '' @ Error err @ [newline], None)
             | Inr cfg \<Rightarrow>
                 (case New_Gateway cfg (re_server R) (re_rand R) (re_clock R) of
                    None \<Rightarrow> (2, [], None)
                  | Some (gw, w0) \<Rightarrow>
                      (case run_state (serve R configPath cfg gw) (gw_world.extend w0 \<lparr>alive = False\<rparr>) of
                         (code, w) \<Rightarrow> (code, [], Some w))))"

section \<open>What a probe sends\<close>

text \<open>Reads of a configured root and connection management only.\<close>

definition probing :: "string set \<Rightarrow> request \<Rightarrow> bool" where
  "probing roots q \<longleftrightarrow> \<not> mutating q \<and> set (request_paths q) \<subseteq> roots"

text \<open>Every connection that was begun is ended by the last request.\<close>

definition handshaken :: "request list \<Rightarrow> bool" where
  "handshaken qs \<longleftrightarrow> list_ex (\<lambda>q. case q of Handshake a u h t \<Rightarrow> True | _ \<Rightarrow> False) qs"

definition ended :: "request list \<Rightarrow> bool" where
  "ended qs \<longleftrightarrow> (handshaken qs \<longrightarrow> last qs \<in> {CloseConn, CloseSSH})"

lemma Dial_wire:
  assumes "run_state (Dial K cfg) w = (r, w')"
  obtains qs where "wire w' = wire w @ qs" and "list_all (probing R) qs" and "\<forall>e. r = Inl e \<longrightarrow> ended qs"
proof -
  have "\<exists>qs. wire w' = wire w @ qs \<and> list_all (probing R) qs \<and> (\<forall>e. r = Inl e \<longrightarrow> ended qs)"
    using assms
    by (auto simp: Dial_def run_send Let_def probing_def ended_def handshaken_def split: sum.splits if_splits)
  with that show thesis by blast
qed

lemma probe_wire:
  assumes "run_state (probeUserSFTP K L u t) w = (r, w')"
  obtains qs where "wire w' = wire w @ qs" and "list_all (probing {cleanRoot (st_RootPath (uc_SFTP u))}) qs"
    and "ended qs" and "r = None \<Longrightarrow> Stat (cleanRoot (st_RootPath (uc_SFTP u))) \<in> set qs"
proof -
  let ?R = "{cleanRoot (st_RootPath (uc_SFTP u))}"
  obtain d w1 where d: "run_state (Dial K (ssh_config (uc_SFTP u) t)) w = (d, w1)" by fastforce
  obtain qs where qs: "wire w1 = wire w @ qs" "list_all (probing ?R) qs" "\<And>e. d = Inl e \<Longrightarrow> ended qs"
    using Dial_wire [OF d, of ?R] by blast
  show thesis
  proof (cases d)
    case (Inl e)
    then have "r = Some e" "w' = w1" using assms d by (simp_all add: probeUserSFTP_def)
    with that [of qs] qs Inl show thesis by simp
  next
    case (Inr h)
    have "path_Clean (''/'' @ st_RootPath (uc_SFTP u)) = cleanRoot (st_RootPath (uc_SFTP u))"
      by (simp add: cleanRoot_def path_Clean_def)
    with assms d Inr obtain ps where "wire w' = wire w1 @ ps" "list_all (probing ?R) ps" "last ps = CloseSSH" "ps \<noteq> []"
      "r = None \<Longrightarrow> Stat (cleanRoot (st_RootPath (uc_SFTP u))) \<in> set ps"
      by (auto simp: probeUserSFTP_def New_Client_def Client_Ping_def Client_Close_def run_send probing_def
          split: sum.splits prod.splits)
    with that [of "qs @ ps"] qs show thesis by (auto simp: ended_def)
  qed
qed

lemma probing_mono: "probing R q \<Longrightarrow> R \<subseteq> R' \<Longrightarrow> probing R' q"
  by (auto simp: probing_def)

definition target_roots :: "UserConfig list \<Rightarrow> string set" where
  "target_roots us = (\<lambda>u. cleanRoot (st_RootPath (uc_SFTP u))) ` set us"

lemma readiness_wire:
  assumes "run_state (readiness_loop K L cx i us) w = (r, w')"
  shows "\<exists>qs. wire w' = wire w @ qs \<and> list_all (probing (target_roots us)) qs
    \<and> (r = None \<longrightarrow> (\<forall>p \<in> target_roots us. Stat p \<in> set qs))"
  using assms
proof (induction us arbitrary: i w)
  case Nil
  then show ?case by (auto simp: target_roots_def)
next
  case (Cons u us)
  have sub: "{cleanRoot (st_RootPath (uc_SFTP u))} \<subseteq> target_roots (u # us)" "target_roots us \<subseteq> target_roots (u # us)"
    by (auto simp: target_roots_def)
  obtain e w1 where e: "run_state (probeUserSFTP K L u (3 * Second)) w = (e, w1)" by fastforce
  obtain ps where ps: "wire w1 = wire w @ ps" "list_all (probing (target_roots (u # us))) ps"
    "e = None \<Longrightarrow> Stat (cleanRoot (st_RootPath (uc_SFTP u))) \<in> set ps"
    by (rule probe_wire [OF e]) (use sub(1) in \<open>auto intro: list.pred_mono_strong probing_mono\<close>)
  show ?case
  proof (cases "cx i = None \<and> e = None")
    case True
    then have "run_state (readiness_loop K L cx (Suc i) us) w1 = (r, w')" using Cons.prems e by simp
    from Cons.IH [OF this] obtain qs where "wire w' = wire w1 @ qs" "list_all (probing (target_roots us)) qs"
      "r = None \<longrightarrow> (\<forall>p \<in> target_roots us. Stat p \<in> set qs)" by blast
    moreover from this(2) sub(2) have "list_all (probing (target_roots (u # us))) qs"
      by (auto intro: list.pred_mono_strong probing_mono)
    ultimately show ?thesis using True ps by (intro exI [of _ "ps @ qs"]) (auto simp: target_roots_def)
  next
    case False
    then show ?thesis using Cons.prems e ps by (auto split: option.splits)
  qed
qed


text \<open>
  A probe cleans up after itself: whatever the server answers, a handshake begun by
  \<open>probeUserSFTP\<close> is followed, as the last request, by the end of that connection; the probe
  succeeds only after the root was read, and sends nothing that changes the server.
\<close>

theorem probe_closes_connection:
  assumes "run_state (probeUserSFTP K L u t) w = (r, w')"
  shows "\<exists>qs. wire w' = wire w @ qs \<and> ended qs \<and> list_all (Not \<circ> mutating) qs
    \<and> (r = None \<longrightarrow> Stat (cleanRoot (st_RootPath (uc_SFTP u))) \<in> set qs)"
proof -
  obtain qs where q: "wire w' = wire w @ qs" "list_all (probing {cleanRoot (st_RootPath (uc_SFTP u))}) qs" "ended qs"
    "r = None \<Longrightarrow> Stat (cleanRoot (st_RootPath (uc_SFTP u))) \<in> set qs"
    using probe_wire [OF assms] by blast
  moreover from q(2) have "list_all (Not \<circ> mutating) qs" by (auto simp: list_all_iff probing_def)
  ultimately show ?thesis by blast
qed

definition demo_user :: UserConfig where
  "demo_user = hd (cfg_Users demo_cfg)"

definition idle_tree :: "tree proc_world" where
  "idle_tree = live_world\<lparr>wire := []\<rparr>"

theorem probe_closes_connection_witness:
  "\<exists>qs. wire (snd (run_state (probeUserSFTP accepting_lib tree_lib demo_user Second) idle_tree)) = qs
     \<and> length qs = 6 \<and> ended qs"
proof -
  let ?r = "run_state (probeUserSFTP accepting_lib tree_lib demo_user Second) idle_tree"
  have "length (wire (snd ?r)) = 6" by code_simp
  with probe_closes_connection [OF prod.collapse [symmetric], of accepting_lib tree_lib demo_user Second idle_tree]
  show ?thesis by (auto simp: idle_tree_def)
qed


section \<open>The life of the process\<close>

lemma new_users_total:
  assumes "list_all (\<lambda>u. 0 \<le> uc_MaxConcurrentTransfers u) us"
  shows "\<exists>r. new_users us acc = Some r"
  using assms
  by (induction us acc rule: new_users.induct) (auto simp: NewConcurrencyGate_def)

lemma loaded_gateway:
  assumes "Load env p = Inr cfg"
  obtains gw w0 where "New_Gateway cfg srv rand clk = Some (gw, w0)"
proof -
  have "Validate env cfg = None" using assms by (auto simp: Load_def Let_def split: sum.splits option.splits)
  then have "list_all (valid_user env) (cfg_Users cfg)" by (simp add: Validate_None_iff valid_config_def list_all_iff)
  then have "list_all (\<lambda>u. 0 \<le> uc_MaxConcurrentTransfers u) (cfg_Users cfg)"
    by (auto simp: list_all_iff valid_user_def)
  from new_users_total [OF this] have "\<exists>gw w0. New_Gateway cfg srv rand clk = Some (gw, w0)"
    by (auto simp: New_Gateway_def split: option.split)
  with that show thesis by blast
qed

text \<open>Traffic and the library's closing of connections leave the two process flags alone.\<close>

definition flags_of :: "('s, 'm) proc_world_scheme \<Rightarrow> bool \<times> bool" where
  "flags_of w = (alive w, shuttingDown w)"

definition respects_flags :: "('s, 'm) proc_world_scheme shutdown_env \<Rightarrow> bool" where
  "respects_flags E \<longleftrightarrow> keeps flags_of (sd_traffic E) \<and> (\<forall>cc. keeps flags_of (sd_Close E cc))"

lemma flags_of_log: "keeps flags_of (emit_log lvl m as)"
  unfolding emit_log_def by (rule keeps_modify) (simp add: flags_of_def)

lemma flags_of_close_each:
  assumes "\<And>cc. keeps flags_of (f cc)"
  shows "keeps flags_of (close_each f ccs)"
  by (induction ccs) (auto intro!: keeps_basic flags_of_log assms)

lemma drain_flags:
  assumes "respects_flags E"
  shows "keeps flags_of (drain cfg E)"
proof -
  have k: "keeps flags_of (sd_traffic E)" "\<And>cc. keeps flags_of (sd_Close E cc)" using assms by (simp_all add: respects_flags_def)
  have ca: "keeps flags_of (CloseAllConnections (sd_Close E))"
    unfolding CloseAllConnections_def by (intro keeps_basic flags_of_close_each k(2))
  show ?thesis
    unfolding drain_def Let_def
    by (intro keeps_basic flags_of_log k(1)) (cases "sd_branch E"; auto intro!: keeps_basic flags_of_log ca)
qed

lemma shutdown_flags:
  assumes "respects_flags E" and "run_state (shutdown cfg E) w = (c, w')"
  shows "c = 0 \<and> flags_of w' = (False, True)"
proof -
  obtain x w1 where d: "run_state (drain cfg E) (w\<lparr>alive := False, shuttingDown := True\<rparr>) = (x, w1)" by (metis surj_pair)
  with assms(2) have "c = 0 \<and> w' = w1" by (simp add: shutdown_def SetAlive_def PrepareShutdown_def)
  with keepsD [OF drain_flags [OF assms(1)] d] show ?thesis by (simp add: flags_of_def)
qed

lemma serve_shutdown:
  assumes "re_Listen R = None" and "run_state (serve R p cfg gw) w = (c, w')"
  obtains w1 where "run_state (shutdown cfg (re_shutdown R gw)) w1 = (c, w')"
  using assms by (auto simp: serve_def split: prod.splits)

lemma runHealthcheck_ok: "runHealthcheck env ae g p = (0, e) \<Longrightarrow> \<exists>u. g u = Inr 200"
  by (auto simp: runHealthcheck_def Let_def split: sum.splits option.splits if_splits)


definition quiet_shutdown :: "tree proc_world shutdown_env" where
  "quiet_shutdown = \<lparr>sd_Stop = None, sd_traffic = return (), sd_branch = SawDeadline, sd_Close = (\<lambda>cc. return None), sd_HealthShutdown = None\<rparr>"

definition demo_run :: "tree run_env" where
  "demo_run = \<lparr>re_config = sample_env, re_CONFIG_FILE = [], re_float = (\<lambda>f u s. 0), re_addr_error = id, re_http_Get = (\<lambda>u. Inr 200),
     re_rand = (\<lambda>_. Some [0, 1, 2, 3, 4, 5, 6, 7]), re_clock = (\<lambda>_. 0), re_server = empty_tree, re_Listen = None,
     re_Addr = '':2121'', re_traffic = (\<lambda>gw. return ()), re_event = Signal ''terminated'', re_shutdown = (\<lambda>gw. quiet_shutdown)\<rparr>"


section \<open>The drain\<close>

text \<open>
  The goroutines of \<open>shutdown\<close>: the timer, which closes \<open>deadlineCh\<close>; the waiter
  (\<open>WaitForSessions\<close> and the \<open>close(drained)\<close> after it); and the main goroutine, at its
  \<open>select\<close>, forcing the close and waiting for \<open>drained\<close>, or past the drain. A
  \<open>select\<close> with several ready cases may take any of them. Meanwhile the clients still
  connected end their sessions and, since \<open>AuthUser\<close> does not look at \<open>shuttingDown\<close>,
  also begin new ones. A closed \<open>drained\<close> remembers how many sessions were open then.
\<close>

datatype main_phase = Selecting | Forcing | Drained drain_branch

record drain_state =
  ds_sessions :: nat
  ds_deadline :: bool
  ds_drained :: "nat option"
  ds_main :: main_phase

inductive session_step :: "drain_state \<Rightarrow> drain_state \<Rightarrow> bool" where
  session_begin: "session_step s (s\<lparr>ds_sessions := ds_sessions s + 1\<rparr>)"
| session_end: "0 < ds_sessions s \<Longrightarrow> session_step s (s\<lparr>ds_sessions := ds_sessions s - 1\<rparr>)"

inductive drain_step :: "drain_state \<Rightarrow> drain_state \<Rightarrow> bool" where
  fire: "\<not> ds_deadline s \<Longrightarrow> drain_step s (s\<lparr>ds_deadline := True\<rparr>)"
| waiter: "ds_drained s = None \<Longrightarrow> WaitForSessions_returns (ds_deadline s) (int (ds_sessions s)) \<Longrightarrow>
    drain_step s (s\<lparr>ds_drained := Some (ds_sessions s)\<rparr>)"
| main_drained: "ds_main s = Selecting \<Longrightarrow> ds_drained s \<noteq> None \<Longrightarrow> drain_step s (s\<lparr>ds_main := Drained SawDrained\<rparr>)"
| main_deadline: "ds_main s = Selecting \<Longrightarrow> ds_deadline s \<Longrightarrow> drain_step s (s\<lparr>ds_main := Forcing\<rparr>)"
| main_forced: "ds_main s = Forcing \<Longrightarrow> ds_drained s \<noteq> None \<Longrightarrow> drain_step s (s\<lparr>ds_main := Drained SawDeadline\<rparr>)"

definition drain_init :: "nat \<Rightarrow> drain_state" where
  "drain_init n = \<lparr>ds_sessions = n, ds_deadline = False, ds_drained = None, ds_main = Selecting\<rparr>"

definition shutdown_step :: "drain_state \<Rightarrow> drain_state \<Rightarrow> bool" where
  "shutdown_step s s' \<longleftrightarrow> session_step s s' \<or> drain_step s s'"

inductive_cases session_stepE: "session_step s s'"

inductive_cases drain_stepE: "drain_step s s'"

fun main_rank :: "main_phase \<Rightarrow> nat" where
  "main_rank Selecting = 2"
| "main_rank Forcing = 1"
| "main_rank (Drained b) = 0"

text \<open>What the process itself has still to do, whatever its clients do.\<close>

definition drain_measure :: "drain_state \<Rightarrow> nat" where
  "drain_measure s = (if ds_deadline s then 0 else 1) + (if ds_drained s = None then 1 else 0) + main_rank (ds_main s)"

lemma drain_step_decreases: "drain_step s s' \<Longrightarrow> drain_measure s' < drain_measure s"
  by (elim drain_stepE) (auto simp: drain_measure_def)

lemma session_steps_measure: "session_step\<^sup>*\<^sup>* s s' \<Longrightarrow> drain_measure s' = drain_measure s"
  by (induction rule: rtranclp_induct) (auto simp: drain_measure_def elim!: session_stepE)

lemma drain_enabled:
  assumes "\<forall>b. ds_main s \<noteq> Drained b"
  shows "\<exists>s'. drain_step s s'"
proof (rule ccontr)
  assume stuck: "\<nexists>s'. drain_step s s'"
  have d: "ds_deadline s" using stuck drain_step.fire by blast
  have w: "ds_drained s \<noteq> None" using stuck d drain_step.waiter [of s] by (auto simp: WaitForSessions_returns_def)
  show False using assms stuck w drain_step.main_drained drain_step.main_forced by (cases "ds_main s") blast+
qed

definition drain_inv :: "drain_state \<Rightarrow> bool" where
  "drain_inv s \<longleftrightarrow> (\<forall>k. ds_drained s = Some k \<longrightarrow> k = 0 \<or> ds_deadline s)
     \<and> (\<forall>b. ds_main s = Drained b \<longrightarrow> ds_drained s \<noteq> None)
     \<and> (ds_main s = Forcing \<or> ds_main s = Drained SawDeadline \<longrightarrow> ds_deadline s)"

lemma drain_inv_step: "shutdown_step s s' \<Longrightarrow> drain_inv s \<Longrightarrow> drain_inv s'"
  unfolding shutdown_step_def
  by (elim disjE session_stepE drain_stepE) (auto simp: drain_inv_def WaitForSessions_returns_def)

lemma drain_inv_reachable:
  assumes "shutdown_step\<^sup>*\<^sup>* (drain_init n) s"
  shows "drain_inv s"
  using assms
proof (induction rule: rtranclp_induct)
  case base
  show ?case by (simp add: drain_inv_def drain_init_def)
next
  case (step y z)
  then show ?case using drain_inv_step by blast
qed

text \<open>
  (C15) The shutdown always ends, even if sessions never end and clients keep logging in: the steps
  of the timer and of the two goroutines cannot go on for ever, whatever sessions begin and end in
  between; until the main goroutine is past the drain one of them can always be taken, whatever
  the clients do; and it gets past the drain only after a moment without sessions or after the
  deadline, past the forced close only after the deadline.
\<close>

theorem shutdown_terminates:
  "wfp (\<lambda>s' s. (session_step\<^sup>*\<^sup>* OO drain_step) s s')
   \<and> (\<forall>s. (\<forall>b. ds_main s \<noteq> Drained b) \<longrightarrow> (\<exists>s'. drain_step s s'))
   \<and> (\<forall>n s b. shutdown_step\<^sup>*\<^sup>* (drain_init n) s \<and> ds_main s = Drained b
        \<longrightarrow> ds_drained s = Some 0 \<or> ds_deadline s)
   \<and> (\<forall>n s. shutdown_step\<^sup>*\<^sup>* (drain_init n) s \<and> ds_main s = Drained SawDeadline \<longrightarrow> ds_deadline s)"
proof (intro conjI allI impI)
  have "wfp (\<lambda>x y. drain_measure x < drain_measure y)" by (simp add: wfp_if_convertible_to_nat)
  then show "wfp (\<lambda>s' s. (session_step\<^sup>*\<^sup>* OO drain_step) s s')"
    by (rule wfp_subset) (auto dest!: session_steps_measure drain_step_decreases)
  show "\<exists>s'. drain_step s s'" if "\<forall>b. ds_main s \<noteq> Drained b" for s using that by (rule drain_enabled)
  show "ds_drained s = Some 0 \<or> ds_deadline s" if "shutdown_step\<^sup>*\<^sup>* (drain_init n) s \<and> ds_main s = Drained b" for n s b
    using that drain_inv_reachable [of n s] by (auto simp: drain_inv_def)
  show "ds_deadline s" if "shutdown_step\<^sup>*\<^sup>* (drain_init n) s \<and> ds_main s = Drained SawDeadline" for n s
    using that drain_inv_reachable [of n s] by (auto simp: drain_inv_def)
qed

text \<open>
  The run that the final \<open>select\<close> does not exclude: once the deadline has passed the waiter
  closes \<open>drained\<close> too, and a main goroutine that comes to its \<open>select\<close> only then may
  take that branch. It logs a clean drain, and nothing is force-closed, with the session still
  open.
\<close>

definition skipped_force :: drain_state where
  "skipped_force = \<lparr>ds_sessions = 1, ds_deadline = True, ds_drained = Some 1, ds_main = Drained SawDrained\<rparr>"

lemma drained_with_sessions: "shutdown_step\<^sup>*\<^sup>* (drain_init 1) skipped_force"
proof -
  let ?s = "\<lambda>d w m. \<lparr>ds_sessions = 1, ds_deadline = d, ds_drained = w, ds_main = m\<rparr>"
  have 1: "shutdown_step (drain_init 1) (?s True None Selecting)"
    using drain_step.fire [of "drain_init 1"] by (simp add: shutdown_step_def drain_init_def)
  have 2: "shutdown_step (?s True None Selecting) (?s True (Some 1) Selecting)"
    using drain_step.waiter [of "?s True None Selecting"] by (simp add: shutdown_step_def WaitForSessions_returns_def)
  have 3: "shutdown_step (?s True (Some 1) Selecting) skipped_force"
    using drain_step.main_drained [of "?s True (Some 1) Selecting"] by (simp add: shutdown_step_def skipped_force_def)
  from 1 2 3 show ?thesis by (meson converse_rtranclp_into_rtranclp rtranclp.rtrancl_refl)
qed

theorem shutdown_terminates_witness:
  "ds_deadline skipped_force \<and> (\<exists>s'. drain_step (drain_init 3) s') \<and> wfp (\<lambda>s' s. (session_step\<^sup>*\<^sup>* OO drain_step) s s')"
proof -
  have "ds_main skipped_force = Drained SawDrained" "ds_drained skipped_force \<noteq> Some 0" by (simp_all add: skipped_force_def)
  with shutdown_terminates [THEN conjunct2, THEN conjunct2, THEN conjunct1, rule_format, of 1 skipped_force SawDrained] drained_with_sessions
  have 1: "ds_deadline skipped_force" by simp
  have "\<forall>b. ds_main (drain_init 3) \<noteq> Drained b" by (simp add: drain_init_def)
  with shutdown_terminates [THEN conjunct2, THEN conjunct1, rule_format, of "drain_init 3"]
  have 2: "\<exists>s'. drain_step (drain_init 3) s'" by blast
  from 1 2 shutdown_terminates [THEN conjunct1] show ?thesis by (intro conjI)
qed

end
