(* ===== verification/CommandLine.thy ===== *)
theory CommandLine
  imports Process
begin

text \<open>
  \<open>cmd/ftp2sftp/cli.go\<close> and the dispatch of \<open>main\<close>: the operator commands
  \<open>config validate\<close>, \<open>config hash-password\<close> and \<open>config check-connectivity\<close>. A
  command is a computation on the remote side and the two output streams that returns the exit
  code. The terminal, standard input and bcrypt are arguments (a record \<open>operator_env\<close>).
\<close>

record 's cli_world = "'s world" +
  cli_stdout :: string
  cli_stderr :: string

definition print_out :: "string \<Rightarrow> (('s, 'm) cli_world_scheme, unit) state" where
  "print_out s = modify (\<lambda>w. w\<lparr>cli_stdout := cli_stdout w @ s\<rparr>)"

definition print_err :: "string \<Rightarrow> (('s, 'm) cli_world_scheme, unit) state" where
  "print_err s = modify (\<lambda>w. w\<lparr>cli_stderr := cli_stderr w @ s\<rparr>)"

text \<open>\<open>%-20s\<close>: padded on the right to 20 characters, not bytes (continuation bytes do not count).\<close>

definition rune_count :: "string \<Rightarrow> nat" where
  "rune_count s = length (filter (\<lambda>c. \<not> (128 \<le> (of_char c :: nat) \<and> (of_char c :: nat) < 192)) s)"

definition pad20 :: "string \<Rightarrow> string" where
  "pad20 s = s @ replicate (20 - rune_count s) CHR '' ''"

definition printConfigUsage :: "(('s, 'm) cli_world_scheme, unit) state" where
  "printConfigUsage = print_err (strings_Join [
     ''uso: ftp2sftp config <subcomando> [flags]'',
     [],
     ''Subcomandos:'',
     ''  validate            Carga y valida un archivo de configuraci'' @ o_acute @ ''n (mismo'',
     ''                       c'' @ o_acute @ ''digo que ejecuta el gateway al arrancar).'',
     ''  hash-password        Genera un hash bcrypt para users[].passwordHash a'',
     ''                       partir de una contrase'' @ n_tilde @ ''a le'' @ i_acute @ ''da de forma segura.'',
     ''  check-connectivity   Prueba, para cada usuario configurado (o uno con'',
     ''                       -user), la conexi'' @ o_acute @ ''n SSH y el acceso SFTP a su'',
     ''                       destino remoto, sin arrancar el listener FTP.''] [newline] @ [newline])"

section \<open>validate\<close>

record operator_env =
  op_config :: config_env
  op_CONFIG_FILE :: string
  op_float :: "int \<Rightarrow> int \<Rightarrow> int \<Rightarrow> int"
  op_quote :: "string \<Rightarrow> string"
  op_IsTerminal :: bool
  op_ReadString :: "string \<times> go_error option"
  op_ReadPassword :: "nat \<Rightarrow> string result"
  op_GenerateFromPassword :: "string \<Rightarrow> string result"

definition cmdConfigValidate :: "operator_env \<Rightarrow> string list \<Rightarrow> (('s, 'm) cli_world_scheme, int) state" where
  "cmdConfigValidate Op args =
     (case flag_parse (op_float Op) [''config'' \<mapsto> StringFlag] args Map.empty of
        Inl e \<Rightarrow> return 2
      | Inr (vals, _) \<Rightarrow>
          let p = string_flag vals ''config'' (defaultConfigPath (op_CONFIG_FILE Op))
          in case Load (op_config Op) p of
               Inl err \<Rightarrow> do {
                 _ \<leftarrow> print_err (''config inv'' @ a_acute @ ''lida ('' @ p @ ''):'' @ [newline] @ Error err @ [newline]);
                 return 1
               }
             | Inr cfg \<Rightarrow> do {
                 _ \<leftarrow> print_out (''OK: '' @ p @ '' es v'' @ a_acute @ ''lida ('' @ fmt_d (int (length (cfg_Users cfg)))
                        @ '' usuario(s))'' @ [newline]);
                 return 0
               })"

section \<open>hash-password\<close>

definition TrimRight_eol :: "string \<Rightarrow> string" where
  "TrimRight_eol s = rev (dropWhile (\<lambda>c. c = CHR 0x0D \<or> c = newline) (rev s))"

definition readPasswordFromOperator :: "operator_env \<Rightarrow> (('s, 'm) cli_world_scheme, string result) state" where
  "readPasswordFromOperator Op =
     (if \<not> op_IsTerminal Op
      then (case op_ReadString Op of
              (line, err) \<Rightarrow>
                (case err of
                   Some e \<Rightarrow> if line = [] then return (Inl e) else return (Inr (TrimRight_eol line))
                 | None \<Rightarrow> return (Inr (TrimRight_eol line))))
      else do {
        _ \<leftarrow> print_err (''Contrase'' @ n_tilde @ ''a: '');
        _ \<leftarrow> print_err [newline];
        case op_ReadPassword Op 0 of
          Inl e \<Rightarrow> return (Inl e)
        | Inr pw1 \<Rightarrow> do {
            _ \<leftarrow> print_err (''Confirmar contrase'' @ n_tilde @ ''a: '');
            _ \<leftarrow> print_err [newline];
            case op_ReadPassword Op 1 of
              Inl e \<Rightarrow> return (Inl e)
            | Inr pw2 \<Rightarrow>
                if pw1 \<noteq> pw2
                then return (Inl (ForeignError (''las contrase'' @ n_tilde @ ''as no coinciden'') [] None))
                else return (Inr pw1)
          }
      })"

definition cmdConfigHashPassword :: "operator_env \<Rightarrow> string list \<Rightarrow> (('s, 'm) cli_world_scheme, int) state" where
  "cmdConfigHashPassword Op args =
     (case flag_parse (op_float Op) Map.empty args Map.empty of
        Inl e \<Rightarrow> return 2
      | Inr _ \<Rightarrow> do {
          password \<leftarrow> readPasswordFromOperator Op;
          case password of
            Inl err \<Rightarrow> do {
              _ \<leftarrow> print_err (''no se pudo leer la contrase'' @ n_tilde @ ''a: '' @ Error err @ [newline]);
              return 1
            }
          | Inr pw \<Rightarrow>
              if pw = [] then do {
                _ \<leftarrow> print_err (''la contrase'' @ n_tilde @ ''a no puede estar vac'' @ i_acute @ ''a'' @ [newline]);
                return 1
              } else (case op_GenerateFromPassword Op pw of
                Inl err \<Rightarrow> do {
                  _ \<leftarrow> print_err (''no se pudo generar el hash: '' @ Error err @ [newline]);
                  return 1
                }
              | Inr h \<Rightarrow> do { _ \<leftarrow> print_out (h @ [newline]); return 0 })
        })"

section \<open>check-connectivity\<close>

text \<open>The loop over the users, with the flags \<open>matched\<close> and \<open>failed\<close>.\<close>

fun check_users ::
  "'s ssh_lib \<Rightarrow> 's sftp_lib \<Rightarrow> string \<Rightarrow> duration \<Rightarrow> UserConfig list \<Rightarrow> bool \<Rightarrow> bool
     \<Rightarrow> (('s, 'm) cli_world_scheme, bool \<times> bool) state" where
  "check_users K L username timeout [] matched failed = return (matched, failed)"
| "check_users K L username timeout (u # us) matched failed =
     (if username \<noteq> [] \<and> uc_Username u \<noteq> username then check_users K L username timeout us matched failed
      else do {
        err \<leftarrow> probeUserSFTP K L u timeout;
        case err of
          Some e \<Rightarrow> do {
            _ \<leftarrow> print_out (''FAIL '' @ pad20 (uc_Username u) @ '' -> '' @ st_Host (uc_SFTP u) @ '':''
                   @ fmt_d (st_Port (uc_SFTP u)) @ ''  '' @ Error e @ [newline]);
            check_users K L username timeout us True True
          }
        | None \<Rightarrow> do {
            _ \<leftarrow> print_out (''OK   '' @ pad20 (uc_Username u) @ '' -> '' @ st_Host (uc_SFTP u) @ '':''
                   @ fmt_d (st_Port (uc_SFTP u)) @ [newline]);
            check_users K L username timeout us True failed
          }
      })"

definition connectivity_flags :: flag_set where
  "connectivity_flags = [''config'' \<mapsto> StringFlag, ''user'' \<mapsto> StringFlag, ''timeout'' \<mapsto> DurationFlag]"

definition cmdConfigCheckConnectivity ::
  "'s ssh_lib \<Rightarrow> 's sftp_lib \<Rightarrow> operator_env \<Rightarrow> string list \<Rightarrow> (('s, 'm) cli_world_scheme, int) state" where
  "cmdConfigCheckConnectivity K L Op args =
     (case flag_parse (op_float Op) connectivity_flags args Map.empty of
        Inl e \<Rightarrow> return 2
      | Inr (vals, _) \<Rightarrow>
          let p = string_flag vals ''config'' (defaultConfigPath (op_CONFIG_FILE Op));
              username = string_flag vals ''user'' [];
              timeout = duration_flag vals ''timeout'' (10 * Second)
          in case Load (op_config Op) p of
               Inl err \<Rightarrow> do {
                 _ \<leftarrow> print_err (''config inv'' @ a_acute @ ''lida ('' @ p @ ''): '' @ Error err @ [newline]);
                 return 1
               }
             | Inr cfg \<Rightarrow> do {
                 mf \<leftarrow> check_users K L username timeout (cfg_Users cfg) False False;
                 if username \<noteq> [] \<and> \<not> fst mf then do {
                   _ \<leftarrow> print_err (''usuario '' @ op_quote Op username @ '' no existe en '' @ p @ [newline]);
                   return 2
                 } else if snd mf then return 1
                 else return 0
               })"

section \<open>Dispatch\<close>

definition runConfigCommand ::
  "'s ssh_lib \<Rightarrow> 's sftp_lib \<Rightarrow> operator_env \<Rightarrow> string list \<Rightarrow> (('s, 'm) cli_world_scheme, int) state" where
  "runConfigCommand K L Op args =
     (case args of
        [] \<Rightarrow> do { _ \<leftarrow> printConfigUsage; return 2 }
      | c # rest \<Rightarrow>
          if c = ''validate'' then cmdConfigValidate Op rest
          else if c = ''hash-password'' then cmdConfigHashPassword Op rest
          else if c = ''check-connectivity'' then cmdConfigCheckConnectivity K L Op rest
          else if c \<in> {''-h'', ''--help'', ''help''} then do { _ \<leftarrow> printConfigUsage; return 0 }
          else do {
            _ \<leftarrow> print_err (''ftp2sftp config: subcomando desconocido '' @ op_quote Op c @ [newline, newline]);
            _ \<leftarrow> printConfigUsage;
            return 2
          })"

text \<open>
  \<open>main\<close>: the exit code of the process for the arguments \<open>argv\<close>, with the program name
  first; an operator command starts from the console \<open>w\<close>.
\<close>

definition main ::
  "'s ssh_lib \<Rightarrow> 's sftp_lib \<Rightarrow> operator_env \<Rightarrow> 's run_env \<Rightarrow> 's cli_world \<Rightarrow> string list \<Rightarrow> int" where
  "main K L Op R w argv =
     (if length argv > 1 \<and> argv ! 1 = ''config'' then fst (run_state (runConfigCommand K L Op (drop 2 argv)) w)
      else fst (run R (tl argv)))"

section \<open>Theorems\<close>

lemma print_world:
  "run_state (print_out s) w = ((), w\<lparr>cli_stdout := cli_stdout w @ s\<rparr>)"
  "run_state (print_err s) w = ((), w\<lparr>cli_stderr := cli_stderr w @ s\<rparr>)"
  by (simp_all add: print_out_def print_err_def)

definition selected :: "string \<Rightarrow> UserConfig list \<Rightarrow> UserConfig list" where
  "selected username us = filter (\<lambda>u. username = [] \<or> uc_Username u = username) us"

lemma check_users_wire:
  assumes "run_state (check_users K L username t us m f) w = ((m', f'), w')"
  shows "\<exists>qs. wire w' = wire w @ qs \<and> list_all (probing (target_roots (selected username us))) qs
    \<and> (m' \<longleftrightarrow> m \<or> selected username us \<noteq> [])
    \<and> (\<not> f' \<longrightarrow> \<not> f \<and> (\<forall>p \<in> target_roots (selected username us). Stat p \<in> set qs))"
  using assms
proof (induction us arbitrary: m f w)
  case Nil
  then show ?case by (auto simp: target_roots_def selected_def)
next
  case (Cons u us)
  show ?case
  proof (cases "username \<noteq> [] \<and> uc_Username u \<noteq> username")
    case True
    then show ?thesis using Cons.IH [of m f w] Cons.prems by (auto simp: selected_def)
  next
    case False
    then have sel: "selected username (u # us) = u # selected username us" by (auto simp: selected_def)
    have sub: "{cleanRoot (st_RootPath (uc_SFTP u))} \<subseteq> target_roots (selected username (u # us))"
      "target_roots (selected username us) \<subseteq> target_roots (selected username (u # us))" by (auto simp: target_roots_def sel)
    obtain e w1 where e: "run_state (probeUserSFTP K L u t) w = (e, w1)" by fastforce
    obtain ps where ps: "wire w1 = wire w @ ps" "list_all (probing (target_roots (selected username (u # us)))) ps"
      "e = None \<Longrightarrow> Stat (cleanRoot (st_RootPath (uc_SFTP u))) \<in> set ps"
      by (rule probe_wire [OF e]) (use sub(1) in \<open>auto intro: list.pred_mono_strong probing_mono\<close>)
    have "\<exists>s. run_state (check_users K L username t us True (f \<or> e \<noteq> None)) (w1\<lparr>cli_stdout := s\<rparr>) = ((m', f'), w')"
      using Cons.prems False e by (cases e) (auto simp: print_world split: if_splits)
    then obtain w2 where w2: "wire w2 = wire w1" "run_state (check_users K L username t us True (f \<or> e \<noteq> None)) w2 = ((m', f'), w')"
    proof (elim exE)
      fix s assume "run_state (check_users K L username t us True (f \<or> e \<noteq> None)) (w1\<lparr>cli_stdout := s\<rparr>) = ((m', f'), w')"
      with that [of "w1\<lparr>cli_stdout := s\<rparr>"] show thesis by simp
    qed
    from Cons.IH [OF w2(2)] obtain qs where qs: "wire w' = wire w2 @ qs" "list_all (probing (target_roots (selected username us))) qs"
      "m'" "\<not> f' \<longrightarrow> \<not> (f \<or> e \<noteq> None) \<and> (\<forall>p \<in> target_roots (selected username us). Stat p \<in> set qs)" by blast
    moreover from qs(2) sub(2) have "list_all (probing (target_roots (selected username (u # us)))) qs"
      by (auto intro: list.pred_mono_strong probing_mono)
    ultimately show ?thesis using ps w2(1) sel by (intro exI [of _ "ps @ qs"]) (auto simp: target_roots_def)
  qed
qed



section \<open>A concrete operator\<close>

definition demo_operator :: operator_env where
  "demo_operator = \<lparr>op_config = sample_env, op_CONFIG_FILE = [], op_float = (\<lambda>f u s. 0), op_quote = id, op_IsTerminal = False,
     op_ReadString = (''secret'' @ [CHR 0x0D, newline], None), op_ReadPassword = (\<lambda>i. Inr []),
     op_GenerateFromPassword = (\<lambda>p. Inr (''$2a$'' @ p))\<rparr>"

definition demo_console :: "tree cli_world" where
  "demo_console = \<lparr>remote = remote demo_world, wire = [], cli_stdout = [], cli_stderr = []\<rparr>"



end
