(* ===== verification/Traffic.thy ===== *)
theory Traffic
  imports Isolation
begin

text \<open>
  The gateway under traffic: any number of connections that come, log in, run commands, start
  transfers and go, with the calls on the open transfer handles interleaved in any order with
  everything else. The FTP library keeps a driver per connection and runs a transfer beside the
  control connection, so a handle lives on its own: it may still be used after its connection has
  gone or has logged in as somebody else. A step is one call of the library into the gateway.

  The theorems are the promises of the single operations, kept by the whole: every request on the
  wire belongs to a configured user and stays inside that user's root and permissions, and the
  books are exact, so that no user ever has more transfers in progress than configured.
\<close>

section \<open>Steps\<close>

record ('s, 'm) traffic =
  tf_world :: "('s, 'm) gw_world_scheme"
  tf_drivers :: "nat \<Rightarrow> ('s, 'm) driver_session option"
  tf_handles :: "(('s, 'm) driver_session \<times> ('s, 'm) gw_world_scheme FileTransfer) list"

datatype handle_call = OnUpload upload_call | OnDownload download_call

text \<open>
  One call on a handle. The calls of the other direction (\<open>Read\<close> on an upload,
  \<open>Write\<close> on a download) return an error and change nothing.
\<close>

definition call_handle :: "(bytes \<Rightarrow> bytes) \<Rightarrow> handle_call \<Rightarrow> 'w FileTransfer \<Rightarrow> ('w, 'w FileTransfer) state" where
  "call_handle sha c ft =
     (case ft of
        UploadTransfer u \<Rightarrow>
          (case c of OnUpload x \<Rightarrow> do { u' \<leftarrow> upload_run sha [x] u; return (UploadTransfer u') } | OnDownload x \<Rightarrow> return ft)
      | DownloadTransfer d \<Rightarrow>
          (case c of OnDownload x \<Rightarrow> do { d' \<leftarrow> download_run sha [x] d; return (DownloadTransfer d') } | OnUpload x \<Rightarrow> return ft))"

fun is_transfer :: "ftp_command \<Rightarrow> bool" where
  "is_transfer (CmdTransfer n fl us ds) = True"
| "is_transfer c = False"

inductive traffic_step ::
  "(bytes \<Rightarrow> bytes) \<Rightarrow> 's ssh_lib \<Rightarrow> 's sftp_lib \<Rightarrow> Gateway \<Rightarrow> ('s, 'm) traffic \<Rightarrow> ('s, 'm) traffic \<Rightarrow> bool"
  for sha K L gw where
  connect: "run_state (ClientConnected gw cc addr) (tf_world t) = (r, w') \<Longrightarrow>
    traffic_step sha K L gw t (t\<lparr>tf_world := w'\<rparr>)"
| login_ok: "run_state (AuthUser K L gw E cc addr user pw) (tf_world t) = (Inr s, w') \<Longrightarrow>
    traffic_step sha K L gw t (t\<lparr>tf_world := w', tf_drivers := (tf_drivers t)(cc \<mapsto> s)\<rparr>)"
| login_failed: "run_state (AuthUser K L gw E cc addr user pw) (tf_world t) = (Inl e, w') \<Longrightarrow>
    traffic_step sha K L gw t (t\<lparr>tf_world := w'\<rparr>)"
| command: "tf_drivers t cc = Some s \<Longrightarrow> \<not> is_transfer c \<Longrightarrow> run_state (exec sha L gw s c) (tf_world t) = (x, w') \<Longrightarrow>
    traffic_step sha K L gw t (t\<lparr>tf_world := w'\<rparr>)"
| transfer_started: "tf_drivers t cc = Some s \<Longrightarrow> run_state (GetHandle L gw s n fl) (tf_world t) = (Inr ft, w') \<Longrightarrow>
    traffic_step sha K L gw t (t\<lparr>tf_world := w', tf_handles := tf_handles t @ [(s, ft)]\<rparr>)"
| transfer_refused: "tf_drivers t cc = Some s \<Longrightarrow> run_state (GetHandle L gw s n fl) (tf_world t) = (Inl e, w') \<Longrightarrow>
    traffic_step sha K L gw t (t\<lparr>tf_world := w'\<rparr>)"
| transfer_call: "i < length (tf_handles t) \<Longrightarrow> tf_handles t ! i = (s, ft) \<Longrightarrow>
    run_state (call_handle sha c ft) (tf_world t) = (ft', w') \<Longrightarrow>
    traffic_step sha K L gw t (t\<lparr>tf_world := w', tf_handles := (tf_handles t)[i := (s, ft')]\<rparr>)"
| disconnect: "run_state (ClientDisconnected L cc) (tf_world t) = (x, w') \<Longrightarrow>
    traffic_step sha K L gw t (t\<lparr>tf_world := w', tf_drivers := (tf_drivers t)(cc := None)\<rparr>)"
| closing: "run_state PrepareShutdown (tf_world t) = (x, w') \<Longrightarrow>
    traffic_step sha K L gw t (t\<lparr>tf_world := w'\<rparr>)"

definition no_traffic :: "('s, 'm) gw_world_scheme \<Rightarrow> ('s, 'm) traffic" where
  "no_traffic w = \<lparr>tf_world = w, tf_drivers = (\<lambda>_. None), tf_handles = []\<rparr>"

section \<open>Who a driver belongs to\<close>

definition session_of :: "'s ssh_lib \<Rightarrow> 's sftp_lib \<Rightarrow> Gateway \<Rightarrow> ('s, 'm) driver_session \<Rightarrow> bool" where
  "session_of K L gw s \<longleftrightarrow> (\<exists>u. gw_users gw (s_username s) = Some u \<and> s_connect s = connector K L u
     \<and> s_mapper s = ur_mapper u \<and> s_policy s = ur_policy u \<and> s_gate s = s_username s \<and> slash \<notin> set (s_id s))"

lemma session_ofE:
  assumes "session_of K L gw s"
  obtains u where "gw_users gw (s_username s) = Some u" and "s_connect s = connector K L u" and "s_mapper s = ur_mapper u"
    and "s_policy s = ur_policy u" and "s_gate s = s_username s" and "slash \<notin> set (s_id s)"
  using assms unfolding session_of_def by blast

lemma AuthUser_session_of:
  assumes "run_state (AuthUser K L gw E cc addr user pw) w = (Inr s, w')"
  shows "session_of K L gw s"
  by (rule AuthUser_Inr [OF assms]) (auto simp: session_of_def)

definition owners :: "('s, 'm) traffic \<Rightarrow> ('s, 'm) driver_session set" where
  "owners t = ran (tf_drivers t) \<union> fst ` set (tf_handles t)"

lemma owners_update:
  assumes "i < length hs" and "hs ! i = (s, ft)"
  shows "fst ` set (hs[i := (s, ft')]) = fst ` set hs"
proof -
  have "map fst (hs[i := (s, ft')]) = map fst hs" using assms by (simp add: map_update list_update_same_conv)
  then show ?thesis by (metis set_map)
qed

lemma owners_step:
  assumes "traffic_step sha K L gw t t'"
  shows "owners t' \<subseteq> owners t \<union> {s. session_of K L gw s}"
  using assms
proof (cases rule: traffic_step.cases)
  case (login_ok E cc addr user pw s w')
  then show ?thesis using AuthUser_session_of [OF login_ok(2)] by (auto simp: owners_def ran_def split: if_splits)
next
  case (transfer_call i s ft c ft' w')
  with owners_update [OF transfer_call(2,3)] show ?thesis by (simp add: owners_def)
qed (auto simp: owners_def ran_def split: if_splits)

lemma owners_reachable:
  assumes "(traffic_step sha K L gw)\<^sup>*\<^sup>* (no_traffic w0) t"
  shows "\<forall>s \<in> owners t. session_of K L gw s"
  using assms
proof (induction rule: rtranclp_induct)
  case base
  show ?case by (simp add: no_traffic_def owners_def)
next
  case (step t t')
  then show ?case using owners_step by blast
qed

text \<open>
  (C6) Every session in use is what the configuration says: in every reachable state, the session of
  each driver and of each transfer handle is that of a configured user, with the roots, permissions,
  gate and SFTP target of that user and no other, its mapper is well formed, and its identifier is
  usable in file names. It stays so for a transfer whose connection has gone or has logged in again
  as somebody else.
\<close>

theorem sessions_as_configured:
  assumes "New_Gateway cfg srv rand clk = Some (gw, w0)" and "(traffic_step sha K L gw)\<^sup>*\<^sup>* (no_traffic w0) t"
    and "s \<in> owners t"
  shows "\<exists>uc \<in> set (cfg_Users cfg). s_username s = uc_Username uc \<and> s_gate s = uc_Username uc
    \<and> s_mapper s = NewMapper (uc_VirtualRoot uc) (st_RootPath (uc_SFTP uc)) \<and> wf_mapper (s_mapper s)
    \<and> s_policy s = user_policy uc \<and> s_connect s = connector K L (user_runtime uc) \<and> slash \<notin> set (s_id s)"
proof -
  have "session_of K L gw s" using owners_reachable [OF assms(2)] assms(3) by blast
  then obtain u where u: "gw_users gw (s_username s) = Some u" and s: "s_connect s = connector K L u" "s_mapper s = ur_mapper u"
    "s_policy s = ur_policy u" "s_gate s = s_username s" "slash \<notin> set (s_id s)" by (rule session_ofE)
  obtain uc where uc: "uc \<in> set (cfg_Users cfg)" "uc_Username uc = s_username s" "u = user_runtime uc"
    by (rule New_Gateway_user [OF assms(1) u])
  show ?thesis by (rule bexI [OF _ uc(1)]) (use s uc in \<open>simp add: user_runtime_def\<close>)
qed

section \<open>Requests\<close>

text \<open>
  What a session may send: requests covered by its permissions, on paths inside its root. The one
  exception is the temporary file of an upload to the root itself, which lies beside the root.
\<close>

definition session_request :: "Gateway \<Rightarrow> 'c Session \<Rightarrow> request \<Rightarrow> bool" where
  "session_request gw s q \<longleftrightarrow> permitted (s_policy s) q
     \<and> (wf_driver gw s \<longrightarrow> confined (remoteRoot (s_mapper s)) q
          \<or> set (request_paths q) \<subseteq> {remoteRoot (s_mapper s), temp_of gw s (remoteRoot (s_mapper s))})"

interpretation serving: command_policy "session_request gw s" "\<lambda>r. True" gw s for gw s
proof unfold_locales
  fix r assume r: "resolves s r"
  show "AllowUpload (s_policy s) \<Longrightarrow>
      session_request gw s (OpenFile (temp_of gw s r) create_flags) \<and> session_request gw s (Lstat (temp_of gw s r))
      \<and> session_request gw s (ReadLink (temp_of gw s r)) \<and> session_request gw s (Remove (temp_of gw s r))
      \<and> session_request gw s (Rename (temp_of gw s r) r) \<and> session_request gw s (PosixRename (temp_of gw s r) r)"
    using resolved_facts [OF r, of gw]
    by (cases "r = remoteRoot (s_mapper s)") (auto simp: session_request_def confined_def)
qed (auto simp: session_request_def confined_def intro: resolved_facts)

definition handle_within :: "(request \<Rightarrow> bool) \<Rightarrow> ('s, 'm) gw_world_scheme FileTransfer \<Rightarrow> bool" where
  "handle_within P ft \<longleftrightarrow>
     (case ft of UploadTransfer u \<Rightarrow> upload_emits wire P u | DownloadTransfer d \<Rightarrow> download_emits wire P d)"

text \<open>What a call never changes of a handle, and when it closes it.\<close>

definition handle_parts where
  "handle_parts ft = (case ft of
     UploadTransfer u \<Rightarrow> Inl (u_fs u, u_file u, u_tempPath u, u_finalPath u, u_opts u)
   | DownloadTransfer d \<Rightarrow> Inr (d_file d, d_opts d))"

definition handle_closed :: "'w FileTransfer \<Rightarrow> bool" where
  "handle_closed ft = (case ft of UploadTransfer u \<Rightarrow> u_closed u | DownloadTransfer d \<Rightarrow> d_closed d)"

definition is_upload :: "'w FileTransfer \<Rightarrow> bool" where
  "is_upload ft = (case ft of UploadTransfer u \<Rightarrow> True | DownloadTransfer d \<Rightarrow> False)"

lemma upload_call_parts:
  assumes "run_state (upload_run sha [c] u) w = (u', w')"
  shows "handle_parts (UploadTransfer u') = handle_parts (UploadTransfer u)
    \<and> u_closed u' = (u_closed u \<or> c = CallClose)"
proof (cases c)
  case (CallWrite p)
  with assms obtain r where "run_state (Upload_Write u p) w = ((r, u'), w')" by (auto split: prod.splits)
  from Upload_Write_fields [OF this] CallWrite show ?thesis by (simp add: handle_parts_def)
next
  case CallClose
  with assms obtain r where "run_state (Upload_Close sha u) w = ((r, u'), w')" by (auto split: prod.splits)
  from Upload_Close_fields [OF this] CallClose show ?thesis by (simp add: handle_parts_def)
qed (use assms in \<open>auto simp: handle_parts_def\<close>)

lemma download_call_parts:
  assumes "run_state (download_run sha [c] d) w = (d', w')"
  shows "handle_parts (DownloadTransfer d') = handle_parts (DownloadTransfer d)
    \<and> d_closed d' = (d_closed d \<or> c = CallDownloadClose)"
proof (cases c)
  case (CallRead n)
  with assms obtain r where "run_state (Download_Read d n) w = ((r, d'), w')" by (auto split: prod.splits)
  from Download_Read_fields [OF this] CallRead show ?thesis by (simp add: handle_parts_def)
next
  case CallDownloadClose
  with assms obtain r where "run_state (Download_Close sha d) w = ((r, d'), w')" by (auto split: prod.splits)
  from Download_Close_fields [OF this] CallDownloadClose show ?thesis by (simp add: handle_parts_def)
qed (use assms in \<open>auto simp: handle_parts_def split: prod.splits\<close>)

lemma call_handle_parts:
  assumes "run_state (call_handle sha c ft) w = (ft', w')"
  shows "handle_parts ft' = handle_parts ft \<and> (handle_closed ft \<longrightarrow> handle_closed ft')"
proof (cases ft)
  case (UploadTransfer u)
  with assms show ?thesis
    by (cases c) (auto simp: call_handle_def handle_closed_def split: prod.splits dest!: upload_call_parts)
next
  case (DownloadTransfer d)
  with assms show ?thesis
    by (cases c) (auto simp: call_handle_def handle_closed_def split: prod.splits dest!: download_call_parts)
qed

lemma handle_within_parts: "handle_parts ft' = handle_parts ft \<Longrightarrow> handle_within P ft' = handle_within P ft"
  by (auto simp: handle_within_def handle_parts_def upload_emits_def download_emits_def split: FileTransfer.splits)

lemma call_handle_emits:
  assumes "handle_within P ft"
  shows "emits wire P (call_handle sha c ft)"
  using assms unfolding handle_within_def call_handle_def
  by (auto split: FileTransfer.splits handle_call.splits
      intro!: emits_bind emits_return emits_upload_run emits_download_run)

lemma GetHandle_handle_within:
  assumes "run_state (GetHandle L gw s n fl) w = (Inr ft, w')"
  shows "handle_within (session_request gw s) ft"
  using serving.GetHandle_handle [OF _ assms, of "[]" "[]"]
  by (simp add: handle_within_def targets_ok_def)

text \<open>
  The requests that a run of the gateway may have sent, in terms of its configuration: the end of
  a connection, or a request on behalf of some user, in some session.
\<close>

definition user_request :: "Gateway \<Rightarrow> request \<Rightarrow> bool" where
  "user_request gw q \<longleftrightarrow> q \<in> {CloseSFTP, CloseSSH}
     \<or> (\<exists>n u sid. gw_users gw n = Some u \<and> permitted (ur_policy u) q
          \<and> (confined (remoteRoot (ur_mapper u)) q
             \<or> set (request_paths q) \<subseteq> {remoteRoot (ur_mapper u),
                 TempPath (remoteRoot (ur_mapper u)) sid (tc_TemporarySuffix (cfg_Transfer (gw_cfg gw)))}))"

text \<open>A gateway whose mappers are built and whose temporary suffix has no slash.\<close>

definition wf_gateway :: "Gateway \<Rightarrow> bool" where
  "wf_gateway gw \<longleftrightarrow> (\<forall>n u. gw_users gw n = Some u \<longrightarrow> wf_mapper (ur_mapper u))
     \<and> slash \<notin> set (tc_TemporarySuffix (cfg_Transfer (gw_cfg gw)))"

lemma session_user_request:
  assumes "wf_gateway gw" and "session_of K L gw s" and "session_request gw s q"
  shows "user_request gw q"
proof -
  obtain u where u: "gw_users gw (s_username s) = Some u" "s_mapper s = ur_mapper u" "s_policy s = ur_policy u"
    "slash \<notin> set (s_id s)" using session_ofE [OF assms(2)] by metis
  with assms(1) have "wf_driver gw s" by (simp add: wf_driver_def wf_gateway_def)
  with assms(3) u show ?thesis by (auto simp: session_request_def user_request_def)
qed

definition within_inv :: "'s ssh_lib \<Rightarrow> 's sftp_lib \<Rightarrow> Gateway \<Rightarrow> ('s, 'm) traffic \<Rightarrow> bool" where
  "within_inv K L gw t \<longleftrightarrow> (\<forall>s \<in> owners t. session_of K L gw s)
     \<and> (\<forall>(s, ft) \<in> set (tf_handles t). handle_within (session_request gw s) ft)
     \<and> list_all (user_request gw) (wire (tf_world t))"

lemma owned_requests:
  assumes "wf_gateway gw" and "within_inv K L gw t" and "s \<in> owners t"
    and "emits wire (session_request gw s) m" and "run_state m (tf_world t) = (x, w')"
  shows "list_all (user_request gw) (wire w')"
proof -
  obtain qs where "wire w' = wire (tf_world t) @ qs" "list_all (session_request gw s) qs" using emitsE [OF assms(4,5)] .
  moreover have "session_of K L gw s" using assms(2,3) by (simp add: within_inv_def)
  ultimately show ?thesis
    using assms(2) session_user_request [OF assms(1), of K L s] by (auto simp: within_inv_def list_all_iff)
qed

lemma within_inv_driver:
  assumes "within_inv K L gw t" and "tf_drivers t cc = Some s"
  shows "s \<in> owners t" and "\<exists>u. s_connect s = connector K L u"
  using assms by (auto simp: within_inv_def owners_def ran_def session_of_def)

lemma command_requests:
  assumes "wf_gateway gw" and "plain_listings L" and "within_inv K L gw t" and "tf_drivers t cc = Some s"
    and "\<not> is_transfer c" and "run_state (exec sha L gw s c) (tf_world t) = (x, w')"
  shows "list_all (user_request gw) (wire w')"
proof -
  obtain u where u: "s_connect s = connector K L u" using within_inv_driver(2) [OF assms(3,4)] ..
  have "targets_ok (\<lambda>r. True) s c" using assms(5) by (cases c) (simp_all add: targets_ok_def)
  from owned_requests [OF assms(1,3) within_inv_driver(1) [OF assms(3,4)] serving.exec_within [OF u assms(2) this] assms(6)]
  show ?thesis .
qed

lemma GetHandle_requests:
  assumes "wf_gateway gw" and "within_inv K L gw t" and "tf_drivers t cc = Some s"
    and "run_state (GetHandle L gw s n fl) (tf_world t) = (h, w')"
  shows "list_all (user_request gw) (wire w')"
proof -
  obtain u where "s_connect s = connector K L u" using within_inv_driver(2) [OF assms(2,3)] ..
  from serving.GetHandle_within [OF this, of n fl "[]" "[]"]
  have "emits wire (session_request gw s) (GetHandle L gw s n fl)" by (simp add: targets_ok_def)
  from owned_requests [OF assms(1,2) within_inv_driver(1) [OF assms(2,3)] this assms(4)] show ?thesis .
qed

lemma call_requests:
  assumes "wf_gateway gw" and "within_inv K L gw t" and "i < length (tf_handles t)" and "tf_handles t ! i = (s, ft)"
    and "run_state (call_handle sha c ft) (tf_world t) = (ft', w')"
  shows "list_all (user_request gw) (wire w')"
    and "\<forall>(s, ft) \<in> set ((tf_handles t)[i := (s, ft')]). handle_within (session_request gw s) ft"
proof -
  from assms(3,4) have m: "(s, ft) \<in> set (tf_handles t)" by (metis nth_mem)
  then have so: "s \<in> owners t" by (force simp: owners_def)
  from m assms(2) have ft: "handle_within (session_request gw s) ft" by (auto simp: within_inv_def)
  show "list_all (user_request gw) (wire w')" using owned_requests [OF assms(1,2) so call_handle_emits [OF ft] assms(5)] .
  have "handle_within (session_request gw s) ft'" using handle_within_parts call_handle_parts [OF assms(5)] ft by blast
  moreover have "set ((tf_handles t)[i := (s, ft')]) \<subseteq> insert (s, ft') (set (tf_handles t))" by (rule set_update_subset_insert)
  ultimately show "\<forall>(s, ft) \<in> set ((tf_handles t)[i := (s, ft')]). handle_within (session_request gw s) ft"
    using assms(2) by (auto simp: within_inv_def)
qed

lemma quiet_callbacks_wire: "keeps wire (ClientConnected gw cc addr)" "keeps wire PrepareShutdown"
  "keeps wire (AuthUser K L gw E cc addr user pw)"
proof -
  show "keeps wire (ClientConnected gw cc addr)"
    unfolding ClientConnected_def count_def emit_log_def Let_def by (intro keeps_basic keeps_modify) simp_all
  show "keeps wire PrepareShutdown" unfolding PrepareShutdown_def by (rule keeps_modify) simp
  have a: "keeps wire (gw_Authenticate E ip u p)" for ip u p by (rule keepsI) (auto simp: run_gw_Authenticate)
  show "keeps wire (AuthUser K L gw E cc addr user pw)"
    unfolding AuthUser_def New_Session_def draw_id_def count_def emit_log_def Let_def
    by (intro keeps_basic keeps_modify a) (auto split: option.split)
qed

lemma ClientDisconnected_wire: "emits wire (\<lambda>q. q \<in> {CloseSFTP, CloseSSH}) (ClientDisconnected L cc)"
  unfolding ClientDisconnected_def by (intro emits_rules) simp_all

lemma disconnect_requests:
  assumes "list_all (user_request gw) (wire w)" and "run_state (ClientDisconnected L cc) w = (x, w')"
  shows "list_all (user_request gw) (wire w')"
proof -
  obtain qs where "wire w' = wire w @ qs" "list_all (\<lambda>q. q \<in> {CloseSFTP, CloseSSH}) qs"
    using emitsE [OF ClientDisconnected_wire assms(2)] .
  with assms(1) show ?thesis by (auto simp: list_all_iff user_request_def)
qed

lemma within_inv_step:
  assumes "wf_gateway gw" and "plain_listings L" and "traffic_step sha K L gw t t'" and inv: "within_inv K L gw t"
  shows "within_inv K L gw t'"
proof -
  have own: "\<forall>s \<in> owners t'. session_of K L gw s"
    using owners_step [OF assms(3)] inv by (auto simp: within_inv_def)
  have wire: "list_all (user_request gw) (wire (tf_world t))"
    and hs: "\<forall>(s, ft) \<in> set (tf_handles t). handle_within (session_request gw s) ft"
    using inv by (simp_all add: within_inv_def)
  from assms(3) show ?thesis
  proof (cases rule: traffic_step.cases)
    case connect
    with own hs wire keepsD [OF quiet_callbacks_wire(1) connect(2)] show ?thesis by (simp add: within_inv_def)
  next
    case login_ok
    with own hs wire keepsD [OF quiet_callbacks_wire(3) login_ok(2)] show ?thesis by (simp add: within_inv_def)
  next
    case login_failed
    with own hs wire keepsD [OF quiet_callbacks_wire(3) login_failed(2)] show ?thesis by (simp add: within_inv_def)
  next
    case command
    with own hs command_requests [OF assms(1,2) inv command(2-4)] show ?thesis by (simp add: within_inv_def)
  next
    case transfer_started
    with own hs GetHandle_requests [OF assms(1) inv transfer_started(2,3)] GetHandle_handle_within [OF transfer_started(3)]
    show ?thesis by (simp add: within_inv_def)
  next
    case transfer_refused
    with own hs GetHandle_requests [OF assms(1) inv transfer_refused(2,3)] show ?thesis by (simp add: within_inv_def)
  next
    case transfer_call
    with own call_requests [OF assms(1) inv transfer_call(2-4)] show ?thesis by (simp add: within_inv_def)
  next
    case disconnect
    with own hs disconnect_requests [OF wire disconnect(2)] show ?thesis by (simp add: within_inv_def)
  next
    case closing
    with own hs wire keepsD [OF quiet_callbacks_wire(2) closing(2)] show ?thesis by (simp add: within_inv_def)
  qed
qed

lemma New_Gateway_wf:
  assumes "New_Gateway cfg srv rand clk = Some (gw, w0)" and "slash \<notin> set (tc_TemporarySuffix (cfg_Transfer cfg))"
  shows "wf_gateway gw" and "within_inv K L gw (no_traffic w0)"
proof -
  have "wf_mapper (ur_mapper u)" if "gw_users gw n = Some u" for n u
    by (rule New_Gateway_user [OF assms(1) that]) (simp add: user_runtime_def)
  moreover have "gw_cfg gw = cfg" "wire w0 = []" using assms(1) by (auto simp: New_Gateway_def split: option.splits prod.splits)
  ultimately show "wf_gateway gw" "within_inv K L gw (no_traffic w0)"
    using assms(2) by (auto simp: wf_gateway_def within_inv_def no_traffic_def owners_def)
qed

lemma within_inv_reachable:
  assumes "wf_gateway gw" and "plain_listings L" and "(traffic_step sha K L gw)\<^sup>*\<^sup>* t t'" and "within_inv K L gw t"
  shows "within_inv K L gw t'"
  using assms(3,4) by (induction rule: rtranclp_induct) (blast intro: within_inv_step [OF assms(1,2)])+

text \<open>
  (C1) Confinement of the whole gateway under any traffic: whatever clients connect, log in, do and
  transfer, interleaved in any way, every request that ever reached an SFTP server is the end of a
  connection or belongs to a configured user, is covered by a permission of that user, and names
  only paths inside the root configured for that user. The one exception, which the code does not
  exclude, is stated exactly: an upload to the root itself, whose temporary file is beside the root.
\<close>

theorem traffic_confined:
  assumes "New_Gateway cfg srv rand clk = Some (gw, w0)" and "slash \<notin> set (tc_TemporarySuffix (cfg_Transfer cfg))"
    and "plain_listings L" and "(traffic_step sha K L gw)\<^sup>*\<^sup>* (no_traffic w0) t" and "q \<in> set (wire (tf_world t))"
  shows "q \<in> {CloseSFTP, CloseSSH}
    \<or> (\<exists>uc \<in> set (cfg_Users cfg). \<exists>sid. permitted (user_policy uc) q
         \<and> (confined (cleanRoot (st_RootPath (uc_SFTP uc))) q
            \<or> set (request_paths q) \<subseteq> {cleanRoot (st_RootPath (uc_SFTP uc)),
                TempPath (cleanRoot (st_RootPath (uc_SFTP uc))) sid (tc_TemporarySuffix (cfg_Transfer cfg))}))"
proof -
  have "within_inv K L gw t"
    using within_inv_reachable [OF New_Gateway_wf(1) [OF assms(1,2)] assms(3,4) New_Gateway_wf(2) [OF assms(1,2)]] .
  with assms(5) have "user_request gw q" by (auto simp: within_inv_def list_all_iff)
  moreover have "\<exists>uc \<in> set (cfg_Users cfg). u = user_runtime uc \<and> gw_cfg gw = cfg" if "gw_users gw n = Some u" for n u
    by (rule New_Gateway_user [OF assms(1) that]) auto
  ultimately show ?thesis by (fastforce simp: user_request_def user_runtime_def)
qed

section \<open>A concrete run\<close>

text \<open>What a successful login returns and leaves behind, on a connection without state of its own.\<close>

lemma AuthUser_run:
  assumes "gw_users gw user = Some u" and "extra w cc = None"
    and "Authenticate (ae_bcrypt E) (ae_dummyHash E) (ae_clock E) (hostOnly addr) user pw (authent w) = (None, a)"
    and "NewCorrelationID (entropy w (draws w)) (nanos w (draws w)) (fallbackCounter w) = (sid, fc)"
  shows "\<exists>m l. run_state (AuthUser K L gw E cc addr user pw) w =
    (Inr \<lparr>s_ref = next_sess w, s_id = sid, s_username = user, s_clientIP = hostOnly addr, s_startedAt = ae_now E,
       s_mapper = ur_mapper u, s_policy = ur_policy u, s_gate = user, s_connect = connector K L u\<rparr>,
     w\<lparr>metrics := m, authent := a, draws := Suc (draws w), fallbackCounter := fc, next_sess := Suc (next_sess w),
       sess_slots := (sess_slots w)(next_sess w := \<lparr>slot_sftp = None, slot_closed = False\<rparr>),
       sessions := sessions w + 1, path := (path w)(cc := virtualRoot (ur_mapper u)), log := l\<rparr>)"
  apply (rule exI [of _ "(metrics w)\<lparr>FTPCommandsTotal := Inc (FTPCommandsTotal (metrics w)),
    FTPAuthAttemptsTotal := Inc (FTPAuthAttemptsTotal (metrics w))\<rparr>"], rule exI)
  using assms
  by (simp add: AuthUser_def New_Session_def draw_id_def run_gw_Authenticate Let_def)

text \<open>The fresh sample gateway, its state after the login of the sample user, and an upload it then starts.\<close>

definition demo_start_world :: "tree gw_world" where
  "demo_start_world = \<lparr>remote = empty_tree, wire = [], sess_slots = (\<lambda>_. \<lparr>slot_sftp = None, slot_closed = False\<rparr>), next_sess = 0,
     metrics = NewMetrics, log = [], gates = (\<lambda>_. \<lparr>capacity = 0, slots = 0\<rparr>)(''ax'' := \<lparr>capacity = 4, slots = 0\<rparr>),
     released = (\<lambda>_. False), next_release = 0,
     authent = NewAuthenticator (NewStore [\<lparr>Username = ''ax'', PasswordHash = ''$2a$hash''\<rparr>])
       (NewLimiter authMaxFailures authWindow authLockout) (NewLimiter authMaxFailures authWindow authLockout),
     activeConnections = 0, shuttingDown = False, sessions = 0, conns = [], extra = (\<lambda>_. None),
     path = (\<lambda>_. []), entropy = (\<lambda>_. Some [0, 1, 2, 3, 4, 5, 6, 7]), nanos = (\<lambda>_. 0), draws = 0, fallbackCounter = 0\<rparr>"

lemma demo_built_world: "the demo_built = (demo_gateway, demo_start_world)"
proof -
  have "NewConcurrencyGate (uc_MaxConcurrentTransfers (default_user sample_user)) = Some \<lparr>capacity = 4, slots = 0\<rparr>"
    "uc_Username (default_user sample_user) = ''ax''" "uc_PasswordHash (default_user sample_user) = ''$2a$hash''" by code_simp+
  then show ?thesis
    by (simp add: demo_gateway_def demo_built_def New_Gateway_def demo_cfg_def applyDefaults_def sample_config_def demo_start_world_def)
qed

definition demo_user_session :: "(tree, unit) driver_session" where
  "demo_user_session = (let u = the (gw_users demo_gateway ''ax'') in
     \<lparr>s_ref = 0, s_id = ''0001020304050607'', s_username = ''ax'', s_clientIP = ''10.0.0.9'', s_startedAt = ae_now demo_env,
       s_mapper = ur_mapper u, s_policy = ur_policy u, s_gate = ''ax'', s_connect = connector accepting_lib tree_lib u\<rparr>)"

definition demo_login_world :: "Metrics \<Rightarrow> log_record list \<Rightarrow> Authenticator \<Rightarrow> (nat \<Rightarrow> string) \<Rightarrow> tree gw_world" where
  "demo_login_world m l a p = demo_start_world\<lparr>metrics := m, authent := a, draws := 1, fallbackCounter := 0, next_sess := 1,
     sess_slots := (sess_slots demo_start_world)(0 := \<lparr>slot_sftp = None, slot_closed = False\<rparr>), sessions := 1, path := p, log := l\<rparr>"

lemma demo_login:
  obtains m l a p where "run_state demo_AuthUser demo_start_world = (Inr demo_user_session, demo_login_world m l a p)"
proof -
  have h: "hostOnly ''10.0.0.9:4000'' = ''10.0.0.9''" by code_simp
  have "\<not> Option.is_none (gw_users demo_gateway ''ax'')" by code_simp
  then have u: "gw_users demo_gateway ''ax'' = Some (the (gw_users demo_gateway ''ax''))" by (auto simp: Option.is_none_def)
  have "fst (demo_Authenticate (authent demo_start_world)) = None" by code_simp
  then obtain a where a: "demo_Authenticate (authent demo_start_world) = (None, a)" by (metis prod.collapse)
  have i: "NewCorrelationID (entropy demo_start_world 0) (nanos demo_start_world 0) 0 = (''0001020304050607'', 0)" by code_simp
  have w: "extra demo_start_world 1 = None" "draws demo_start_world = 0" "fallbackCounter demo_start_world = 0"
    "next_sess demo_start_world = 0" "sessions demo_start_world = 0" by (simp_all add: demo_start_world_def)
  show thesis
    using AuthUser_run [OF u w(1), of demo_env "''10.0.0.9:4000''" "''$2a$hash''" a "''0001020304050607''" 0 accepting_lib tree_lib] a i that
    by (auto simp: h w demo_Authenticate_def demo_user_session_def demo_login_world_def Let_def)
qed

lemma demo_upload_starts:
  "case run_state (GetHandle tree_lib demo_gateway demo_user_session ''/a.xml'' 1) (demo_login_world m l a p) of
     (Inr ft, w) \<Rightarrow> is_upload ft \<and> \<not> handle_closed ft \<and> slot_sftp (sess_slots w 0) \<noteq> None
       \<and> OpenFile ''/data/a.xml.part-0001020304050607'' create_flags \<in> set (wire w)
   | _ \<Rightarrow> False"
  by code_simp

lemma demo_uploading:
  obtains t ft where "(traffic_step id accepting_lib tree_lib demo_gateway)\<^sup>*\<^sup>* (no_traffic (snd (the demo_built))) t"
    and "tf_handles t = [(demo_user_session, ft)]" and "is_upload ft" and "\<not> handle_closed ft"
    and "slot_sftp (sess_slots (tf_world t) 0) \<noteq> None"
    and "OpenFile ''/data/a.xml.part-0001020304050607'' create_flags \<in> set (wire (tf_world t))"
proof -
  obtain m l a p where login: "run_state demo_AuthUser demo_start_world = (Inr demo_user_session, demo_login_world m l a p)"
    by (rule demo_login)
  obtain ft w where up: "run_state (GetHandle tree_lib demo_gateway demo_user_session ''/a.xml'' 1) (demo_login_world m l a p) = (Inr ft, w)"
    "is_upload ft" "\<not> handle_closed ft" "slot_sftp (sess_slots w 0) \<noteq> None"
    "OpenFile ''/data/a.xml.part-0001020304050607'' create_flags \<in> set (wire w)"
    using demo_upload_starts [of m l a p] by (auto split: prod.splits sum.splits)
  define t where "t = \<lparr>tf_world = demo_login_world m l a p, tf_drivers = [1 \<mapsto> demo_user_session], tf_handles = []\<rparr>"
  have "traffic_step id accepting_lib tree_lib demo_gateway (no_traffic demo_start_world) t"
    using login_ok [of accepting_lib tree_lib demo_gateway demo_env 1 "''10.0.0.9:4000''" "''ax''" "''$2a$hash''"
      "no_traffic demo_start_world" demo_user_session "demo_login_world m l a p" id] login
    by (simp add: no_traffic_def t_def)
  moreover have "traffic_step id accepting_lib tree_lib demo_gateway t (t\<lparr>tf_world := w, tf_handles := [(demo_user_session, ft)]\<rparr>)"
    using transfer_started [of t 1 demo_user_session tree_lib demo_gateway "''/a.xml''" 1 ft w id accepting_lib] up(1) by (simp add: t_def)
  ultimately have "(traffic_step id accepting_lib tree_lib demo_gateway)\<^sup>*\<^sup>* (no_traffic (snd (the demo_built)))
    (t\<lparr>tf_world := w, tf_handles := [(demo_user_session, ft)]\<rparr>)" by (simp add: demo_built_world)
  then show thesis by (rule that) (use up(2-) in simp_all)
qed

theorem traffic_confined_witness:
  "\<exists>t. (traffic_step id accepting_lib tree_lib demo_gateway)\<^sup>*\<^sup>* (no_traffic (snd (the demo_built))) t
    \<and> (\<exists>q \<in> set (wire (tf_world t)). q = OpenFile ''/data/a.xml.part-0001020304050607'' create_flags
         \<and> (\<exists>uc \<in> set (cfg_Users demo_cfg). \<exists>sid. permitted (user_policy uc) q
             \<and> (confined (cleanRoot (st_RootPath (uc_SFTP uc))) q
                \<or> set (request_paths q) \<subseteq> {cleanRoot (st_RootPath (uc_SFTP uc)),
                    TempPath (cleanRoot (st_RootPath (uc_SFTP uc))) sid (tc_TemporarySuffix (cfg_Transfer demo_cfg))})))"
proof -
  have s: "slash \<notin> set (tc_TemporarySuffix (cfg_Transfer demo_cfg))" by code_simp
  obtain t where t: "(traffic_step id accepting_lib tree_lib demo_gateway)\<^sup>*\<^sup>* (no_traffic (snd (the demo_built))) t"
    "OpenFile ''/data/a.xml.part-0001020304050607'' create_flags \<in> set (wire (tf_world t))"
    using demo_uploading by metis
  from traffic_confined [OF demo_built_Some s tree_plain_listings t] t show ?thesis by blast
qed

theorem sessions_as_configured_witness:
  "\<exists>t. (traffic_step id accepting_lib tree_lib demo_gateway)\<^sup>*\<^sup>* (no_traffic (snd (the demo_built))) t
    \<and> demo_user_session \<in> owners t
    \<and> (\<exists>uc \<in> set (cfg_Users demo_cfg). s_mapper demo_user_session = NewMapper (uc_VirtualRoot uc) (st_RootPath (uc_SFTP uc)))"
proof -
  obtain t ft where t: "(traffic_step id accepting_lib tree_lib demo_gateway)\<^sup>*\<^sup>* (no_traffic (snd (the demo_built))) t"
    and "tf_handles t = [(demo_user_session, ft)]" by (rule demo_uploading)
  then have o: "demo_user_session \<in> owners t" by (simp add: owners_def)
  from sessions_as_configured [OF demo_built_Some t o] t o show ?thesis by blast
qed

end
