(* ===== verification/TrafficBooks.thy ===== *)
theory TrafficBooks
  imports Traffic
begin

text \<open>
  The books of a gateway under traffic. The first part is the ledger of transfers: the gates of the
  users and the gauges of active transfers and pending temporary files agree, at every moment of
  every run, with the handles that are open. The second is the gauge of SFTP connections, which
  agrees with the sessions that hold one.
\<close>

section \<open>What the other operations leave alone\<close>

lemma keeps_books_slot: "keeps books (set_slot s f)"
  unfolding set_slot_def by (rule keeps_modify) (simp add: books_def)

lemma keeps_books_Close: "keeps books (Session_Close L s)"
  unfolding Session_Close_def by (intro keeps_basic keeps_books_slot bookkeeping.o_close)

lemma keeps_books_invalidate: "keeps books (maybeInvalidate L s e)"
  unfolding maybeInvalidate_def IsConnected_def InvalidateSFTP_def count_def Let_def
  by (intro keeps_basic keeps_books_slot bookkeeping.o_close keeps_modify) (simp add: books_def)

lemma keeps_books_methods:
  assumes "s_connect s = connector K L u"
  shows "keeps books (driver_Stat L s n)" "keeps books (driver_Mkdir L s n)" "keeps books (driver_Remove L s n)"
    "keeps books (driver_RemoveDir L s n)" "keeps books (driver_Rename L s n n')" "keeps books (driver_ReadDir L gw s n)"
  unfolding driver_Stat_def driver_Mkdir_def driver_Remove_def driver_RemoveDir_def driver_Rename_def driver_ReadDir_def
  by (intro bookkeeping.o_flow keeps_books_sftp [OF assms] bookkeeping.o_ops bookkeeping.o_ReadDir keeps_books_invalidate)+

lemma keeps_books_exec:
  assumes "s_connect s = connector K L u" and "\<not> is_transfer c"
  shows "keeps books (exec sha L gw s c)"
  using assms by (cases c) (auto intro!: keeps_basic keeps_books_methods [OF assms(1)])

lemma keeps_books_callbacks:
  "keeps books (ClientConnected gw cc addr)" "keeps books PrepareShutdown"
  "keeps books (AuthUser K L gw E cc addr user pw)" "keeps books (ClientDisconnected L cc)"
proof -
  show "keeps books (ClientConnected gw cc addr)"
    unfolding ClientConnected_def count_def Let_def by (intro keeps_basic keeps_modify bookkeeping.o_log) (simp_all add: books_def)
  show "keeps books PrepareShutdown" unfolding PrepareShutdown_def by (rule keeps_modify) (simp add: books_def)
  have a: "keeps books (gw_Authenticate E ip u p)" for ip u p by (rule keepsI) (auto simp: run_gw_Authenticate books_def)
  show "keeps books (AuthUser K L gw E cc addr user pw)"
    unfolding AuthUser_def New_Session_def count_def Let_def
    by (intro keeps_basic keeps_modify a bookkeeping.o_log bookkeeping.o_draw) (auto simp: books_def split: option.split)
  show "keeps books (ClientDisconnected L cc)"
    unfolding ClientDisconnected_def IsConnected_def count_def
    by (intro keeps_basic keeps_modify keeps_books_Close bookkeeping.o_log) (simp_all add: books_def)
qed

section \<open>The ledger of transfers\<close>

definition handle_ledger :: "'c Session \<Rightarrow> nat \<Rightarrow> ('s, 'm) gw_world_scheme FileTransfer \<Rightarrow> bool" where
  "handle_ledger s i ft = (case ft of
     UploadTransfer u \<Rightarrow> upload_ledger books (book_completed True) (book_released (s_gate s) i) u
   | DownloadTransfer d \<Rightarrow> download_ledger books (book_completed False) (book_released (s_gate s) i) d)"

lemma handle_ledger_parts: "handle_parts ft' = handle_parts ft \<Longrightarrow> handle_ledger s i ft' = handle_ledger s i ft"
  by (auto simp: handle_ledger_def handle_parts_def upload_ledger_def download_ledger_def split: FileTransfer.splits)

lemma call_handle_books:
  assumes "handle_ledger s i ft" and "run_state (call_handle sha c ft) w = (ft', w')"
  shows "books w' = (if handle_closed ft' \<and> \<not> handle_closed ft
      then book_released (s_gate s) i (book_completed (is_upload ft) (books w)) else books w)
    \<and> is_upload ft' = is_upload ft"
proof (cases ft)
  case (UploadTransfer u)
  show ?thesis
  proof (cases c)
    case (OnUpload x)
    then obtain u' where r: "run_state (upload_run sha [x] u) w = (u', w')" "ft' = UploadTransfer u'"
      using assms(2) UploadTransfer by (auto simp: call_handle_def split: prod.splits)
    with upload_run_acts [OF _ r(1)] upload_call_parts [OF r(1)] assms(1) UploadTransfer show ?thesis
      by (auto simp: handle_ledger_def handle_closed_def is_upload_def)
  next
    case (OnDownload x)
    with assms(2) UploadTransfer show ?thesis by (simp add: call_handle_def)
  qed
next
  case (DownloadTransfer d)
  show ?thesis
  proof (cases c)
    case (OnDownload x)
    then obtain d' where r: "run_state (download_run sha [x] d) w = (d', w')" "ft' = DownloadTransfer d'"
      using assms(2) DownloadTransfer by (auto simp: call_handle_def split: prod.splits)
    with download_run_acts [OF _ r(1)] download_call_parts [OF r(1)] assms(1) DownloadTransfer show ?thesis
      by (auto simp: handle_ledger_def handle_closed_def is_upload_def)
  next
    case (OnUpload x)
    with assms(2) DownloadTransfer show ?thesis by (simp add: call_handle_def)
  qed
qed

lemma GetHandle_ledger:
  assumes "s_connect s = connector K L u" and "run_state (GetHandle L gw s n fl) w = (h, w')"
  shows "case h of Inl e \<Rightarrow> settled w w'
    | Inr ft \<Rightarrow> \<not> handle_closed ft \<and> fst (TryAcquire (gates w (s_gate s)))
        \<and> books w' = book_admitted (is_upload ft) (s_gate s) (next_release w) (books w)
        \<and> handle_ledger s (next_release w) ft"
  using assms
proof (cases rule: GetHandle_cases)
  case (early e)
  then show ?thesis by simp
next
  case (up sc v r w1 res)
  then have "gates w1 = gates w" "next_release w1 = next_release w" by (simp_all add: books_def)
  with up beginUpload_books [OF up(2)] show ?thesis
    by (auto simp: settled_def books_def open_books_def handle_closed_def is_upload_def handle_ledger_def split: sum.splits)
next
  case (down sc v r w1 res)
  then have "gates w1 = gates w" "next_release w1 = next_release w" by (simp_all add: books_def)
  with down beginDownload_books [OF down(2)] show ?thesis
    by (auto simp: settled_def books_def open_books_def handle_closed_def is_upload_def handle_ledger_def split: sum.splits)
qed

section \<open>Counting open handles\<close>

abbreviation tally :: "('a \<Rightarrow> bool) \<Rightarrow> 'a list \<Rightarrow> nat" where
  "tally P xs \<equiv> length (filter P xs)"

lemma tally_update:
  "j < length xs \<Longrightarrow> tally P (xs[j := y]) + of_bool (P (xs ! j)) = tally P xs + of_bool (P y)"
proof (induction xs arbitrary: j)
  case (Cons x xs)
  then show ?case by (cases j) auto
qed simp

definition holds :: "string \<Rightarrow> 'c Session \<times> 'w FileTransfer \<Rightarrow> bool" where
  "holds k = (\<lambda>(s, ft). s_gate s = k \<and> \<not> handle_closed ft)"

definition in_progress :: "'c Session \<times> 'w FileTransfer \<Rightarrow> bool" where
  "in_progress = (\<lambda>(s, ft). \<not> handle_closed ft)"

definition uploading :: "'c Session \<times> 'w FileTransfer \<Rightarrow> bool" where
  "uploading = (\<lambda>(s, ft). \<not> handle_closed ft \<and> is_upload ft)"

text \<open>
  The books agree with the handles: each gate counts the open handles of its user and has room for
  them, the gauges count all open handles and the open uploads, and every handle has a release
  flag of its own that says whether it is closed.
\<close>

definition flagged :: "nat \<Rightarrow> (nat \<Rightarrow> bool) \<Rightarrow> nat \<Rightarrow> 'c Session \<times> ('s, 'm) gw_world_scheme FileTransfer \<Rightarrow> bool" where
  "flagged nr rl i = (\<lambda>(s, ft). handle_ledger s i ft \<and> i < nr \<and> rl i = handle_closed ft)"

definition flags_ok :: "nat \<Rightarrow> (nat \<Rightarrow> bool) \<Rightarrow> ('c Session \<times> ('s, 'm) gw_world_scheme FileTransfer) list \<Rightarrow> bool" where
  "flags_ok nr rl hs \<longleftrightarrow> (\<exists>rs. distinct rs \<and> list_all2 (flagged nr rl) rs hs)"

definition counts_ok ::
  "(string \<Rightarrow> ConcurrencyGate) \<Rightarrow> (string \<Rightarrow> ConcurrencyGate) \<Rightarrow> Gauge \<Rightarrow> Gauge
     \<Rightarrow> ('c Session \<times> 'w FileTransfer) list \<Rightarrow> bool" where
  "counts_ok g0 g ta tf hs \<longleftrightarrow>
     (\<forall>k. g k = \<lparr>capacity = capacity (g0 k), slots = tally (holds k) hs\<rparr> \<and> tally (holds k) hs \<le> capacity (g0 k))
     \<and> ta = of_nat (tally in_progress hs) \<and> tf = of_nat (tally uploading hs)"

definition ledger_ok ::
  "(string \<Rightarrow> ConcurrencyGate) \<Rightarrow> ledger \<Rightarrow> ('c Session \<times> ('s, 'm) gw_world_scheme FileTransfer) list \<Rightarrow> bool" where
  "ledger_ok g0 b hs = (case b of (g, ta, tf, rl, nr) \<Rightarrow> counts_ok g0 g ta tf hs \<and> flags_ok nr rl hs)"

lemma ledger_ok_books:
  "ledger_ok g0 (books w) hs \<longleftrightarrow>
     counts_ok g0 (gates w) (TransferActive (metrics w)) (TemporaryFilesPending (metrics w)) hs
     \<and> flags_ok (next_release w) (released w) hs"
  by (simp add: ledger_ok_def books_def)

lemma ledger_ok_settled:
  assumes "settled w w'" and "ledger_ok g0 (books w) hs"
  shows "ledger_ok g0 (books w') hs"
proof -
  obtain rs where rs: "distinct rs" "list_all2 (flagged (next_release w) (released w)) rs hs"
    using assms(2) by (auto simp: ledger_ok_books flags_ok_def)
  from rs(2) have "list_all2 (flagged (next_release w') (released w')) rs hs"
    by (rule list_all2_mono) (use assms(1) in \<open>auto simp: settled_def flagged_def\<close>)
  with rs(1) have "flags_ok (next_release w') (released w') hs" by (auto simp: flags_ok_def)
  with assms show ?thesis by (simp add: ledger_ok_books settled_def open_books_def)
qed

lemma flags_ok_started:
  assumes "flags_ok nr rl hs" and "handle_ledger s nr ft" and "\<not> handle_closed ft"
  shows "flags_ok (Suc nr) (rl(nr := False)) (hs @ [(s, ft)])"
proof -
  obtain rs where rs: "distinct rs" "list_all2 (flagged nr rl) rs hs"
    using assms(1) by (auto simp: flags_ok_def)
  have "i < nr" if "i \<in> set rs" for i
    using list_all2_nthD [OF rs(2)] that by (auto simp: in_set_conv_nth flagged_def split: prod.splits)
  then have d: "distinct (rs @ [nr])" using rs(1) by auto
  from rs(2) have "list_all2 (flagged (Suc nr) (rl(nr := False))) rs hs"
    by (rule list_all2_mono) (auto simp: flagged_def)
  then have "list_all2 (flagged (Suc nr) (rl(nr := False))) (rs @ [nr]) (hs @ [(s, ft)])"
    using assms(2,3) by (intro list_all2_appendI) (simp_all add: flagged_def)
  with d show ?thesis unfolding flags_ok_def by blast
qed

lemma counts_ok_started:
  assumes "counts_ok g0 g ta tf hs" and "fst (TryAcquire (g (s_gate s)))" and "\<not> handle_closed ft"
  shows "counts_ok g0 (g(s_gate s := snd (TryAcquire (g (s_gate s))))) (Inc ta) (if is_upload ft then Inc tf else tf) (hs @ [(s, ft)])"
  using assms
  by (auto simp: counts_ok_def TryAcquire_def Inc_def holds_def in_progress_def uploading_def split: if_splits)

lemma ledger_ok_started:
  assumes "fst (TryAcquire (gates w (s_gate s)))" and "handle_ledger s (next_release w) ft" and "\<not> handle_closed ft"
    and "books w' = book_admitted (is_upload ft) (s_gate s) (next_release w) (books w)" and "ledger_ok g0 (books w) hs"
  shows "ledger_ok g0 (books w') (hs @ [(s, ft)])"
  using assms(4,5) flags_ok_started [OF _ assms(2,3)] counts_ok_started [where g = "gates w", OF _ assms(1,3)]
  by (simp add: ledger_ok_def books_def book_admitted_def)

lemma distinct_flags:
  assumes "distinct rs" and "list_all2 (flagged nr rl) rs hs" and "j < length hs" and "flagged nr (rl(rs ! j := b)) (rs ! j) h"
  shows "list_all2 (flagged nr (rl(rs ! j := b))) rs (hs[j := h])"
  unfolding list_all2_conv_all_nth
proof (intro conjI allI impI)
  have len: "length rs = length hs" using list_all2_lengthD [OF assms(2)] .
  then show "length rs = length (hs[j := h])" by simp
  fix i assume i: "i < length rs"
  show "flagged nr (rl(rs ! j := b)) (rs ! i) (hs[j := h] ! i)"
  proof (cases "i = j")
    case False
    with assms(1,3) i len have "rs ! i \<noteq> rs ! j" by (simp add: nth_eq_iff_index_eq)
    with False list_all2_nthD [OF assms(2) i] show ?thesis by (auto simp: flagged_def)
  qed (use assms(3,4) in simp)
qed

lemma counts_ok_closed:
  assumes "counts_ok g0 g ta tf hs" and "j < length hs" and "hs ! j = (s, ft)" and "\<not> handle_closed ft"
    and "handle_closed ft'"
  shows "counts_ok g0 (g(s_gate s := Release (g (s_gate s)))) (Dec ta) (if is_upload ft then Dec tf else tf) (hs[j := (s, ft')])"
proof -
  have h: "tally (holds k) hs = tally (holds k) (hs[j := (s, ft')]) + of_bool (s_gate s = k)" for k
    using tally_update [OF assms(2), of "holds k" "(s, ft')"] assms(3-5) by (simp add: holds_def)
  have a: "tally in_progress hs = Suc (tally in_progress (hs[j := (s, ft')]))"
    using tally_update [OF assms(2), of in_progress "(s, ft')"] assms(3-5) by (simp add: in_progress_def)
  have u: "tally uploading hs = tally uploading (hs[j := (s, ft')]) + of_bool (is_upload ft)"
    using tally_update [OF assms(2), of uploading "(s, ft')"] assms(3-5) by (simp add: uploading_def)
  show ?thesis
    using assms(1) unfolding counts_ok_def h a u by (auto simp: Release_def Dec_def dest: add_leD1 split: if_splits)
qed

lemma ledger_ok_call:
  assumes "ledger_ok g0 (books w) hs" and "j < length hs" and "hs ! j = (s, ft)"
    and "run_state (call_handle sha c ft) w = (ft', w')"
  shows "ledger_ok g0 (books w') (hs[j := (s, ft')])"
proof -
  obtain rs where rs: "distinct rs" "list_all2 (flagged (next_release w) (released w)) rs hs"
    and ct: "counts_ok g0 (gates w) (TransferActive (metrics w)) (TemporaryFilesPending (metrics w)) hs"
    using assms(1) by (auto simp: ledger_ok_books flags_ok_def)
  let ?i = "rs ! j"
  have j: "j < length rs" using assms(2) list_all2_lengthD [OF rs(2)] by simp
  have fl: "handle_ledger s ?i ft" "?i < next_release w" "released w ?i = handle_closed ft"
    using list_all2_nthD [OF rs(2) j] assms(3) by (simp_all add: flagged_def)
  note b = call_handle_books [OF fl(1) assms(4)] and p = call_handle_parts [OF assms(4)]
  have fl': "handle_ledger s ?i ft'" using handle_ledger_parts p fl(1) by blast
  have "list_all2 (flagged (next_release w) ((released w)(?i := handle_closed ft'))) rs (hs[j := (s, ft')])"
    by (rule distinct_flags [OF rs assms(2)]) (use fl fl' in \<open>simp add: flagged_def\<close>)
  with rs(1) have flags: "flags_ok (next_release w) ((released w)(?i := handle_closed ft')) (hs[j := (s, ft')])"
    by (auto simp: flags_ok_def)
  show ?thesis
  proof (cases "handle_closed ft' \<and> \<not> handle_closed ft")
    case True
    with b fl(3) have "books w' = ((gates w)(s_gate s := Release (gates w (s_gate s))), Dec (TransferActive (metrics w)),
        if is_upload ft then Dec (TemporaryFilesPending (metrics w)) else TemporaryFilesPending (metrics w),
        (released w)(?i := True), next_release w)"
      by (simp add: books_def book_released_def book_completed_def)
    with flags counts_ok_closed [OF ct assms(2,3)] True show ?thesis by (simp add: ledger_ok_def)
  next
    case False
    with p have e: "handle_closed ft' = handle_closed ft" by blast
    have "tally P (hs[j := (s, ft')]) = tally P hs" if "P (s, ft') = P (s, ft)" for P
      using tally_update [OF assms(2), of P "(s, ft')"] assms(3) that by simp
    then have "counts_ok g0 g ta tf (hs[j := (s, ft')]) = counts_ok g0 g ta tf hs" for g ta tf
      using e b by (simp add: counts_ok_def holds_def in_progress_def uploading_def)
    moreover have "(released w)(?i := handle_closed ft') = released w" using fl(3) e by (auto simp: fun_upd_idem)
    moreover have "books w' = books w" using False b by auto
    ultimately show ?thesis using flags ct by (simp add: ledger_ok_books)
  qed
qed

section \<open>Transfers stay within the limit\<close>

lemma ledger_ok_step:
  assumes "traffic_step sha K L gw t t'" and own: "\<forall>s \<in> owners t. session_of K L gw s"
    and ok: "ledger_ok g0 (books (tf_world t)) (tf_handles t)"
  shows "ledger_ok g0 (books (tf_world t')) (tf_handles t')"
proof -
  have con: "\<exists>u. s_connect s = connector K L u" if "tf_drivers t cc = Some s" for cc s
    using own that by (auto simp: owners_def ran_def session_of_def)
  note get = GetHandle_ledger [where L = L and K = K and gw = gw]
  from assms(1) show ?thesis
  proof (cases rule: traffic_step.cases)
    case connect
    with ok keepsD [OF keeps_books_callbacks(1) connect(2)] show ?thesis by simp
  next
    case login_ok
    with ok keepsD [OF keeps_books_callbacks(3) login_ok(2)] show ?thesis by simp
  next
    case login_failed
    with ok keepsD [OF keeps_books_callbacks(3) login_failed(2)] show ?thesis by simp
  next
    case (command cc s c x w')
    then obtain u where "s_connect s = connector K L u" using con by blast
    from keepsD [OF keeps_books_exec [OF this command(3)] command(4)] command ok show ?thesis by simp
  next
    case (transfer_started cc s n fl ft w')
    then obtain u where "s_connect s = connector K L u" using con by blast
    note g = get [OF this transfer_started(3), unfolded sum.case]
    have "ledger_ok g0 (books w') (tf_handles t @ [(s, ft)])"
      using g by (intro ledger_ok_started [OF _ _ _ _ ok]) blast+
    with transfer_started show ?thesis by simp
  next
    case (transfer_refused cc s n fl e w')
    then obtain u where "s_connect s = connector K L u" using con by blast
    from get [OF this transfer_refused(3)] ledger_ok_settled [OF _ ok] transfer_refused show ?thesis by simp
  next
    case transfer_call
    with ledger_ok_call [OF ok transfer_call(2-4)] show ?thesis by simp
  next
    case disconnect
    with ok keepsD [OF keeps_books_callbacks(4) disconnect(2)] show ?thesis by simp
  next
    case closing
    with ok keepsD [OF keeps_books_callbacks(2) closing(2)] show ?thesis by simp
  qed
qed

lemma ledger_ok_reachable:
  fixes t :: "('s, 'm) traffic"
  assumes "(traffic_step sha K L gw)\<^sup>*\<^sup>* (no_traffic w0) t"
    and "ledger_ok g0 (books w0) ([] :: (('s, 'm) driver_session \<times> ('s, 'm) gw_world_scheme FileTransfer) list)"
  shows "ledger_ok g0 (books (tf_world t)) (tf_handles t)"
  using assms(1)
proof (induction rule: rtranclp_induct)
  case base
  show ?case using assms(2) by (simp add: no_traffic_def)
next
  case (step t t')
  then show ?case using ledger_ok_step owners_reachable by blast
qed

lemma new_users_gates:
  assumes "new_users us (rs, m, gs) = Some (rs', m', gs')" and "\<forall>k. slots (gs k) = 0"
    and "\<forall>n u. m n = Some u \<longrightarrow> int (capacity (gs n)) = uc_MaxConcurrentTransfers (ur_cfg u)"
  shows "(\<forall>k. slots (gs' k) = 0) \<and> (\<forall>n u. m' n = Some u \<longrightarrow> int (capacity (gs' n)) = uc_MaxConcurrentTransfers (ur_cfg u))"
  using assms
proof (induction us arbitrary: rs m gs)
  case (Cons a us)
  then obtain g where g: "NewConcurrencyGate (uc_MaxConcurrentTransfers a) = Some g" and
    n: "new_users us (rs @ [\<lparr>Username = uc_Username a, PasswordHash = uc_PasswordHash a\<rparr>],
      m(uc_Username a \<mapsto> user_runtime a), gs(uc_Username a := g)) = Some (rs', m', gs')"
    by (auto split: option.splits)
  have "slots g = 0 \<and> int (capacity g) = uc_MaxConcurrentTransfers a"
    using g by (auto simp: NewConcurrencyGate_def split: if_splits)
  with Cons.IH [OF n] Cons.prems show ?case by (simp add: user_runtime_def)
qed simp

lemma New_Gateway_gates:
  assumes "New_Gateway cfg srv rand clk = Some (gw, w0)"
  shows "ledger_ok (gates w0) (books w0) []"
    and "gw_users gw n = Some u \<Longrightarrow> int (capacity (gates w0 n)) = uc_MaxConcurrentTransfers (ur_cfg u)"
proof -
  obtain rs m gs where n: "new_users (cfg_Users cfg) ([], Map.empty, \<lambda>_. \<lparr>capacity = 0, slots = 0\<rparr>) = Some (rs, m, gs)"
    and gw: "gw_users gw = m" "gates w0 = gs" "metrics w0 = NewMetrics"
    using assms by (auto simp: New_Gateway_def split: option.splits prod.splits)
  from new_users_gates [OF n]
  have g: "\<forall>k. slots (gs k) = 0" "\<forall>n u. m n = Some u \<longrightarrow> int (capacity (gs n)) = uc_MaxConcurrentTransfers (ur_cfg u)" by simp_all
  show "ledger_ok (gates w0) (books w0) []"
    using g(1) gw by (simp add: ledger_ok_books counts_ok_def flags_ok_def NewMetrics_def)
  show "int (capacity (gates w0 n)) = uc_MaxConcurrentTransfers (ur_cfg u)" if "gw_users gw n = Some u"
    using g(2) gw that by simp
qed

text \<open>
  (C2) The concurrency limit of a user holds over the whole gateway: at every moment of every run,
  whatever connections the user has open and however their transfers interleave, fail and are
  closed, the transfers in progress on behalf of that user are at most the
  \<open>maxConcurrentTransfers\<close> configured, they are exactly what the user's gate counts, and the
  gauges of active transfers and of pending temporary files count exactly the open handles and the
  open uploads of all users.
\<close>

theorem transfers_within_limit:
  assumes "New_Gateway cfg srv rand clk = Some (gw, w0)" and "(traffic_step sha K L gw)\<^sup>*\<^sup>* (no_traffic w0) t"
    and "gw_users gw n = Some u"
  shows "int (tally (holds n) (tf_handles t)) \<le> uc_MaxConcurrentTransfers (ur_cfg u)
    \<and> InUse (gates (tf_world t) n) = tally (holds n) (tf_handles t)
    \<and> TransferActive (metrics (tf_world t)) = of_nat (tally in_progress (tf_handles t))
    \<and> TemporaryFilesPending (metrics (tf_world t)) = of_nat (tally uploading (tf_handles t))"
  using ledger_ok_reachable [OF assms(2) New_Gateway_gates(1) [OF assms(1)]] New_Gateway_gates(2) [OF assms(1,3)]
  by (simp add: ledger_ok_books counts_ok_def InUse_def) (metis of_nat_le_iff)

text \<open>The upload of the sample user holds one of its four slots.\<close>

theorem transfers_within_limit_witness:
  "\<exists>t. (traffic_step id accepting_lib tree_lib demo_gateway)\<^sup>*\<^sup>* (no_traffic (snd (the demo_built))) t
    \<and> InUse (gates (tf_world t) ''ax'') = 1 \<and> TransferActive (metrics (tf_world t)) = 1
    \<and> TemporaryFilesPending (metrics (tf_world t)) = 1"
proof -
  have "\<not> Option.is_none (gw_users demo_gateway ''ax'')" by code_simp
  then obtain u where u: "gw_users demo_gateway ''ax'' = Some u" by (auto simp: Option.is_none_def)
  obtain t ft where t: "(traffic_step id accepting_lib tree_lib demo_gateway)\<^sup>*\<^sup>* (no_traffic (snd (the demo_built))) t"
    and h: "tf_handles t = [(demo_user_session, ft)]" "is_upload ft" "\<not> handle_closed ft" by (rule demo_uploading)
  have "s_gate demo_user_session = ''ax''" by (simp add: demo_user_session_def Let_def)
  with transfers_within_limit [OF demo_built_Some t u] t h show ?thesis
    by (auto simp: holds_def in_progress_def uploading_def)
qed

end
