(* ===== verification/TrafficSessions.thy ===== *)
theory TrafficSessions
  imports TrafficBooks
begin

text \<open>
  The SFTP connections of a gateway under traffic. A session dials its connection on first use,
  drops it after an error and closes it at the end; the gauge \<open>SFTPConnectionsActive\<close> is
  changed in three other places of the code (the connector, the driver and the gateway). The
  theorem is that gauge and sessions agree at every moment of every run.
\<close>

section \<open>Connections\<close>

definition connected :: "('s, 'm) sess_world_scheme \<Rightarrow> nat set" where
  "connected w = {r. slot_sftp (sess_slots w r) \<noteq> None}"

text \<open>What the sessions and the gauge are, with the sessions not yet made.\<close>

definition lines_of :: "('s, 'm) gw_world_scheme \<Rightarrow> (nat \<Rightarrow> sess_slot) \<times> Gauge \<times> nat" where
  "lines_of w = (sess_slots w, SFTPConnectionsActive (metrics w), next_sess w)"

interpretation wires: transfer_bystander lines_of
  by unfold_locales (simp_all add: lines_of_def gauges_def)

definition lines_ok :: "('s, 'm) gw_world_scheme \<Rightarrow> bool" where
  "lines_ok w \<longleftrightarrow> finite (connected w) \<and> SFTPConnectionsActive (metrics w) = of_nat (card (connected w))
     \<and> connected w \<subseteq> {..<next_sess w} \<and> (\<forall>r. slot_closed (sess_slots w r) \<longrightarrow> slot_sftp (sess_slots w r) = None)"

lemma lines_ok_cong: "lines_of w' = lines_of w \<Longrightarrow> lines_ok w' = lines_ok w"
  by (simp add: lines_of_def lines_ok_def connected_def)

text \<open>A computation of a session that is known to the gateway keeps gauge and sessions in step.\<close>

definition tracks :: "nat \<Rightarrow> ('s, 'm) gw_world_scheme \<Rightarrow> ('s, 'm) gw_world_scheme \<Rightarrow> bool" where
  "tracks r w w' \<longleftrightarrow> next_sess w' = next_sess w \<and> (r < next_sess w \<and> lines_ok w \<longrightarrow> lines_ok w')"

interpretation track: guarantee "tracks r" for r
  by unfold_locales (auto simp: tracks_def)

definition tracking :: "nat \<Rightarrow> (('s, 'm) gw_world_scheme, 'a) state \<Rightarrow> bool" where
  "tracking r m \<longleftrightarrow> state_io_rel (tracks r) m"

lemmas tracking_basic = track.g_return [folded tracking_def] track.g_gets [folded tracking_def] track.g_bind [folded tracking_def]
  track.g_if [folded tracking_def] track.g_sum [folded tracking_def] track.g_option [folded tracking_def]
  track.g_prod [folded tracking_def]

lemma keeps_tracking: "keeps lines_of m \<Longrightarrow> tracking r m"
  unfolding keeps_def tracking_def state_io_rel_def tracks_def
  using lines_ok_cong by (fastforce simp: lines_of_def)

lemma trackingI: "(\<And>w x w'. run_state m w = (x, w') \<Longrightarrow> tracks r w w') \<Longrightarrow> tracking r m"
  by (simp add: tracking_def state_io_rel_def) (metis prod.collapse)

lemma trackingD: "tracking r m \<Longrightarrow> run_state m w = (x, w') \<Longrightarrow> tracks r w w'"
  by (auto simp: tracking_def)

section \<open>Opening and closing\<close>

lemma lines_ok_open:
  assumes "lines_ok w" and "r < next_sess w" and "slot_sftp (sess_slots w r) = None" and "\<not> slot_closed (sess_slots w r)"
    and "lines_of w' = ((sess_slots w)(r := (sess_slots w r)\<lparr>slot_sftp := Some c\<rparr>), Inc (SFTPConnectionsActive (metrics w)), next_sess w)"
  shows "lines_ok w'"
proof -
  have "connected w' = insert r (connected w)" using assms(5) by (auto simp: lines_of_def connected_def)
  moreover have "r \<notin> connected w" using assms(3) by (simp add: connected_def)
  ultimately show ?thesis using assms by (auto simp: lines_ok_def lines_of_def Inc_def)
qed

lemma lines_ok_drop:
  assumes "lines_ok w" and "slot_sftp (sess_slots w r) \<noteq> None" and "slot_sftp sl = None"
    and "lines_of w' = ((sess_slots w)(r := sl), Dec (SFTPConnectionsActive (metrics w)), next_sess w)"
  shows "lines_ok w'"
proof -
  have c: "connected w' = connected w - {r}" using assms(3,4) by (auto simp: lines_of_def connected_def)
  have r: "r \<in> connected w" and f: "finite (connected w)" using assms(1,2) by (auto simp: connected_def lines_ok_def)
  have "card (connected w) = Suc (card (connected w - {r}))" using card_Suc_Diff1 [OF f r] by simp
  then show ?thesis using assms c f by (auto simp: lines_ok_def lines_of_def Dec_def)
qed

lemma lines_ok_idle:
  assumes "lines_ok w" and "slot_sftp (sess_slots w r) = None" and "slot_sftp sl = None"
    and "lines_of w' = ((sess_slots w)(r := sl), SFTPConnectionsActive (metrics w), n)" and "next_sess w \<le> n"
  shows "lines_ok w'"
proof -
  have "connected w' = connected w" using assms(2-4) by (auto simp: lines_of_def connected_def)
  then show ?thesis using assms by (auto simp: lines_ok_def lines_of_def)
qed

lemma connector_lines:
  assumes "run_state (connector K L u) w = (x, w')"
  shows "lines_of w' = (sess_slots w, case x of Inl e \<Rightarrow> SFTPConnectionsActive (metrics w)
    | Inr c \<Rightarrow> Inc (SFTPConnectionsActive (metrics w)), next_sess w)"
proof -
  obtain d w1 where d: "run_state (Dial K (ssh_config (uc_SFTP (ur_cfg u)) (st_ConnectTimeout (uc_SFTP (ur_cfg u))))) w = (d, w1)"
    by fastforce
  have 1: "lines_of w1 = lines_of w" using keepsD [OF wires.o_dial(1) d] .
  show ?thesis
  proof (cases d)
    case (Inl e)
    with assms d 1 show ?thesis by (auto simp: connector_def lines_of_def)
  next
    case (Inr h)
    obtain c w2 where c: "run_state (New_Client L h (st_RootPath (uc_SFTP (ur_cfg u)))) w1 = (c, w2)" by fastforce
    have 2: "lines_of w2 = lines_of w1" using keepsD [OF wires.o_dial(2) c] .
    with assms d Inr c 1 show ?thesis by (cases c) (auto simp: connector_def lines_of_def)
  qed
qed

lemma tracking_sftp:
  assumes "s_connect s = connector K L u"
  shows "tracking (s_ref s) (driver_sftp s)"
proof (rule trackingI)
  fix w x w' assume r: "run_state (driver_sftp s) w = (x, w')"
  show "tracks (s_ref s) w w'"
  proof (cases "slot_closed (slot_of s w) \<or> slot_sftp (slot_of s w) \<noteq> None")
    case True
    with r have "w' = w" by (auto simp: driver_sftp_def Session_SFTP_def split: if_splits)
    then show ?thesis by (simp add: tracks_def)
  next
    case False
    obtain c w1 where c: "run_state (connector K L u) w = (c, w1)" by fastforce
    note l = connector_lines [OF c]
    show ?thesis
    proof (cases c)
      case (Inl e)
      with r c False assms have "w' = w1" by (auto simp: driver_sftp_def Session_SFTP_def)
      with l Inl lines_ok_cong [of w1 w] show ?thesis by (simp add: tracks_def lines_of_def)
    next
      case (Inr cl)
      with r c False assms have "w' = w1\<lparr>sess_slots := (sess_slots w1)(s_ref s := (slot_of s w1)\<lparr>slot_sftp := Some cl\<rparr>)\<rparr>"
        by (auto simp: driver_sftp_def Session_SFTP_def)
      with l Inr have n: "lines_of w' = ((sess_slots w)(s_ref s := (sess_slots w (s_ref s))\<lparr>slot_sftp := Some cl\<rparr>),
          Inc (SFTPConnectionsActive (metrics w)), next_sess w)"
        by (simp add: lines_of_def slot_of_def)
      then have "next_sess w' = next_sess w" by (simp add: lines_of_def)
      then show ?thesis using False lines_ok_open [OF _ _ _ _ n] by (auto simp: tracks_def slot_of_def)
    qed
  qed
qed

lemma tracking_invalidate: "tracking (s_ref s) (maybeInvalidate L s e)"
proof (rule trackingI)
  fix w x w' assume r: "run_state (maybeInvalidate L s e) w = (x, w')"
  show "tracks (s_ref s) w w'"
  proof (cases "slot_sftp (slot_of s w)")
    case None
    with r have "w' = w" by (auto simp: maybeInvalidate_def IsConnected_def split: option.splits if_splits)
    then show ?thesis by (simp add: tracks_def)
  next
    case (Some c)
    obtain e' w1 where c: "run_state (Client_Close L c) w = (e', w1)" by fastforce
    have 1: "lines_of w1 = lines_of w" using keepsD [OF wires.o_close c] .
    consider "w' = w" | "lines_of w' = ((sess_slots w)(s_ref s := (sess_slots w (s_ref s))\<lparr>slot_sftp := None\<rparr>),
        Dec (SFTPConnectionsActive (metrics w)), next_sess w)"
      using r c Some 1
      by (auto simp: maybeInvalidate_def IsConnected_def InvalidateSFTP_def lines_of_def slot_of_def split: option.splits if_splits)
    then show ?thesis
    proof cases
      case 2
      then have "next_sess w' = next_sess w" by (simp add: lines_of_def)
      with Some lines_ok_drop [OF _ _ _ 2] show ?thesis by (auto simp: tracks_def slot_of_def)
    qed (simp add: tracks_def)
  qed
qed

section \<open>Methods and callbacks\<close>

lemmas tracking_flow = tracking_basic wires.o_audit [THEN keeps_tracking] tracking_invalidate
lemmas tracking_ops = wires.o_ops [THEN keeps_tracking] wires.o_ReadDir [THEN keeps_tracking] wires.x_begin [THEN keeps_tracking]

lemma tracking_methods:
  assumes "s_connect s = connector K L u"
  shows "tracking (s_ref s) (driver_Stat L s n)" "tracking (s_ref s) (driver_Mkdir L s n)" "tracking (s_ref s) (driver_Remove L s n)"
    "tracking (s_ref s) (driver_RemoveDir L s n)" "tracking (s_ref s) (driver_Rename L s n n')"
    "tracking (s_ref s) (driver_ReadDir L gw s n)" "tracking (s_ref s) (GetHandle L gw s n fl)"
  unfolding driver_Stat_def driver_Mkdir_def driver_Remove_def driver_RemoveDir_def driver_Rename_def driver_ReadDir_def
    GetHandle_def Let_def
  by (intro tracking_flow tracking_ops tracking_sftp [OF assms])+

lemma tracking_exec:
  assumes "s_connect s = connector K L u" and "\<not> is_transfer c"
  shows "tracking (s_ref s) (exec sha L gw s c)"
  using assms(2) by (cases c) (auto intro!: tracking_basic tracking_methods [OF assms(1)])

lemma keeps_lines_callbacks: "keeps lines_of (ClientConnected gw cc addr)" "keeps lines_of PrepareShutdown"
  unfolding ClientConnected_def PrepareShutdown_def count_def Let_def
  by (intro keeps_basic keeps_modify wires.o_log; simp add: lines_of_def)+

lemma AuthUser_lines:
  assumes "run_state (AuthUser K L gw E cc addr user pw) w = (x, w')" and "lines_ok w"
  shows "lines_ok w' \<and> next_sess w \<le> next_sess w' \<and> (\<forall>s. x = Inr s \<longrightarrow> s_ref s < next_sess w')"
proof (cases x)
  case (Inl e)
  with assms(1) have "lines_of w' = lines_of w"
    by (auto simp: AuthUser_def New_Session_def draw_id_def run_gw_Authenticate lines_of_def Let_def split: option.splits if_splits)
  with assms(2) lines_ok_cong Inl show ?thesis by (auto simp: lines_of_def)
next
  case (Inr s)
  have "SFTPConnectionsActive (metrics w') = SFTPConnectionsActive (metrics w)"
    using assms(1) by (auto simp: AuthUser_def New_Session_def draw_id_def run_gw_Authenticate Let_def split: option.splits if_splits)
  with AuthUser_effects [OF assms(1) [unfolded Inr]]
  have l: "lines_of w' = ((sess_slots w)(next_sess w := \<lparr>slot_sftp = None, slot_closed = False\<rparr>),
      SFTPConnectionsActive (metrics w), Suc (next_sess w))" and s: "s_ref s < next_sess w'" "next_sess w \<le> next_sess w'"
    by (auto simp: lines_of_def)
  have "slot_sftp (sess_slots w (next_sess w)) = None" using assms(2) by (auto simp: lines_ok_def connected_def)
  from lines_ok_idle [OF assms(2) this _ l] s Inr show ?thesis by simp
qed

lemma Session_Close_lines:
  assumes "run_state (Session_Close L s) w = (e, w')" and "lines_ok w"
  shows "\<exists>sl. slot_sftp sl = None \<and> lines_of w' = ((sess_slots w)(s_ref s := sl), SFTPConnectionsActive (metrics w), next_sess w)"
proof (cases "slot_sftp (slot_of s w)")
  case None
  with assms(1) show ?thesis
    by (cases "slot_closed (slot_of s w)")
      (auto simp: Session_Close_def lines_of_def slot_of_def intro!: exI [of _ "(sess_slots w' (s_ref s))"])
next
  case (Some c)
  with assms(2) have "\<not> slot_closed (slot_of s w)" by (auto simp: lines_ok_def slot_of_def)
  let ?w1 = "w\<lparr>sess_slots := (sess_slots w)(s_ref s := (slot_of s w)\<lparr>slot_closed := True\<rparr>)\<rparr>"
  obtain e' w2 where c: "run_state (Client_Close L c) ?w1 = (e', w2)" by fastforce
  have "lines_of w2 = lines_of ?w1" using keepsD [OF wires.o_close c] .
  with assms(1) Some \<open>\<not> slot_closed (slot_of s w)\<close> c show ?thesis
    by (intro exI [of _ "(slot_of s w)\<lparr>slot_closed := True, slot_sftp := None\<rparr>"])
      (auto simp: Session_Close_def lines_of_def slot_of_def)
qed

lemma ClientDisconnected_lines:
  assumes "run_state (ClientDisconnected L cc) w = (x, w')" and "lines_ok w"
  shows "lines_ok w' \<and> next_sess w' = next_sess w"
proof (cases "\<exists>cs s. extra w cc = Some cs \<and> cs_sess cs = Some s")
  case False
  with assms(1) have "lines_of w' = lines_of w"
    by (auto simp: ClientDisconnected_def lines_of_def split: option.splits if_splits)
  with assms(2) lines_ok_cong show ?thesis by (auto simp: lines_of_def)
next
  case True
  then obtain cs s where cs: "extra w cc = Some cs" "cs_sess cs = Some s" by blast
  obtain e w2 m l where 2: "run_state (Session_Close L s) (leaving cc cs w) = (e, w2)"
    and w': "w' = w2\<lparr>metrics := m, log := l, sessions := sessions w2 - 1\<rparr>"
    and m: "m = (if slot_sftp (slot_of s w) \<noteq> None
       then (metrics w2)\<lparr>SFTPConnectionsActive := Dec (SFTPConnectionsActive (metrics w2))\<rparr> else metrics w2)"
    using run_ClientDisconnected [OF cs assms(1)] .
  have lv: "lines_of (leaving cc cs w) = lines_of w" by (simp add: leaving_def lines_of_def)
  from Session_Close_lines [OF 2] lines_ok_cong [OF lv] assms(2) lv
  obtain sl where sl: "slot_sftp sl = None"
    "lines_of w2 = ((sess_slots w)(s_ref s := sl), SFTPConnectionsActive (metrics w), next_sess w)"
    by (auto simp: lines_of_def)
  show ?thesis
  proof (cases "slot_sftp (slot_of s w)")
    case None
    with sl w' m have "lines_of w' = ((sess_slots w)(s_ref s := sl), SFTPConnectionsActive (metrics w), next_sess w)"
      by (simp add: lines_of_def)
    with lines_ok_idle [OF assms(2) _ sl(1) this] None show ?thesis by (auto simp: slot_of_def lines_of_def)
  next
    case (Some c)
    with sl w' m have "lines_of w' = ((sess_slots w)(s_ref s := sl), Dec (SFTPConnectionsActive (metrics w)), next_sess w)"
      by (simp add: lines_of_def)
    with lines_ok_drop [OF assms(2) _ sl(1) this] Some show ?thesis by (auto simp: slot_of_def lines_of_def)
  qed
qed

section \<open>The gauge is exact\<close>

definition handle_quiet :: "('s, 'm) gw_world_scheme FileTransfer \<Rightarrow> bool" where
  "handle_quiet ft = (case ft of
     UploadTransfer u \<Rightarrow> upload_ledger lines_of id id u | DownloadTransfer d \<Rightarrow> download_ledger lines_of id id d)"

lemma handle_quiet_parts: "handle_parts ft' = handle_parts ft \<Longrightarrow> handle_quiet ft' = handle_quiet ft"
  by (auto simp: handle_quiet_def handle_parts_def upload_ledger_def download_ledger_def split: FileTransfer.splits)

lemma GetHandle_quiet: "run_state (GetHandle L gw s n fl) w = (Inr ft, w') \<Longrightarrow> handle_quiet ft"
  by (erule wires.handle_of_GetHandle) (simp_all add: handle_quiet_def)

lemma upload_call_quiet: "upload_ledger f id id u \<Longrightarrow> run_state (upload_run sha cs u) w = (u', w') \<Longrightarrow> f w' = f w"
  by (drule (1) upload_run_acts) simp

lemma download_call_quiet: "download_ledger f id id d \<Longrightarrow> run_state (download_run sha cs d) w = (d', w') \<Longrightarrow> f w' = f w"
  by (drule (1) download_run_acts) simp

lemma call_handle_lines:
  assumes "handle_quiet ft" and "run_state (call_handle sha c ft) w = (ft', w')"
  shows "lines_of w' = lines_of w \<and> handle_quiet ft'"
proof
  show "lines_of w' = lines_of w"
  proof (cases ft)
    case (UploadTransfer u)
    with assms show ?thesis
      by (cases c) (auto simp: handle_quiet_def call_handle_def split: prod.splits dest: upload_call_quiet)
  next
    case (DownloadTransfer d)
    with assms show ?thesis
      by (cases c) (auto simp: handle_quiet_def call_handle_def split: prod.splits dest: download_call_quiet)
  qed
  show "handle_quiet ft'" using handle_quiet_parts call_handle_parts [OF assms(2)] assms(1) by blast
qed

definition lines_inv :: "('s, 'm) traffic \<Rightarrow> bool" where
  "lines_inv t \<longleftrightarrow> lines_ok (tf_world t) \<and> (\<forall>s \<in> owners t. s_ref s < next_sess (tf_world t))
     \<and> (\<forall>(s, ft) \<in> set (tf_handles t). handle_quiet ft)"

text \<open>A step that leaves drivers and handles alone.\<close>

lemma lines_inv_world:
  assumes "lines_inv t" and "lines_ok w'" and "next_sess (tf_world t) \<le> next_sess w'"
  shows "lines_inv (t\<lparr>tf_world := w'\<rparr>)"
  using assms by (force simp: lines_inv_def owners_def)

lemma lines_inv_same:
  assumes "lines_inv t" and "lines_of w' = lines_of (tf_world t)"
  shows "lines_inv (t\<lparr>tf_world := w'\<rparr>)"
proof -
  have "lines_ok w'" using assms lines_ok_cong [OF assms(2)] by (simp add: lines_inv_def)
  moreover have "next_sess w' = next_sess (tf_world t)" using assms(2) by (simp add: lines_of_def)
  ultimately show ?thesis using lines_inv_world [OF assms(1)] by simp
qed

lemma lines_inv_driver:
  assumes "lines_inv t" and "tf_drivers t cc = Some s" and "tracking (s_ref s) m" and "run_state m (tf_world t) = (x, w')"
  shows "lines_ok w' \<and> next_sess w' = next_sess (tf_world t) \<and> s_ref s < next_sess w'"
proof -
  have "s_ref s < next_sess (tf_world t)" "lines_ok (tf_world t)"
    using assms(1,2) by (auto simp: lines_inv_def owners_def ran_def)
  with trackingD [OF assms(3,4)] show ?thesis by (simp add: tracks_def)
qed

lemma lines_inv_call:
  assumes "lines_inv t" and "i < length (tf_handles t)" and "tf_handles t ! i = (s, ft)"
    and "run_state (call_handle sha c ft) (tf_world t) = (ft', w')"
  shows "lines_inv (t\<lparr>tf_world := w', tf_handles := (tf_handles t)[i := (s, ft')]\<rparr>)"
proof -
  have m: "(s, ft) \<in> set (tf_handles t)" using assms(2,3) by (metis nth_mem)
  with assms(1) have "handle_quiet ft" by (auto simp: lines_inv_def)
  from call_handle_lines [OF this assms(4)] have l: "lines_of w' = lines_of (tf_world t)" and q: "handle_quiet ft'" by simp_all
  have "set ((tf_handles t)[i := (s, ft')]) \<subseteq> insert (s, ft') (set (tf_handles t))" by (rule set_update_subset_insert)
  then have h: "\<forall>(s, ft) \<in> set ((tf_handles t)[i := (s, ft')]). handle_quiet ft"
    using q assms(1) by (auto simp: lines_inv_def)
  have "owners (t\<lparr>tf_world := w', tf_handles := (tf_handles t)[i := (s, ft')]\<rparr>) = owners t"
    using owners_update [OF assms(2,3)] by (simp add: owners_def)
  with h lines_inv_same [OF assms(1) l] show ?thesis by (simp add: lines_inv_def owners_def)
qed

lemma lines_inv_step:
  assumes "traffic_step sha K L gw t t'" and own: "\<forall>s \<in> owners t. session_of K L gw s" and inv: "lines_inv t"
  shows "lines_inv t'"
proof -
  have con: "\<exists>u. s_connect s = connector K L u" if "tf_drivers t cc = Some s" for cc s
    using own that by (auto simp: owners_def ran_def session_of_def)
  have ok: "lines_ok (tf_world t)" using inv by (simp add: lines_inv_def)
  from assms(1) show ?thesis
  proof (cases rule: traffic_step.cases)
    case (connect cc addr r w')
    with lines_inv_same [OF inv keepsD [OF keeps_lines_callbacks(1) connect(2)]] show ?thesis by simp
  next
    case (login_ok E cc addr user pw s w')
    have a: "lines_ok w'" "next_sess (tf_world t) \<le> next_sess w'" "s_ref s < next_sess w'"
      using AuthUser_lines [OF login_ok(2) ok] by simp_all
    have "owners t' \<subseteq> insert s (owners t)" using login_ok(1) by (auto simp: owners_def ran_def split: if_splits)
    then have "\<forall>x \<in> owners t'. s_ref x < next_sess w'" using a inv by (auto simp: lines_inv_def dest!: subsetD intro: less_le_trans)
    with a inv login_ok(1) show ?thesis by (simp add: lines_inv_def)
  next
    case (login_failed E cc addr user pw e w')
    with AuthUser_lines [OF login_failed(2) ok] lines_inv_world [OF inv] show ?thesis by blast
  next
    case (command cc s c x w')
    then obtain u where "s_connect s = connector K L u" using con by blast
    from lines_inv_driver [OF inv command(2) tracking_exec [OF this command(3)] command(4)] command lines_inv_world [OF inv]
    show ?thesis by simp
  next
    case (transfer_started cc s n fl ft w')
    then obtain u where "s_connect s = connector K L u" using con by blast
    from lines_inv_driver [OF inv transfer_started(2) tracking_methods(7) [OF this] transfer_started(3)]
      transfer_started(1) GetHandle_quiet [OF transfer_started(3)] inv
    show ?thesis by (auto simp: lines_inv_def owners_def)
  next
    case (transfer_refused cc s n fl e w')
    then obtain u where "s_connect s = connector K L u" using con by blast
    from lines_inv_driver [OF inv transfer_refused(2) tracking_methods(7) [OF this] transfer_refused(3)] transfer_refused
      lines_inv_world [OF inv]
    show ?thesis by simp
  next
    case transfer_call
    with lines_inv_call [OF inv transfer_call(2-4)] show ?thesis by simp
  next
    case (disconnect cc x w')
    with ClientDisconnected_lines [OF disconnect(2) ok] inv show ?thesis
      by (fastforce simp: lines_inv_def owners_def ran_def split: if_splits)
  next
    case (closing x w')
    with lines_inv_same [OF inv keepsD [OF keeps_lines_callbacks(2) closing(2)]] show ?thesis by simp
  qed
qed

lemma lines_inv_reachable:
  assumes "(traffic_step sha K L gw)\<^sup>*\<^sup>* (no_traffic w0) t" and "lines_inv (no_traffic w0)"
  shows "lines_inv t"
  using assms(1)
proof (induction rule: rtranclp_induct)
  case base
  show ?case using assms(2) .
next
  case (step t t')
  then show ?case using lines_inv_step owners_reachable by blast
qed

lemma New_Gateway_lines:
  "New_Gateway cfg srv rand clk = Some (gw, w0) \<Longrightarrow> lines_inv (no_traffic w0)"
  by (auto simp: New_Gateway_def lines_inv_def lines_ok_def no_traffic_def owners_def connected_def NewMetrics_def
      split: option.splits prod.splits)

text \<open>
  (C19) The gauge of SFTP connections is exact: at every moment of every run the number it exports
  is the number of sessions that hold a connection, over all dials, invalidations after errors and
  disconnects; a closed session never holds one, and a driver only ever uses a session that exists.
\<close>

theorem sftp_gauge_exact:
  assumes "New_Gateway cfg srv rand clk = Some (gw, w0)" and "(traffic_step sha K L gw)\<^sup>*\<^sup>* (no_traffic w0) t"
  shows "finite (connected (tf_world t))
    \<and> SFTPConnectionsActive (metrics (tf_world t)) = of_nat (card (connected (tf_world t)))
    \<and> (\<forall>r \<in> connected (tf_world t). r < next_sess (tf_world t) \<and> \<not> slot_closed (sess_slots (tf_world t) r))
    \<and> (\<forall>s \<in> owners t. s_ref s < next_sess (tf_world t))"
  using lines_inv_reachable [OF assms(2) New_Gateway_lines [OF assms(1)]]
  by (auto simp: lines_inv_def lines_ok_def connected_def)

text \<open>The upload of the sample user opened the SFTP connection of its session.\<close>

theorem sftp_gauge_exact_witness:
  "\<exists>t. (traffic_step id accepting_lib tree_lib demo_gateway)\<^sup>*\<^sup>* (no_traffic (snd (the demo_built))) t
    \<and> 0 \<in> connected (tf_world t) \<and> \<not> slot_closed (sess_slots (tf_world t) 0)
    \<and> SFTPConnectionsActive (metrics (tf_world t)) = of_nat (card (connected (tf_world t)))"
proof -
  obtain t where t: "(traffic_step id accepting_lib tree_lib demo_gateway)\<^sup>*\<^sup>* (no_traffic (snd (the demo_built))) t"
    and "slot_sftp (sess_slots (tf_world t) 0) \<noteq> None" using demo_uploading by metis
  then have "0 \<in> connected (tf_world t)" by (simp add: connected_def)
  with sftp_gauge_exact [OF demo_built_Some t] t show ?thesis by blast
qed

end
