(* ===== verification/Delivery.thy ===== *)
theory Delivery
  imports SftpFs
begin

text \<open>
  What a download delivers: on a server that serves reads from the current offset of an open
  file, the bytes of a download that reached the end of the file are the content of the remote
  file, from the requested offset on, and the report counts and hashes exactly these bytes.
  Together with the result on uploads: what was uploaded is what is downloaded.
\<close>

section \<open>Reading\<close>

text \<open>
  The semantics of reading, for files with the contents \<open>view\<close>: \<open>offset\<close> is the position of an
  open file, a read delivers the bytes at the position, possibly fewer than asked for, and reports
  the end only at the end.
\<close>

definition read_law ::
  "'s sftp_lib \<Rightarrow> ('s \<Rightarrow> string \<Rightarrow> bytes option) \<Rightarrow> ('s \<Rightarrow> handle \<Rightarrow> string option) \<Rightarrow> ('s \<Rightarrow> handle \<Rightarrow> nat) \<Rightarrow> bool" where
  "read_law L view file off \<longleftrightarrow> (\<forall>f n s b e s' p d.
     file_Read L f n s = ((b, e), s') \<and> file s f = Some p \<and> view s p = Some d
     \<longrightarrow> view s' = view s \<and> file s' f = Some p \<and> off s' f = off s f + length b
         \<and> b = take (length b) (drop (off s f) d) \<and> (\<forall>x. e = Some x \<and> std_Is x EOF \<longrightarrow> length d \<le> off s' f))"

definition read_laws ::
  "'s sftp_lib \<Rightarrow> ('s \<Rightarrow> string \<Rightarrow> bytes option) \<Rightarrow> ('s \<Rightarrow> handle \<Rightarrow> string option) \<Rightarrow> ('s \<Rightarrow> handle \<Rightarrow> nat) \<Rightarrow> bool" where
  "read_laws L view file off \<longleftrightarrow>
     content_laws L view file \<and> read_law L view file off
     \<and> (\<forall>h p s f s'. lib_OpenFile L h p O_RDONLY s = (Inr f, s') \<longrightarrow> view s' = view s \<and> file s' f = Some p \<and> off s' f = 0)
     \<and> (\<forall>f i s k s' p. file_Seek L f i io_SeekStart s = ((k, None), s') \<and> 0 \<le> i \<and> file s f = Some p
          \<longrightarrow> view s' = view s \<and> file s' f = Some p \<and> off s' f = nat i)"

lemma read_lawsD:
  assumes "read_laws L view file off"
  shows "content_laws L view file"
    and "file_Read L f n s = ((b, e), s') \<Longrightarrow> file s f = Some p \<Longrightarrow> view s p = Some d \<Longrightarrow>
      view s' = view s \<and> file s' f = Some p \<and> off s' f = off s f + length b
      \<and> b = take (length b) (drop (off s f) d) \<and> (\<forall>x. e = Some x \<and> std_Is x EOF \<longrightarrow> length d \<le> off s' f)"
    and "lib_OpenFile L h p O_RDONLY s = (Inr f, s') \<Longrightarrow> view s' = view s \<and> file s' f = Some p \<and> off s' f = 0"
    and "file_Seek L f i io_SeekStart s = ((k, None), s') \<Longrightarrow> 0 \<le> i \<Longrightarrow> file s f = Some p \<Longrightarrow>
      view s' = view s \<and> file s' f = Some p \<and> off s' f = nat i"
proof -
  show "content_laws L view file" using assms by (simp add: read_laws_def)
  have "read_law L view file off" using assms by (simp add: read_laws_def)
  then show "file_Read L f n s = ((b, e), s') \<Longrightarrow> file s f = Some p \<Longrightarrow> view s p = Some d \<Longrightarrow>
      view s' = view s \<and> file s' f = Some p \<and> off s' f = off s f + length b
      \<and> b = take (length b) (drop (off s f) d) \<and> (\<forall>x. e = Some x \<and> std_Is x EOF \<longrightarrow> length d \<le> off s' f)"
    unfolding read_law_def by blast
  show "lib_OpenFile L h p O_RDONLY s = (Inr f, s') \<Longrightarrow> view s' = view s \<and> file s' f = Some p \<and> off s' f = 0"
    using assms unfolding read_laws_def by blast
  show "file_Seek L f i io_SeekStart s = ((k, None), s') \<Longrightarrow> 0 \<le> i \<Longrightarrow> file s f = Some p \<Longrightarrow>
      view s' = view s \<and> file s' f = Some p \<and> off s' f = nat i"
    using assms unfolding read_laws_def by blast
qed

text \<open>
  The FTP library's use of a download handle: it seeks to the offset of a preceding \<open>REST\<close>, if
  there was one, and copies with buffers of any sizes until a read returns an error, which is
  \<open>io.EOF\<close> when all went well.
\<close>

definition download_from :: "int \<Rightarrow> 'w DownloadHandle \<Rightarrow> ('w, int \<times> go_error option) state" where
  "download_from i d = (if i \<noteq> 0 then Download_Seek d i io_SeekStart else return (0, None))"

fun download_copy :: "nat list \<Rightarrow> 'w DownloadHandle \<Rightarrow> ('w, (bytes \<times> go_error option) \<times> 'w DownloadHandle) state" where
  "download_copy [] d = return (([], None), d)"
| "download_copy (n # ns) d = do {
     r \<leftarrow> Download_Read d n;
     if snd (fst r) \<noteq> None then return r
     else do { r' \<leftarrow> download_copy ns (snd r); return ((fst (fst r) @ fst (fst r'), snd (fst r')), snd r') }
   }"

text \<open>What a handle counts and hashes, as a function of the bytes read.\<close>

definition delivered :: "bytes \<Rightarrow> 'w DownloadHandle \<Rightarrow> 'w DownloadHandle" where
  "delivered b d = d\<lparr>d_read := d_read d + int (length b), d_hasher := map_option (\<lambda>y. y @ b) (d_hasher d)\<rparr>"

lemma delivered_delivered [simp]: "delivered b (delivered a d) = delivered (a @ b) d"
  by (cases "d_hasher d") (simp_all add: delivered_def)

lemma delivered_sel [simp]:
  "d_file (delivered b d) = d_file d" "d_read (delivered b d) = d_read d + int (length b)" "delivered [] d = d"
  by (simp_all add: delivered_def option.map_ident)

lemma Download_Read_delivered:
  assumes "run_state (Download_Read d n) w = (((b, e), d'), w')" and "\<And>x. e = Some x \<Longrightarrow> std_Is x EOF"
    and "0 \<le> d_read d" and "d_read d + int (length b) < 2 ^ 63"
  shows "d' = delivered b d"
proof -
  have "wrap64 (d_read d + int (length b)) = d_read d + int (length b)" using assms(3,4) by (intro wrap64_id) auto
  then show ?thesis
    using assms(1,2)
    by (auto simp: Download_Read_def Let_def delivered_def option.map_ident split: prod.splits option.splits if_splits)
qed

lemma Download_Read_remote:
  assumes "run_state (Download_Read d n) w = (((b, e), d'), w')" and "d_file d = sftp_reader L h"
  shows "file_Read L h n (remote w) = ((b, e), remote w')"
proof -
  obtain b0 e0 s where "file_Read L h n (remote w) = ((b0, e0), s)" by (metis prod.collapse)
  with assms show ?thesis by (auto simp: Download_Read_def Let_def run_send)
qed

lemma download_copy_content:
  assumes "read_laws L view file off" and "d_file d = sftp_reader L h"
    and "file (remote w) h = Some p" and "view (remote w) p = Some x"
    and "0 \<le> d_read d" and "d_read d + int (length x - off (remote w) h) < 2 ^ 63"
    and "run_state (download_copy ns d) w = (((b, Some e), d'), w')" and "std_Is e EOF"
  shows "b = drop (off (remote w) h) x \<and> d' = delivered b d \<and> view (remote w') = view (remote w)"
  using assms(2-7)
proof (induction ns arbitrary: d w b)
  case (Cons n ns)
  obtain b1 e1 d1 w1 where 1: "run_state (Download_Read d n) w = (((b1, e1), d1), w1)" by (metis prod.collapse)
  let ?k = "off (remote w) h"
  note r = read_lawsD(2) [OF assms(1) Download_Read_remote [OF 1 Cons.prems(1)] Cons.prems(2,3)]
  then have len: "length b1 \<le> length x - ?k" by (metis length_drop length_take min.cobounded1 min.commute)
  have eof: "std_Is y EOF" if "e1 = Some y" for y using that Cons.prems(6) 1 assms(8) by auto
  have d1: "d1 = delivered b1 d" using Download_Read_delivered [OF 1 eof] Cons.prems(4,5) len by simp
  show ?case
  proof (cases e1)
    case None
    obtain b2 where 2: "run_state (download_copy ns d1) w1 = (((b2, Some e), d'), w')" and b: "b = b1 @ b2"
      using Cons.prems(6) 1 None by (auto split: prod.splits)
    have "b2 = drop (off (remote w1) h) x \<and> d' = delivered b2 d1 \<and> view (remote w') = view (remote w1)"
      using Cons.IH [OF _ _ _ _ _ 2] r d1 Cons.prems len by simp
    moreover have "b1 @ drop (?k + length b1) x = drop ?k x"
      using r by (metis append_take_drop_id drop_drop add.commute)
    ultimately show ?thesis using r d1 b by simp
  next
    case (Some y)
    then have b: "b = b1" "d' = d1" "w' = w1" using Cons.prems(6) 1 by simp_all
    have "length x \<le> ?k + length b1" using r eof [OF Some] Some by simp
    then have "length (drop ?k x) \<le> length b1" by simp
    then have "b1 = drop ?k x" using r by (metis take_all)
    with b r d1 show ?thesis by simp
  qed
qed simp

section \<open>Downloads\<close>

definition local_download :: "('s, 'm) world_scheme DownloadOptions \<Rightarrow> bool" where
  "local_download opts \<longleftrightarrow> keeps remote (run_Release (dn_Release opts))
     \<and> (\<forall>r. keeps remote (run_OnComplete (dn_OnComplete opts) r))"

lemma NewDownload_content:
  assumes "read_laws L view file off" and "run_state (NewDownload (Client_RemoteFS L c) p opts) w = (Inr d, w')"
  obtains h where "d_file d = sftp_reader L h" and "file (remote w') h = Some p" and "off (remote w') h = 0"
    and "view (remote w') = view (remote w)"
    and "d_opts d = opts" and "d_read d = 0" and "\<not> d_failed d" and "\<not> d_closed d"
    and "d_hasher d = (if dn_CalculateSHA256 opts then Some [] else None)"
proof -
  obtain h where h: "run_state (Client_OpenRead L c p) w = (Inr h, w')"
    and d: "d = \<lparr>d_file = sftp_reader L h, d_hasher = (if dn_CalculateSHA256 opts then Some [] else None), d_remotePath = p,
      d_opts = opts, d_read = 0, d_failed = False, d_failErr = None, d_closed = False\<rparr>"
    using assms(2) by (auto simp: NewDownload_def run_OpenRead_Inr split: prod.splits sum.splits)
  obtain e w1 where 1: "run_state (checkNoEscapingSymlink L c p) w = (e, w1)" by fastforce
  obtain r s where 2: "lib_OpenFile L (sftp c) p O_RDONLY (remote w1) = (r, s)" by fastforce
  have "view (remote w1) = view (remote w)"
    using keepsD [OF keeps_checkNoEscapingSymlink_view [OF read_lawsD(1) [OF assms(1)]] 1] .
  moreover have "r = Inr h \<and> remote w' = s"
    using h 1 2 by (auto simp: Client_OpenRead_def run_send split: option.splits sum.splits)
  ultimately show thesis using read_lawsD(3) [OF assms(1)] 2 d by (intro that [of h]) auto
qed

lemma download_from_content:
  assumes "read_laws L view file off" and "d_file d = sftp_reader L h" and "file (remote w) h = Some p"
    and "off (remote w) h = 0" and "run_state (download_from i d) w = ((k, None), w')" and "0 \<le> i"
  shows "view (remote w') = view (remote w) \<and> file (remote w') h = Some p \<and> off (remote w') h = nat i"
proof (cases "i = 0")
  case False
  obtain r s where "file_Seek L h i io_SeekStart (remote w) = (r, s)" by fastforce
  with False assms read_lawsD(4) [OF assms(1), of h i "remote w" k s p] show ?thesis
    by (auto simp: download_from_def Download_Seek_def run_send)
qed (use assms in \<open>simp add: download_from_def\<close>)

lemma Download_Close_remote:
  assumes "content_laws L view file" and "d_file d = sftp_reader L h" and "local_download (d_opts d)"
    and "run_state (Download_Close sha d) w = ((r, d'), w')"
  shows "view (remote w') = view (remote w)"
proof -
  have "keeps (\<lambda>w. view (remote w)) m" if "keeps remote m" for m :: "(('a, 'b) world_scheme, unit) state"
    using that by (auto simp: keeps_def state_io_rel_def)
  then have "keeps (\<lambda>w. view (remote w)) (Download_Close sha d)"
    using assms(2,3) unfolding Download_Close_def Let_def local_download_def
    by (auto intro!: keeps_basic keeps_send_view content_lawsD(4) [OF assms(1)])
  from keepsD [OF this assms(4)] show ?thesis .
qed

lemma Download_Close_report:
  assumes "run_state (Download_Close sha d) w = ((r, d'), w')" and "\<not> d_closed d" and "\<not> d_failed d"
  obtains v v' where "d' = d\<lparr>d_closed := True\<rparr>"
    and "run_state (run_OnComplete (dn_OnComplete (d_opts d)) (download_result sha d' r)) v = ((), v')"
    and "run_state (run_Release (dn_Release (d_opts d))) v' = ((), w')"
  using assms by (auto simp: Download_Close_def Let_def split: prod.splits)

text \<open>What is delivered, and what is reported of it.\<close>

lemma download_delivered:
  assumes "read_laws L view file off" and "view (remote w0) p = Some x" and "int (length x) < 2 ^ 63"
    and "local_download opts" and "0 \<le> i"
    and "run_state (NewDownload (Client_RemoteFS L c) p opts) w0 = (Inr d, w1)"
    and "run_state (download_from i d) w1 = ((k, None), w2)"
    and "run_state (download_copy ns d) w2 = (((b, Some e), d1), w3)" and "std_Is e EOF"
    and "run_state (Download_Close sha d1) w3 = ((r, d2), w4)"
  shows "b = drop (nat i) x \<and> view (remote w4) = view (remote w0)
    \<and> Bytes (download_result sha d2 r) = int (length b)
    \<and> SHA256 (download_result sha d2 r) = (if dn_CalculateSHA256 opts then hex_encode (sha b) else [])
    \<and> Phase (download_result sha d2 r) = (if r = None then PhaseCommitted else PhaseFailed)
    \<and> (\<exists>v v'. run_state (run_OnComplete (dn_OnComplete opts) (download_result sha d2 r)) v = ((), v')
          \<and> run_state (run_Release (dn_Release opts)) v' = ((), w4))"
proof -
  obtain h where d: "d_file d = sftp_reader L h" "d_opts d = opts" "d_read d = 0" "\<not> d_failed d" "\<not> d_closed d"
    "d_hasher d = (if dn_CalculateSHA256 opts then Some [] else None)"
    and 1: "file (remote w1) h = Some p" "off (remote w1) h = 0" "view (remote w1) = view (remote w0)"
    using NewDownload_content [OF assms(1,6)] .
  have 2: "view (remote w2) = view (remote w1)" "file (remote w2) h = Some p" "off (remote w2) h = nat i"
    using download_from_content [OF assms(1) d(1) 1(1,2) assms(7,5)] by simp_all
  have 3: "b = drop (nat i) x" "d1 = delivered b d" "view (remote w3) = view (remote w2)"
    using download_copy_content [OF assms(1) d(1) 2(2) _ _ _ assms(8,9), of x] 1 2 assms(2,3) d(3) by auto
  have "view (remote w4) = view (remote w3)"
    using Download_Close_remote [OF read_lawsD(1) [OF assms(1)] _ _ assms(10)] 3(2) d(1,2) assms(4) by (simp add: delivered_def)
  moreover obtain v v' where d2: "d2 = d1\<lparr>d_closed := True\<rparr>"
    and "run_state (run_OnComplete (dn_OnComplete opts) (download_result sha d2 r)) v = ((), v')"
    and "run_state (run_Release (dn_Release opts)) v' = ((), w4)"
    using Download_Close_report [OF assms(10)] 3(2) d(2,4,5) by (auto simp: delivered_def)
  moreover have "Bytes (download_result sha d2 r) = int (length b)
    \<and> SHA256 (download_result sha d2 r) = (if dn_CalculateSHA256 opts then hex_encode (sha b) else [])
    \<and> Phase (download_result sha d2 r) = (if r = None then PhaseCommitted else PhaseFailed)"
    using d2 3(2) d by (simp add: download_result_def delivered_def)
  ultimately show ?thesis using 1 2 3 by auto
qed

text \<open>
  (C20) A download delivers the file: if the remote file has content \<open>x\<close>, the handle was opened and
  the copy ended with \<open>io.EOF\<close>, whatever the sizes of the buffers and the reads, then the bytes
  delivered are exactly \<open>x\<close> from the offset of a preceding \<open>REST\<close> on (the whole file without
  one), nothing changed on the server, and the report of \<open>Close\<close> has their number and their
  SHA-256, and the phase committed unless closing the file failed; this report is
  the one passed to \<open>OnComplete\<close> before the transfer is released.
\<close>

theorem download_delivers:
  assumes "read_laws L view file off" and "view (remote w0) p = Some x" and "int (length x) < 2 ^ 63"
    and "local_download opts" and "0 \<le> i"
    and "run_state (NewDownload (Client_RemoteFS L c) p opts) w0 = (Inr d, w1)"
    and "run_state (download_from i d) w1 = ((k, None), w2)"
    and "run_state (download_copy ns d) w2 = (((b, Some e), d1), w3)" and "std_Is e EOF"
    and "run_state (Download_Close sha d1) w3 = ((r, d2), w4)"
  shows "b = drop (nat i) x \<and> view (remote w4) = view (remote w0)
    \<and> Bytes (download_result sha d2 r) = int (length b)
    \<and> SHA256 (download_result sha d2 r) = (if dn_CalculateSHA256 opts then hex_encode (sha b) else [])
    \<and> Phase (download_result sha d2 r) = (if r = None then PhaseCommitted else PhaseFailed)
    \<and> (\<exists>v v'. run_state (run_OnComplete (dn_OnComplete opts) (download_result sha d2 r)) v = ((), v')
          \<and> run_state (run_Release (dn_Release opts)) v' = ((), w4))"
  by (rule download_delivered [OF assms])

text \<open>
  (C5) What was uploaded is what is downloaded: after an upload whose \<open>Close\<close> returned no error, a
  download of the same path, by whatever session and connection, that ends with \<open>io.EOF\<close> delivers
  exactly the bytes uploaded, in order, whatever the chunks of the writes and the reads, and both
  transfers report the same size and, when both compute it, the same SHA-256.
\<close>

theorem upload_download_roundtrip:
  assumes "read_laws L view file off"
    and "clean_abs final" "final \<noteq> ''/''" "slash \<notin> set (up_TemporarySuffix uo)" "slash \<notin> set (up_SessionID uo)"
    and "local_callbacks uo" "local_download dn" and "int (length (concat bs)) < 2 ^ 63"
    and "run_state (NewUpload (Client_RemoteFS L c) final uo) w0 = (Inr u, w1)"
    and "run_state (upload_run sha (map CallWrite bs) u) w1 = (u1, w2)"
    and "run_state (Upload_Close sha u1) w2 = ((None, u2), w3)"
    and "run_state (NewDownload (Client_RemoteFS L c') final dn) w3 = (Inr d, w4)"
    and "run_state (download_copy ns d) w4 = (((b, Some e), d1), w5)" and "std_Is e EOF"
    and "run_state (Download_Close sha d1) w5 = ((r, d2), w6)"
  shows "b = concat bs \<and> Bytes (download_result sha d2 r) = Bytes (upload_result sha u2)
    \<and> (up_CalculateSHA256 uo = dn_CalculateSHA256 dn \<longrightarrow> SHA256 (download_result sha d2 r) = SHA256 (upload_result sha u2))"
proof -
  note up = upload_committed [OF read_lawsD(1) [OF assms(1)] assms(2-6,8-11)]
  have x: "view (remote w3) final = Some (concat bs)" using up by simp
  have 0: "run_state (download_from 0 d) w4 = ((0, None), w4)" by (simp add: download_from_def)
  show ?thesis using download_delivered [OF assms(1) x assms(8,7) _ assms(12) 0 assms(13-15)] up by simp
qed

section \<open>The tree server\<close>

lemma tree_read_laws: "read_laws tree_lib tree_view tree_file tree_offset"
proof -
  have "read_law tree_lib tree_view tree_file tree_offset"
    unfolding read_law_def
    by (auto simp: tree_lib_def tree_Read_def tree_view_def tree_file_def tree_offset_def node_data_def Let_def min_def
        split: option.splits node.splits prod.splits if_splits)
  then show ?thesis
    using tree_content_laws
    by (auto simp: read_laws_def tree_lib_def tree_OpenFile_def tree_Seek_def tree_file_def tree_offset_def Let_def
        split: if_splits option.splits prod.splits)
qed

text \<open>The file uploaded in the demonstration of the uploads, downloaded with buffers of two bytes.\<close>

definition demo_download_opts :: "tree world DownloadOptions" where
  "demo_download_opts = \<lparr>dn_SessionID = ''00ff'', dn_TransferID = ''02'', dn_VirtualPath = ''/a'', dn_CalculateSHA256 = True,
     dn_OnComplete = None, dn_Release = None\<rparr>"

definition demo_open :: "tree world DownloadHandle result \<times> tree world" where
  "demo_open = run_state (NewDownload (Client_RemoteFS tree_lib tree_client) ''/data/a'' demo_download_opts) (snd demo_close)"

definition demo_seek :: "(int \<times> go_error option) \<times> tree world" where
  "demo_seek = run_state (download_from 1 (projr (fst demo_open))) (snd demo_open)"

definition demo_copy :: "tree world \<Rightarrow> ((bytes \<times> go_error option) \<times> tree world DownloadHandle) \<times> tree world" where
  "demo_copy w = run_state (download_copy [2, 2, 2] (projr (fst demo_open))) w"

lemma demo_opened: "run_state (NewDownload (Client_RemoteFS tree_lib tree_client) ''/data/a'' demo_download_opts) (snd demo_close)
    = (Inr (projr (fst demo_open)), snd demo_open)"
proof -
  have "\<not> isl (fst demo_open)" by code_simp
  then show ?thesis unfolding demo_open_def by (metis prod.collapse sum.collapse(2))
qed

lemma demo_download_local: "local_download demo_download_opts"
  by (simp add: local_download_def demo_download_opts_def run_Release_def run_OnComplete_def keeps_basic)

definition eof_result :: "((bytes \<times> go_error option) \<times> 'h) \<times> 'w \<Rightarrow> bool" where
  "eof_result x = (case snd (fst (fst x)) of Some e \<Rightarrow> std_Is e EOF | None \<Rightarrow> False)"

lemma eof_resultE:
  assumes "eof_result (run_state m w)"
  obtains e where "run_state m w = (((fst (fst (fst (run_state m w))), Some e), snd (fst (run_state m w))), snd (run_state m w))"
    and "std_Is e EOF"
  using assms unfolding eof_result_def by (cases "run_state m w") (auto split: option.splits)

theorem download_delivers_witness: "fst (fst (fst (demo_copy (snd demo_seek)))) = [2, 3]"
proof -
  have x: "tree_view (remote (snd demo_close)) ''/data/a'' = Some [1, 2, 3]" by code_simp
  have "snd (fst demo_seek) = None" by code_simp
  then have k: "run_state (download_from 1 (projr (fst demo_open))) (snd demo_open) = ((fst (fst demo_seek), None), snd demo_seek)"
    unfolding demo_seek_def by (metis prod.collapse)
  have "eof_result (demo_copy (snd demo_seek))" by code_simp
  then obtain e where e: "run_state (download_copy [2, 2, 2] (projr (fst demo_open))) (snd demo_seek)
      = (((fst (fst (fst (demo_copy (snd demo_seek)))), Some e), snd (fst (demo_copy (snd demo_seek)))), snd (demo_copy (snd demo_seek)))"
    "std_Is e EOF" unfolding demo_copy_def by (rule eof_resultE)
  obtain r d2 w4 where "run_state (Download_Close id (snd (fst (demo_copy (snd demo_seek))))) (snd (demo_copy (snd demo_seek))) = ((r, d2), w4)"
    by (metis prod.collapse)
  from download_delivers [OF tree_read_laws x _ demo_download_local _ demo_opened k e this] show ?thesis by simp
qed

theorem upload_download_roundtrip_witness: "fst (fst (fst (demo_copy (snd demo_open)))) = [1, 2, 3]"
proof -
  have f: "clean_abs ''/data/a''" by code_simp
  have o: "up_SessionID demo_opts = ''00ff''" "up_TemporarySuffix demo_opts = ''.part''" by (simp_all add: demo_opts_def)
  have w: "run_state (upload_run id (map CallWrite [[1, 2], [3]]) (projr (fst demo_start))) (snd demo_start) = (fst demo_write, snd demo_write)"
    by (simp add: demo_write_def)
  have "fst (fst demo_close) = None" by code_simp
  then have c: "run_state (Upload_Close id (fst demo_write)) (snd demo_write) = ((None, snd (fst demo_close)), snd demo_close)"
    unfolding demo_close_def by (metis prod.collapse)
  have "eof_result (demo_copy (snd demo_open))" by code_simp
  then obtain e where e: "run_state (download_copy [2, 2, 2] (projr (fst demo_open))) (snd demo_open)
      = (((fst (fst (fst (demo_copy (snd demo_open)))), Some e), snd (fst (demo_copy (snd demo_open)))), snd (demo_copy (snd demo_open)))"
    "std_Is e EOF" unfolding demo_copy_def by (rule eof_resultE)
  obtain r d2 w4 where "run_state (Download_Close id (snd (fst (demo_copy (snd demo_open))))) (snd (demo_copy (snd demo_open))) = ((r, d2), w4)"
    by (metis prod.collapse)
  from upload_download_roundtrip [OF tree_read_laws f _ _ _ demo_callbacks(1) demo_download_local _ demo_started [unfolded demo_start_def]
    w [unfolded demo_start_def] c demo_opened e this] o
  show ?thesis by simp
qed

end
