(* ===== verification/ConcurrentUploads.thy ===== *)
theory ConcurrentUploads
  imports SftpFs
begin

text \<open>
  Uploads that run at the same time, also to the same name. The calls on their handles interleave
  in any order. Each upload has its own temporary file, so their contents cannot mix, and a target
  only ever changes by a rename of a complete temporary file or by its removal just before: at
  every moment it is what it was, absent, or the whole content of one upload (ADR 0005).
\<close>

section \<open>What a request leaves alone\<close>

text \<open>
  All but the files with paths in \<open>T\<close> have their content, and the handles open on them
  stay open.
\<close>

definition undisturbed ::
  "('s \<Rightarrow> string \<Rightarrow> bytes option) \<Rightarrow> ('s \<Rightarrow> handle \<Rightarrow> string option) \<Rightarrow> string set \<Rightarrow> 's \<Rightarrow> 's \<Rightarrow> bool" where
  "undisturbed view file T s s' \<longleftrightarrow> (\<forall>p. p \<notin> T \<longrightarrow> view s' p = view s p)
     \<and> (\<forall>g q. file s g = Some q \<and> q \<notin> T \<longrightarrow> file s' g = Some q)"

interpretation frame: guarantee "\<lambda>w w'. undisturbed view opn T (remote w) (remote w')" for view opn T
  by unfold_locales (auto simp: undisturbed_def)

definition confines ::
  "('s \<Rightarrow> string \<Rightarrow> bytes option) \<Rightarrow> ('s \<Rightarrow> handle \<Rightarrow> string option) \<Rightarrow> string set \<Rightarrow> (('s, 'm) world_scheme, 'a) state \<Rightarrow> bool" where
  "confines view file T m \<longleftrightarrow> state_io_rel (\<lambda>w w'. undisturbed view file T (remote w) (remote w')) m"

lemmas confines_rules = frame.g_return [folded confines_def] frame.g_gets [folded confines_def]
  frame.g_bind [folded confines_def] frame.g_if [folded confines_def] frame.g_sum [folded confines_def]
  frame.g_option [folded confines_def] frame.g_prod [folded confines_def]

lemma confinesD: "confines view file T m \<Longrightarrow> run_state m w = (x, w') \<Longrightarrow> undisturbed view file T (remote w) (remote w')"
  by (auto simp: confines_def)

lemma confines_send: "(\<And>s. undisturbed view file T s (snd (f s))) \<Longrightarrow> confines view file T (send q f)"
  by (simp add: confines_def state_io_rel_def run_send)

lemma undisturbed_mono: "undisturbed view file T s s' \<Longrightarrow> T \<subseteq> T' \<Longrightarrow> undisturbed view file T' s s'"
  unfolding undisturbed_def by blast

lemma confines_mono: "confines view file T m \<Longrightarrow> T \<subseteq> T' \<Longrightarrow> confines view file T' m"
  by (auto simp: confines_def state_io_rel_def intro: undisturbed_mono)

lemma confines_local: "keeps remote m \<Longrightarrow> confines view file T m"
  by (auto simp: keeps_def confines_def state_io_rel_def undisturbed_def)

text \<open>
  A request concerns only the files it names, and is carried out or not, whatever it reports: a
  removed file is still there or gone, a rename has moved the source over the destination or not.
\<close>

definition frame_laws ::
  "'s sftp_lib \<Rightarrow> ('s \<Rightarrow> string \<Rightarrow> bytes option) \<Rightarrow> ('s \<Rightarrow> handle \<Rightarrow> string option) \<Rightarrow> bool" where
  "frame_laws L view file \<longleftrightarrow> content_laws L view file
     \<and> (\<forall>h p s. undisturbed view file {} s (snd (lib_Lstat L h p s)) \<and> undisturbed view file {} s (snd (lib_Stat L h p s))
          \<and> undisturbed view file {} s (snd (lib_ReadLink L h p s)))
     \<and> (\<forall>h p s. undisturbed view file {p} s (snd (lib_OpenFile L h p create_flags s)))
     \<and> (\<forall>h p s. undisturbed view file {p} s (snd (lib_Remove L h p s)) \<and> view (snd (lib_Remove L h p s)) p \<in> {view s p, None})
     \<and> (\<forall>h p q s. undisturbed view file {p, q} s (snd (lib_Rename L h p q s))
          \<and> undisturbed view file {p, q} s (snd (lib_PosixRename L h p q s))
          \<and> view (snd (lib_Rename L h p q s)) q \<in> {view s q, view s p}
          \<and> view (snd (lib_PosixRename L h p q s)) q \<in> {view s q, view s p})
     \<and> (\<forall>f b s p. file s f = Some p \<longrightarrow> undisturbed view file {p} s (snd (file_Write L f b s))
          \<and> undisturbed view file {p} s (snd (file_Close L f s)))"

lemma frame_lawsD:
  assumes "frame_laws L view file"
  shows "content_laws L view file"
    and "undisturbed view file {} s (snd (lib_Lstat L h p s))" and "undisturbed view file {} s (snd (lib_Stat L h p s))"
    and "undisturbed view file {} s (snd (lib_ReadLink L h p s))"
    and "undisturbed view file {p} s (snd (lib_OpenFile L h p create_flags s))"
    and "undisturbed view file {p} s (snd (lib_Remove L h p s))" and "view (snd (lib_Remove L h p s)) p \<in> {view s p, None}"
    and "undisturbed view file {p, q} s (snd (lib_Rename L h p q s))"
    and "undisturbed view file {p, q} s (snd (lib_PosixRename L h p q s))"
    and "view (snd (lib_Rename L h p q s)) q \<in> {view s q, view s p}"
    and "view (snd (lib_PosixRename L h p q s)) q \<in> {view s q, view s p}"
    and "file s f = Some p \<Longrightarrow> undisturbed view file {p} s (snd (file_Write L f b s))"
    and "file s f = Some p \<Longrightarrow> undisturbed view file {p} s (snd (file_Close L f s))"
  using assms unfolding frame_laws_def by blast+

lemma tree_frame_laws: "frame_laws tree_lib tree_view tree_file"
  unfolding frame_laws_def
proof (intro conjI allI impI)
  show "content_laws tree_lib tree_view tree_file" by (rule tree_content_laws)
qed (auto simp: undisturbed_def tree_lib_def tree_Lstat_def tree_Stat_def tree_ReadLink_def tree_Close_def tree_OpenFile_def
      tree_Remove_def tree_Rename_def tree_PosixRename_def tree_Write_def node_data_def Let_def
      tree_file_def tree_view_def set_node_def drop_node_def map_of_filter_neq
      simp del: filter_filter split: if_splits option.splits node.splits)

section \<open>The client's operations\<close>


lemma confines_check:
  "frame_laws L view file \<Longrightarrow> confines view file {} (checkNoEscapingSymlink L c p)"
  unfolding checkNoEscapingSymlink_def Let_def by (intro confines_rules confines_send frame_lawsD)

lemma confines_Stat: "frame_laws L view file \<Longrightarrow> confines view file {} (Client_Stat L c p)"
  unfolding Client_Stat_def by (intro confines_rules confines_check confines_send frame_lawsD)

lemma confines_CreateTemp: "frame_laws L view file \<Longrightarrow> confines view file {p} (fs_CreateTemp (Client_RemoteFS L c) p)"
  unfolding Client_RemoteFS_def Client_CreateTemp_def by (simp, intro confines_rules confines_send frame_lawsD)

lemma confines_Remove: "frame_laws L view file \<Longrightarrow> confines view file {p} (Client_Remove L c p)"
  unfolding Client_Remove_def
  by (intro confines_rules confines_mono [OF confines_check] confines_send frame_lawsD) auto

lemma confines_Commit: "frame_laws L view file \<Longrightarrow> confines view file {p, q} (Client_Commit L c p q ow)"
  unfolding Client_Commit_def HasPosixRename_def rejectIfExists_def Let_def
  by (intro confines_rules confines_mono [OF confines_check] confines_send frame_lawsD
      undisturbed_mono [OF frame_lawsD(3)] undisturbed_mono [OF frame_lawsD(6)]) auto

text \<open>Whatever becomes of a commit, the target is as before, absent, or the temporary file.\<close>

lemma Commit_target:
  assumes "frame_laws L view file" and "p \<noteq> q" and "run_state (Client_Commit L c p q ow) w = (r, w')"
  shows "view (remote w') q \<in> {view (remote w) q, None, view (remote w) p}"
proof -
  obtain e w1 where 1: "run_state (checkNoEscapingSymlink L c q) w = (e, w1)" by fastforce
  have v: "view (remote w1) = view (remote w)"
    using confinesD [OF confines_check [OF assms(1)] 1] by (auto simp: undisturbed_def)
  have s: "view (snd (lib_Stat L h x s)) = view s" for h x s
    using frame_lawsD(3) [OF assms(1)] by (auto simp: undisturbed_def)
  have rm: "view (snd (lib_Remove L h q s)) p = view s p" for h s
    using frame_lawsD(6) [OF assms(1)] assms(2) by (auto simp: undisturbed_def)
  note l = frame_lawsD(7) [OF assms(1)] frame_lawsD(10,11) [OF assms(1)]
  show ?thesis
  proof (cases e)
    case None
    then show ?thesis
      using assms(3) l(1) [of "sftp c" q "snd (lib_Stat L (sftp c) q (remote w1))"]
        l(2) [of "sftp c" p q "snd (lib_Stat L (sftp c) q (remote w1))"]
        l(2) [of "sftp c" p q "snd (lib_Remove L (sftp c) q (snd (lib_Stat L (sftp c) q (remote w1))))"]
        l(3) [of "sftp c" p q "remote w1"] l(3) [of "sftp c" p q "snd (lib_Stat L (sftp c) q (remote w1))"]
      by (auto simp: Client_Commit_def HasPosixRename_def rejectIfExists_def run_send 1 v s rm Let_def
          split: option.splits if_splits sum.splits)
  next
    case (Some x)
    then show ?thesis using assms(3) v by (auto simp: Client_Commit_def 1)
  qed
qed

section \<open>One upload among others\<close>

text \<open>
  An open upload to which the bytes \<open>b\<close> were given: its handle is open on its temporary
  file, which has exactly these bytes unless the upload has failed.
\<close>

definition receiving ::
  "'s sftp_lib \<Rightarrow> ('s \<Rightarrow> string \<Rightarrow> bytes option) \<Rightarrow> ('s \<Rightarrow> handle \<Rightarrow> string option) \<Rightarrow> 's
     \<Rightarrow> bytes \<times> ('s, 'm) world_scheme UploadHandle \<Rightarrow> bool" where
  "receiving L view file s = (\<lambda>(b, u). \<exists>c h d. u_fs u = Client_RemoteFS L c \<and> u_file u = sftp_writer L h
     \<and> file s h = Some (u_tempPath u) \<and> view s (u_tempPath u) = Some d
     \<and> (if u_failed u then u_failErr u \<noteq> None else d = b))"

lemma receiving_undisturbed:
  "receiving L view file s (b, u) \<Longrightarrow> undisturbed view file T s s' \<Longrightarrow> u_tempPath u \<notin> T \<Longrightarrow> receiving L view file s' (b, u)"
  unfolding receiving_def undisturbed_def by fastforce

lemma Upload_Write_receiving:
  assumes "frame_laws L view file" and "receiving L view file (remote w) (b, u)"
    and "run_state (Upload_Write u p) w = ((r, u'), w')"
  shows "receiving L view file (remote w') (b @ p, u') \<and> undisturbed view file {u_tempPath u} (remote w) (remote w')"
proof -
  obtain c h d where u: "u_fs u = Client_RemoteFS L c" "u_file u = sftp_writer L h"
    "file (remote w) h = Some (u_tempPath u)" "view (remote w) (u_tempPath u) = Some d"
    "if u_failed u then u_failErr u \<noteq> None else d = b"
    using assms(2) by (auto simp: receiving_def)
  obtain n e s' where s: "file_Write L h p (remote w) = ((n, e), s')" by (metis prod.collapse)
  note law = content_law_write [OF frame_lawsD(1) [OF assms(1)] s u(3,4)]
  have "undisturbed view file {u_tempPath u} (remote w) s'" using frame_lawsD(12) [OF assms(1) u(3), of p] s by simp
  moreover have "undisturbed view file {u_tempPath u} (remote w) (remote w)" by (simp add: undisturbed_def)
  ultimately show ?thesis
    using assms(3) u law s
    by (auto simp: Upload_Write_def receiving_def run_send Let_def split: if_splits option.splits)
qed

lemma Upload_TransferError_receiving:
  "receiving L view file s (b, u) \<Longrightarrow> receiving L view file s (b, Upload_TransferError u (Some e))"
  unfolding receiving_def Upload_TransferError_def Let_def by auto

lemma local_callbacks_confines:
  assumes "local_callbacks opts"
  shows "confines view file T (run_Release (up_Release opts))" "confines view file T (run_OnComplete (up_OnComplete opts) r)"
  using assms by (auto simp: local_callbacks_def intro: confines_local)

text \<open>
  The two ways \<open>Close\<close> can take: a failed upload, or one whose file cannot be closed, removes its
  temporary file and reports an error; otherwise the commit decides. What follows the close of the
  file, and what follows the commit, keeps every guarantee that the removal and the callbacks keep.
\<close>

context guarantee
begin

lemma g_Upload_Close_failing:
  assumes "state_io_rel R (fs_Remove (u_fs u) (u_tempPath u))" and "state_io_rel R (run_Release (up_Release (u_opts u)))"
    and "\<And>x. state_io_rel R (run_OnComplete (up_OnComplete (u_opts u)) x)"
    and "\<not> u_closed u" and "u_failed u \<Longrightarrow> u_failErr u \<noteq> None" and "run_state (wc_Close (u_file u)) w = (e, w1)"
    and "u_failed u \<or> e \<noteq> None" and "run_state (Upload_Close sha u) w = ((r, u'), w')"
  shows "R w1 w' \<and> u_failed u' \<and> r \<noteq> None"
proof -
  let ?u = "note_close_error (u\<lparr>u_closed := True\<rparr>) e"
  let ?rest = "do { err \<leftarrow> upload_finish ?u (upload_result sha ?u); _ \<leftarrow> run_Release (up_Release (u_opts ?u)); return (err, ?u) }"
  have "state_io_rel R ?rest"
    unfolding upload_finish_def using assms(1-3,7) by (auto intro!: g_return g_bind)
  moreover have "run_state ?rest w1 = ((r, u'), w')" using assms(4,6,8) by (simp add: Upload_Close_def Let_def)
  ultimately have "R w1 w'" by auto
  moreover have "u_failed u' \<and> r \<noteq> None"
    using assms(4-8)
    by (auto simp: Upload_Close_def upload_finish_def note_close_error_def Let_def split: prod.splits if_splits)
  ultimately show ?thesis by blast
qed

lemma g_Upload_Close_committing:
  assumes "state_io_rel R (fs_Remove (u_fs u) (u_tempPath u))" and "state_io_rel R (run_Release (up_Release (u_opts u)))"
    and "\<And>x. state_io_rel R (run_OnComplete (up_OnComplete (u_opts u)) x)"
    and "\<not> u_closed u" and "\<not> u_failed u" and "run_state (wc_Close (u_file u)) w = (None, w1)"
    and "run_state (Upload_Close sha u) w = ((r, u'), w')"
  obtains w2 where "run_state (fs_Commit (u_fs u) (u_tempPath u) (u_finalPath u) (up_Overwrite (u_opts u))) w1 = (r, w2)"
    and "R w2 w'" and "\<not> u_failed u'"
proof -
  obtain cr w2 where 2: "run_state (fs_Commit (u_fs u) (u_tempPath u) (u_finalPath u) (up_Overwrite (u_opts u))) w1 = (cr, w2)"
    by fastforce
  let ?u = "u\<lparr>u_closed := True\<rparr>" and ?res = "upload_result sha (u\<lparr>u_closed := True\<rparr>)"
  let ?rest = "do {
    err \<leftarrow> (case cr of
        Some x \<Rightarrow> do {
          _ \<leftarrow> fs_Remove (u_fs u) (u_tempPath u);
          _ \<leftarrow> run_OnComplete (up_OnComplete (u_opts u)) (?res\<lparr>Phase := PhaseFailed, Err := Some x\<rparr>);
          return (Some x) }
      | None \<Rightarrow> do { _ \<leftarrow> run_OnComplete (up_OnComplete (u_opts u)) (?res\<lparr>Phase := PhaseCommitted\<rparr>); return None });
    _ \<leftarrow> run_Release (up_Release (u_opts u));
    return (err, ?u) }"
  have rest: "run_state ?rest w2 = ((r, u'), w')"
    using assms(4-7) 2
    by (auto simp: Upload_Close_def upload_finish_def note_close_error_def Let_def split: prod.splits option.splits)
  have "state_io_rel R ?rest" by (intro g_return g_bind g_option assms(1-3))
  with rest have "R w2 w'" by auto
  moreover have "u' = ?u \<and> r = cr" using rest by (auto split: prod.splits option.splits)
  ultimately show thesis using that 2 assms(5) by simp
qed

end

text \<open>
  Closing concerns only the temporary file and the target. The target may get the whole content of an
  upload that did not fail, and does so if no error is returned.
\<close>

lemma Upload_Close_receiving:
  assumes "frame_laws L view file" and "receiving L view file (remote w) (b, u)" and "\<not> u_closed u"
    and "local_callbacks (u_opts u)" and "u_tempPath u \<noteq> u_finalPath u"
    and "run_state (Upload_Close sha u) w = ((r, u'), w')"
  shows "undisturbed view file {u_tempPath u, u_finalPath u} (remote w) (remote w')
    \<and> view (remote w') (u_finalPath u) \<in> {view (remote w) (u_finalPath u), None} \<union> (if u_failed u' then {} else {Some b})
    \<and> (r = None \<longrightarrow> \<not> u_failed u' \<and> view (remote w') (u_finalPath u) = Some b)"
proof -
  obtain c h d where u: "u_fs u = Client_RemoteFS L c" "u_file u = sftp_writer L h"
    "file (remote w) h = Some (u_tempPath u)" "view (remote w) (u_tempPath u) = Some d"
    "if u_failed u then u_failErr u \<noteq> None else d = b"
    using assms(2) by (auto simp: receiving_def)
  obtain e w1 where 1: "run_state (wc_Close (u_file u)) w = (e, w1)" by fastforce
  have 11: "undisturbed view file {u_tempPath u} (remote w) (remote w1)" "view (remote w1) = view (remote w)"
    using 1 u(2) frame_lawsD(13) [OF assms(1) u(3)] content_lawsD(4) [OF frame_lawsD(1) [OF assms(1)]]
    by (auto simp: run_send)
  have rm: "state_io_rel (\<lambda>w w'. undisturbed view file {u_tempPath u} (remote w) (remote w')) (fs_Remove (u_fs u) (u_tempPath u))"
    using confines_Remove [OF assms(1)] u(1) by (simp add: confines_def)
  note cb = local_callbacks_confines [OF assms(4), unfolded confines_def]
  show ?thesis
  proof (cases "u_failed u \<or> e \<noteq> None")
    case True
    have "undisturbed view file {u_tempPath u} (remote w1) (remote w') \<and> u_failed u' \<and> r \<noteq> None"
      by (rule frame.g_Upload_Close_failing [OF rm cb assms(3) _ 1 True assms(6)]) (use u(5) in simp)
    with 11 assms(5) show ?thesis by (auto simp: undisturbed_def)
  next
    case False
    then have nf: "\<not> u_failed u" and c: "run_state (wc_Close (u_file u)) w = (None, w1)" using 1 by simp_all
    obtain w2 where 2: "run_state (Client_Commit L c (u_tempPath u) (u_finalPath u) (up_Overwrite (u_opts u))) w1 = (r, w2)"
      "undisturbed view file {u_tempPath u} (remote w2) (remote w')" "\<not> u_failed u'"
      using frame.g_Upload_Close_committing [OF rm cb assms(3) nf c assms(6)] u(1) by auto
    note confinesD [OF confines_Commit [OF assms(1)] 2(1)] Commit_target [OF assms(1,5) 2(1)]
      Commit_content [OF frame_lawsD(1) [OF assms(1)] assms(5), of c "up_Overwrite (u_opts u)" w1 w2]
    with 2 11 u(4,5) False assms(5) show ?thesis by (auto simp: undisturbed_def)
  qed
qed

section \<open>Uploads together\<close>

text \<open>
  A target and its options as the gateway makes them: a cleaned path other than the root that does
  not look like a temporary file, the configured suffix, and an identifier of the session of the
  common length of identifiers.
\<close>

definition temporary_name :: "string \<Rightarrow> string \<Rightarrow> bool" where
  "temporary_name suf p \<longleftrightarrow> Contains (path_Base p) (suf @ ''-'')"

definition proper_target :: "string \<Rightarrow> nat \<Rightarrow> string \<Rightarrow> ('s, 'm) world_scheme UploadOptions \<Rightarrow> bool" where
  "proper_target suf k final opts \<longleftrightarrow> clean_abs final \<and> final \<noteq> ''/'' \<and> \<not> temporary_name suf final
     \<and> up_TemporarySuffix opts = suf \<and> slash \<notin> set suf \<and> slash \<notin> set (up_SessionID opts)
     \<and> length (up_SessionID opts) = k \<and> local_callbacks opts"

text \<open>The state is the list of uploads, each with the bytes given to it so far, and the world.\<close>

definition not_in_use :: "string \<Rightarrow> 'w UploadOptions \<Rightarrow> (bytes \<times> 'w UploadHandle) list \<Rightarrow> bool" where
  "not_in_use final opts us \<longleftrightarrow>
     list_all (\<lambda>(b, u). u_closed u \<or> u_finalPath u \<noteq> final \<or> up_SessionID (u_opts u) \<noteq> up_SessionID opts) us"

inductive upload_step ::
  "(bytes \<Rightarrow> bytes) \<Rightarrow> 's sftp_lib \<Rightarrow> string \<Rightarrow> nat
     \<Rightarrow> (bytes \<times> ('s, 'm) world_scheme UploadHandle) list \<times> ('s, 'm) world_scheme
     \<Rightarrow> (bytes \<times> ('s, 'm) world_scheme UploadHandle) list \<times> ('s, 'm) world_scheme \<Rightarrow> bool"
  for sha L suf k where
  started: "proper_target suf k final opts \<Longrightarrow> not_in_use final opts us \<Longrightarrow>
    run_state (NewUpload (Client_RemoteFS L c) final opts) w = (Inr u, w') \<Longrightarrow> upload_step sha L suf k (us, w) (us @ [([], u)], w')"
| refused: "proper_target suf k final opts \<Longrightarrow> not_in_use final opts us \<Longrightarrow>
    run_state (NewUpload (Client_RemoteFS L c) final opts) w = (Inl e, w') \<Longrightarrow> upload_step sha L suf k (us, w) (us, w')"
| wrote: "i < length us \<Longrightarrow> us ! i = (b, u) \<Longrightarrow> \<not> u_closed u \<Longrightarrow>
    run_state (Upload_Write u p) w = ((r, u'), w') \<Longrightarrow> upload_step sha L suf k (us, w) (us[i := (b @ p, u')], w')"
| aborted: "i < length us \<Longrightarrow> us ! i = (b, u) \<Longrightarrow> \<not> u_closed u \<Longrightarrow>
    upload_step sha L suf k (us, w) (us[i := (b, Upload_TransferError u (Some e))], w)"
| closed: "i < length us \<Longrightarrow> us ! i = (b, u) \<Longrightarrow>
    run_state (Upload_Close sha u) w = ((r, u'), w') \<Longrightarrow> upload_step sha L suf k (us, w) (us[i := (b, u')], w')"

definition well_placed :: "string \<Rightarrow> nat \<Rightarrow> ('s, 'm) world_scheme UploadHandle \<Rightarrow> bool" where
  "well_placed suf k u \<longleftrightarrow> proper_target suf k (u_finalPath u) (u_opts u)
     \<and> u_tempPath u = TempPath (u_finalPath u) (up_SessionID (u_opts u)) suf"

lemma proper_target_temp:
  assumes "proper_target suf k final opts"
  shows "temporary_name suf (TempPath final (up_SessionID opts) suf)"
proof -
  have "clean_abs ''/''" by code_simp
  moreover have "WithinRoot ''/'' final" using assms by (simp add: proper_target_def WithinRoot_def clean_abs_def)
  ultimately show ?thesis
    using assms TempPath_beside_target [of "''/''" final suf "up_SessionID opts"]
    by (auto simp: proper_target_def temporary_name_def)
qed

lemma well_placed_temp:
  assumes "well_placed suf k u"
  shows "temporary_name suf (u_tempPath u)" and "\<not> temporary_name suf (u_finalPath u)" and "u_tempPath u \<noteq> u_finalPath u"
proof -
  have p: "proper_target suf k (u_finalPath u) (u_opts u)"
    and t: "u_tempPath u = TempPath (u_finalPath u) (up_SessionID (u_opts u)) suf" using assms by (simp_all add: well_placed_def)
  then show a: "temporary_name suf (u_tempPath u)" and b: "\<not> temporary_name suf (u_finalPath u)"
    using proper_target_temp [OF p] by (simp_all add: proper_target_def)
  show "u_tempPath u \<noteq> u_finalPath u" using a b by metis
qed

text \<open>The complete contents that were given to \<open>p\<close> by uploads that are closed and have not failed.\<close>

definition whole :: "(bytes \<times> 'w UploadHandle) list \<Rightarrow> string \<Rightarrow> bytes option set" where
  "whole us p = {Some b |b u. (b, u) \<in> set us \<and> u_closed u \<and> \<not> u_failed u \<and> u_finalPath u = p}"

definition apart :: "(bytes \<times> 'w UploadHandle) list \<Rightarrow> bool" where
  "apart us \<longleftrightarrow> (\<forall>i < length us. \<forall>j < length us. i \<noteq> j \<and> \<not> u_closed (snd (us ! i)) \<and> \<not> u_closed (snd (us ! j))
     \<longrightarrow> u_tempPath (snd (us ! i)) \<noteq> u_tempPath (snd (us ! j)))"

definition uploads_ok where
  "uploads_ok L view file suf k v us w \<longleftrightarrow> (\<forall>x \<in> set us. well_placed suf k (snd x))
     \<and> (\<forall>x \<in> set us. u_closed (snd x) \<or> receiving L view file (remote w) x) \<and> apart us
     \<and> (\<forall>p. \<not> temporary_name suf p \<longrightarrow> view (remote w) p \<in> {v p, None} \<union> whole us p)"

lemma uploads_ok_other:
  assumes "uploads_ok L view file suf k v us w" and "undisturbed view file T (remote w) (remote w')" and "x \<in> set us"
    and "\<not> u_closed (snd x)" and "u_tempPath (snd x) \<notin> T"
  shows "receiving L view file (remote w') x"
proof -
  have "receiving L view file (remote w) (fst x, snd x)" using assms(1,3,4) by (auto simp: uploads_ok_def)
  from receiving_undisturbed [OF this assms(2,5)] show ?thesis by simp
qed

text \<open>A step of the upload \<open>i\<close>.\<close>

lemma whole_update:
  assumes "i < length us" and "us ! i = (b, u)" and "\<not> u_closed u" and "u_finalPath u' = u_finalPath u"
  shows "whole us p \<subseteq> whole (us[i := (b', u')]) p"
    and "u_closed u' \<Longrightarrow> \<not> u_failed u' \<Longrightarrow> Some b' \<in> whole (us[i := (b', u')]) (u_finalPath u)"
proof -
  have "x \<in> set (us[i := (b', u')])" if "x \<in> set us" "u_closed (snd x)" for x
    using that assms(1-3) by (metis in_set_conv_nth length_list_update nth_list_update_neq snd_conv)
  then show "whole us p \<subseteq> whole (us[i := (b', u')]) p" unfolding whole_def by fastforce
  show "u_closed u' \<Longrightarrow> \<not> u_failed u' \<Longrightarrow> Some b' \<in> whole (us[i := (b', u')]) (u_finalPath u)"
    using assms(1,4) set_update_memI unfolding whole_def by fastforce
qed

lemma apart_update:
  assumes "apart us" and "i < length us" and "us ! i = (b, u)" and "\<not> u_closed u" and "u_tempPath u' = u_tempPath u"
  shows "apart (us[i := (b', u')])"
proof -
  have "\<forall>j < length us. j \<noteq> i \<and> \<not> u_closed (snd (us ! j)) \<longrightarrow> u_tempPath (snd (us ! j)) \<noteq> u_tempPath u"
    using assms(1-4) unfolding apart_def by force
  with assms(1,2,5) show ?thesis unfolding apart_def by (auto simp: nth_list_update)
qed

lemma apart_snoc:
  assumes "apart us" and "\<And>x. x \<in> set us \<Longrightarrow> \<not> u_closed (snd x) \<Longrightarrow> u_tempPath (snd x) \<noteq> u_tempPath u"
  shows "apart (us @ [(b, u)])"
proof -
  have "\<forall>j < length us. \<not> u_closed (snd (us ! j)) \<longrightarrow> u_tempPath (snd (us ! j)) \<noteq> u_tempPath u"
    using assms(2) by (meson nth_mem)
  with assms(1) show ?thesis unfolding apart_def by (auto simp: nth_append less_Suc_eq)
qed

lemma uploads_ok_update:
  assumes "uploads_ok L view file suf k v us w" and "i < length us" and "us ! i = (b, u)" and "\<not> u_closed u"
    and "u_tempPath u' = u_tempPath u" and "u_finalPath u' = u_finalPath u" and "u_opts u' = u_opts u"
    and "undisturbed view file {u_tempPath u, u_finalPath u} (remote w) (remote w')"
    and "u_closed u' \<or> receiving L view file (remote w') (b', u')"
    and "view (remote w') (u_finalPath u) \<in> {view (remote w) (u_finalPath u), None}
           \<union> (if u_closed u' \<and> \<not> u_failed u' then {Some b'} else {})"
  shows "uploads_ok L view file suf k v (us[i := (b', u')]) w'"
proof -
  let ?us = "us[i := (b', u')]"
  have u: "well_placed suf k u" using assms(1-3) by (metis nth_mem snd_conv uploads_ok_def)
  then have u': "well_placed suf k u'" using assms(5-7) by (simp add: well_placed_def)
  have a: "apart us" and w: "\<forall>x \<in> set us. well_placed suf k (snd x)" using assms(1) by (simp_all add: uploads_ok_def)
  have "apart ?us" using a assms(2-5) by (rule apart_update)
  moreover have "well_placed suf k (snd x)" if "x \<in> set ?us" for x
  proof -
    have "x = (b', u') \<or> x \<in> set us" using that set_update_subset_insert [of us i "(b', u')"] by blast
    with w u' show ?thesis by auto
  qed
  moreover have "u_closed (snd x) \<or> receiving L view file (remote w') x" if "x \<in> set ?us" for x
  proof -
    obtain j where j: "j < length us" "x = ?us ! j" using \<open>x \<in> set ?us\<close> by (metis in_set_conv_nth length_list_update)
    show ?thesis
    proof (cases "j = i")
      case False
      then have x: "x = us ! j" "x \<in> set us" using j by simp_all
      have "u_tempPath (snd x) \<notin> {u_tempPath u, u_finalPath u}" if "\<not> u_closed (snd x)"
        using that a False j(1) x assms(2-4) bspec [OF w x(2)] well_placed_temp(1) well_placed_temp(2) [OF u]
        unfolding apart_def by fastforce
      then show ?thesis using uploads_ok_other [OF assms(1,8) x(2)] by blast
    qed (use j assms(9) in simp)
  qed
  moreover have "view (remote w') p \<in> {v p, None} \<union> whole ?us p" if "\<not> temporary_name suf p" for p
  proof (cases "p = u_finalPath u")
    case True
    have "view (remote w) p \<in> {v p, None} \<union> whole us p" using assms(1) that by (simp add: uploads_ok_def)
    then show ?thesis
      using assms(10) whole_update(1) [OF assms(2-4,6), of p b'] whole_update(2) [OF assms(2-4,6), of b'] True
      by (auto split: if_splits)
  next
    case False
    moreover have "p \<noteq> u_tempPath u" using that well_placed_temp(1) [OF u] by auto
    ultimately have "view (remote w') p = view (remote w) p" using assms(8) by (simp add: undisturbed_def)
    then show ?thesis using assms(1) that whole_update(1) [OF assms(2-4,6), of p b'] unfolding uploads_ok_def by fastforce
  qed
  ultimately show ?thesis by (simp add: uploads_ok_def)
qed

text \<open>A new upload, whether it starts or not, concerns only its own temporary file.\<close>

lemma confines_NewUpload:
  assumes "frame_laws L view file"
  shows "confines view file {TempPath final (up_SessionID opts) (up_TemporarySuffix opts)} (NewUpload (Client_RemoteFS L c) final opts)"
  unfolding NewUpload_def Let_def
  by (intro confines_rules confines_CreateTemp [OF assms]) (auto intro: confines_mono [OF confines_Stat [OF assms]] confines_rules)

lemma proper_target_apart:
  assumes "proper_target suf k final opts" and "not_in_use final opts us" and "x \<in> set us" and "\<not> u_closed (snd x)"
    and "well_placed suf k (snd x)"
  shows "u_tempPath (snd x) \<noteq> TempPath final (up_SessionID opts) suf"
proof -
  have "u_finalPath (snd x) \<noteq> final \<or> up_SessionID (u_opts (snd x)) \<noteq> up_SessionID opts"
    using assms(2-4) by (auto simp: not_in_use_def list_all_iff)
  with assms(1,5) show ?thesis
    using TempPath_collision_free [of "u_finalPath (snd x)" final suf "up_SessionID (u_opts (snd x))" "up_SessionID opts"]
    by (auto simp: proper_target_def well_placed_def)
qed

lemma uploads_ok_disturbed:
  assumes "uploads_ok L view file suf k v us w" and "proper_target suf k final opts" and "not_in_use final opts us"
    and "undisturbed view file {TempPath final (up_SessionID opts) suf} (remote w) (remote w')"
  shows "uploads_ok L view file suf k v us w'"
proof -
  have w: "well_placed suf k (snd x)" if "x \<in> set us" for x using assms(1) that by (simp add: uploads_ok_def)
  have "u_closed (snd x) \<or> receiving L view file (remote w') x" if "x \<in> set us" for x
    using uploads_ok_other [OF assms(1,4) that] proper_target_apart [OF assms(2,3) that _ w [OF that]] by blast
  moreover have "view (remote w') p = view (remote w) p" if "\<not> temporary_name suf p" for p
  proof -
    have "p \<noteq> TempPath final (up_SessionID opts) suf" using that proper_target_temp [OF assms(2)] by auto
    with assms(4) show ?thesis by (simp add: undisturbed_def)
  qed
  ultimately show ?thesis using assms(1) w by (simp add: uploads_ok_def)
qed

lemma uploads_ok_started:
  assumes "frame_laws L view file" and "uploads_ok L view file suf k v us w" and "proper_target suf k final opts"
    and "not_in_use final opts us" and "run_state (NewUpload (Client_RemoteFS L c) final opts) w = (Inr u, w')"
  shows "uploads_ok L view file suf k v (us @ [([], u)]) w'"
proof -
  have suf: "up_TemporarySuffix opts = suf" using assms(3) by (simp add: proper_target_def)
  note u = NewUpload_Inr [OF assms(5)]
  have ok: "uploads_ok L view file suf k v us w'"
    using uploads_ok_disturbed [OF assms(2-4)] confinesD [OF confines_NewUpload [OF assms(1)] assms(5)] suf by simp
  have r: "receiving L view file (remote w') ([], u)"
    using NewUpload_content [OF frame_lawsD(1) [OF assms(1)] assms(5)] u by (fastforce simp: receiving_def)
  have p: "well_placed suf k u" using u assms(3) suf by (simp add: well_placed_def)
  have "u_tempPath (snd x) \<noteq> u_tempPath u" if "x \<in> set us" "\<not> u_closed (snd x)" for x
    using proper_target_apart [OF assms(3,4) that] ok that(1) u suf by (simp add: uploads_ok_def)
  then have "apart (us @ [([], u)])" using ok by (intro apart_snoc) (simp_all add: uploads_ok_def)
  moreover have "view (remote w') q \<in> {v q, None} \<union> whole (us @ [([], u)]) q" if "\<not> temporary_name suf q" for q
  proof -
    have "whole us q \<subseteq> whole (us @ [([], u)]) q" by (auto simp: whole_def)
    then show ?thesis using ok that unfolding uploads_ok_def by blast
  qed
  ultimately show ?thesis using ok r p by (simp add: uploads_ok_def)
qed

lemma uploads_ok_step:
  assumes "frame_laws L view file" and "upload_step sha L suf k (us, w) (us', w')" and "uploads_ok L view file suf k v us w"
  shows "uploads_ok L view file suf k v us' w'"
  using assms(2)
proof (cases rule: upload_step.cases)
  case (started final opts c u)
  then show ?thesis using uploads_ok_started [OF assms(1,3)] by blast
next
  case (refused final opts c e)
  then have "undisturbed view file {TempPath final (up_SessionID opts) suf} (remote w) (remote w')"
    using confinesD [OF confines_NewUpload [OF assms(1)] refused(4)] by (simp add: proper_target_def)
  then show ?thesis using uploads_ok_disturbed [OF assms(3) refused(2,3)] refused(1) by simp
next
  case (wrote i b u p r u')
  then have r: "receiving L view file (remote w) (b, u)" using assms(3) unfolding uploads_ok_def by (metis nth_mem snd_conv)
  have d: "undisturbed view file {u_tempPath u} (remote w) (remote w')" and r': "receiving L view file (remote w') (b @ p, u')"
    using Upload_Write_receiving [OF assms(1) r wrote(5)] by simp_all
  have "u_tempPath u \<noteq> u_finalPath u" using well_placed_temp(3) assms(3) wrote(2,3) unfolding uploads_ok_def by (metis nth_mem snd_conv)
  with d have "view (remote w') (u_finalPath u) = view (remote w) (u_finalPath u)" by (simp add: undisturbed_def)
  moreover have "undisturbed view file {u_tempPath u, u_finalPath u} (remote w) (remote w')"
    using d by (rule undisturbed_mono) auto
  ultimately show ?thesis
    using uploads_ok_update [OF assms(3) wrote(2,3,4), of u' w' "b @ p"] Upload_Write_fields [OF wrote(5)] r' wrote(1) by simp
next
  case (aborted i b u e)
  then have r: "receiving L view file (remote w) (b, u)" using assms(3) unfolding uploads_ok_def by (metis nth_mem snd_conv)
  show ?thesis
    using uploads_ok_update [OF assms(3) aborted(3,4,5), of "Upload_TransferError u (Some e)" w b]
      Upload_TransferError_receiving [OF r] aborted(1,2) by (simp add: undisturbed_def)
next
  case (closed i b u r u')
  show ?thesis
  proof (cases "u_closed u")
    case True
    with closed show ?thesis using assms(3) by (simp add: Upload_Close_def) (metis list_update_id)
  next
    case False
    then have r: "receiving L view file (remote w) (b, u)" using assms(3) closed unfolding uploads_ok_def by (metis nth_mem snd_conv)
    have p: "well_placed suf k u" using assms(3) closed(2,3) unfolding uploads_ok_def by (metis nth_mem snd_conv)
    then have "local_callbacks (u_opts u)" by (simp add: well_placed_def proper_target_def)
    from Upload_Close_receiving [OF assms(1) r False this well_placed_temp(3) [OF p] closed(4)] Upload_Close_fields [OF closed(4)]
    show ?thesis using uploads_ok_update [OF assms(3) closed(2,3) False, of u' w' b] closed(1) by (auto split: if_splits)
  qed
qed

lemma uploads_ok_reachable:
  assumes "frame_laws L view file" and "(upload_step sha L suf k)\<^sup>*\<^sup>* x y" and "uploads_ok L view file suf k v (fst x) (snd x)"
  shows "uploads_ok L view file suf k v (fst y) (snd y)"
  using assms(2,3)
proof (induction rule: rtranclp_induct)
  case (step y z)
  then show ?case using uploads_ok_step [OF assms(1), of sha suf k "fst y" "snd y" "fst z" "snd z" v] by simp
qed

text \<open>
  (C3) Uploads that run at the same time never mix, whatever targets they share and however their calls
  interleave. At every moment, each path that is not a temporary name holds what it held at the
  beginning, nothing, or the complete bytes of one upload to it that was closed without having
  failed, never a part of one or parts of two. And an upload whose \<open>Close\<close> returns no error has
  put exactly the bytes that were given to it under its target, whatever the other uploads are doing.
  The sessions' identifiers have a common length, no session uploads twice to the same target at the
  same time, and no target looks like a temporary file.
\<close>

theorem concurrent_uploads_whole:
  assumes "frame_laws L view file" and "(upload_step sha L suf k)\<^sup>*\<^sup>* ([], w0) (us, w)"
  shows "(\<forall>p. \<not> temporary_name suf p \<longrightarrow> view (remote w) p \<in> {view (remote w0) p, None} \<union> whole us p)
    \<and> (\<forall>(b, u) \<in> set us. \<forall>u' w'. \<not> u_closed u \<and> run_state (Upload_Close sha u) w = ((None, u'), w')
         \<longrightarrow> view (remote w') (u_finalPath u) = Some b)"
proof -
  have "uploads_ok L view file suf k (view (remote w0)) [] w0" by (simp add: uploads_ok_def apart_def)
  then have ok: "uploads_ok L view file suf k (view (remote w0)) us w" using uploads_ok_reachable [OF assms] by simp
  have "view (remote w') (u_finalPath u) = Some b"
    if "(b, u) \<in> set us" "\<not> u_closed u" "run_state (Upload_Close sha u) w = ((None, u'), w')" for b u u' w'
  proof -
    have r: "receiving L view file (remote w) (b, u)" and p: "well_placed suf k u" using ok that unfolding uploads_ok_def by force+
    have "local_callbacks (u_opts u)" using p by (simp add: well_placed_def proper_target_def)
    from Upload_Close_receiving [OF assms(1) r that(2) this well_placed_temp(3) [OF p] that(3)] show ?thesis by simp
  qed
  then show ?thesis using ok unfolding uploads_ok_def by blast
qed

text \<open>Two sessions upload to one name, chunk by chunk in turn; the first to close has its bytes there.\<close>

definition demo_rival :: "tree world UploadOptions" where
  "demo_rival = demo_opts\<lparr>up_SessionID := ''00fe'', up_Overwrite := True\<rparr>"

definition demo_second :: "tree world UploadHandle result \<times> tree world" where
  "demo_second = run_state (NewUpload (Client_RemoteFS tree_lib tree_client) ''/data/a'' demo_rival) (snd demo_start)"

definition demo_mine :: "((int \<times> go_error option) \<times> tree world UploadHandle) \<times> tree world" where
  "demo_mine = run_state (Upload_Write (projr (fst demo_start)) [1, 2]) (snd demo_second)"

definition demo_theirs :: "((int \<times> go_error option) \<times> tree world UploadHandle) \<times> tree world" where
  "demo_theirs = run_state (Upload_Write (projr (fst demo_second)) [9]) (snd demo_mine)"

lemma demo_interleaved:
  "(upload_step id tree_lib ''.part'' 4)\<^sup>*\<^sup>* ([], \<lparr>remote = empty_tree, wire = []\<rparr>)
     ([([1, 2], snd (fst demo_mine)), ([9], snd (fst demo_theirs))], snd demo_theirs)"
proof -
  let ?step = "upload_step id tree_lib ''.part'' 4" and ?a = "projr (fst demo_start)" and ?b = "projr (fst demo_second)"
  have c: "clean_abs ''/data/a''" "\<not> temporary_name ''.part'' ''/data/a''" by code_simp+
  then have p: "proper_target ''.part'' 4 ''/data/a'' demo_opts" "proper_target ''.part'' 4 ''/data/a'' demo_rival"
    using demo_callbacks(1) by (simp_all add: proper_target_def demo_rival_def demo_opts_def local_callbacks_def)
  have u: "up_SessionID (u_opts ?a) \<noteq> up_SessionID demo_rival" "\<not> u_closed ?a" "\<not> u_closed ?b" by code_simp+
  have "\<not> isl (fst demo_second)" by code_simp
  then have second: "demo_second = (Inr ?b, snd demo_second)" by (metis prod.collapse sum.collapse(2))
  have "?step ([], \<lparr>remote = empty_tree, wire = []\<rparr>) ([] @ [([], ?a)], snd demo_start)"
    using demo_started by (intro started [OF p(1), where c = tree_client]) (simp_all add: not_in_use_def demo_start_def [symmetric])
  moreover have "?step ([([], ?a)], snd demo_start) ([([], ?a)] @ [([], ?b)], snd demo_second)"
    using second u(1) by (intro started [OF p(2), where c = tree_client]) (simp_all add: not_in_use_def demo_second_def [symmetric])
  moreover have "?step ([([], ?a), ([], ?b)], snd demo_second) ([([], ?a), ([], ?b)][0 := ([] @ [1, 2], snd (fst demo_mine))], snd demo_mine)"
    using u(2) by (intro wrote [where r = "fst (fst demo_mine)"]) (simp_all add: demo_mine_def)
  moreover have "?step ([([1, 2], snd (fst demo_mine)), ([], ?b)], snd demo_mine)
      ([([1, 2], snd (fst demo_mine)), ([], ?b)][1 := ([] @ [9], snd (fst demo_theirs))], snd demo_theirs)"
    using u(3) by (intro wrote [where r = "fst (fst demo_theirs)"]) (simp_all add: demo_theirs_def)
  ultimately show ?thesis by (simp add: rtranclp.rtrancl_into_rtrancl)
qed

theorem concurrent_uploads_whole_witness:
  "tree_view (remote (snd (run_state (Upload_Close id (snd (fst demo_mine))) (snd demo_theirs)))) ''/data/a'' = Some [1, 2]"
proof -
  let ?c = "run_state (Upload_Close id (snd (fst demo_mine))) (snd demo_theirs)"
  have n: "fst (fst ?c) = None" "\<not> u_closed (snd (fst demo_mine))" "u_finalPath (snd (fst demo_mine)) = ''/data/a''" by code_simp+
  then have "?c = ((None, snd (fst ?c)), snd ?c)" by (metis prod.collapse)
  with concurrent_uploads_whole [OF tree_frame_laws demo_interleaved] n show ?thesis by auto
qed

end
