(* ===== verification/Interference.thy ===== *)
theory Interference
  imports ConcurrentUploads
begin

text \<open>
  An upload while others use the same server, with their requests falling between any two requests of its
  own, also inside one call: between the check of the target and the rename, or between the
  removal of the target and the rename. The others are an environment that acts before every request
  and may do anything except touch the upload's temporary file (the rely condition). Every request of the
  upload is observed at its target, so that the theorem speaks of what a reader can see at any moment.
\<close>

section \<open>A shared server\<close>

text \<open>
  The server with its environment: the number of requests so far, which selects what the environment
  does before the next, and what was found at the observed place before and after each request.
\<close>

record 's shared =
  sh_state :: 's
  sh_tick :: nat
  sh_seen :: "(bytes option \<times> bytes option) list"

definition around :: "(nat \<Rightarrow> 's \<Rightarrow> 's) \<Rightarrow> ('s \<Rightarrow> bytes option) \<Rightarrow> ('s \<Rightarrow> 'a \<times> 's) \<Rightarrow> 's shared \<Rightarrow> 'a \<times> 's shared" where
  "around env look f m =
     (let s = env (sh_tick m) (sh_state m); r = f s
      in (fst r, \<lparr>sh_state = snd r, sh_tick = Suc (sh_tick m), sh_seen = sh_seen m @ [(look s, look (snd r))]\<rparr>))"

definition shared_lib :: "(nat \<Rightarrow> 's \<Rightarrow> 's) \<Rightarrow> ('s \<Rightarrow> bytes option) \<Rightarrow> 's sftp_lib \<Rightarrow> 's shared sftp_lib" where
  "shared_lib env look L =
     \<lparr>lib_NewClient = (\<lambda>h. around env look (lib_NewClient L h)),
      lib_CloseSFTP = (\<lambda>h. around env look (lib_CloseSFTP L h)),
      lib_CloseSSH = (\<lambda>h. around env look (lib_CloseSSH L h)),
      lib_HasExtension = (\<lambda>h e m. lib_HasExtension L h e (sh_state m)),
      lib_Stat = (\<lambda>h p. around env look (lib_Stat L h p)),
      lib_Lstat = (\<lambda>h p. around env look (lib_Lstat L h p)),
      lib_ReadLink = (\<lambda>h p. around env look (lib_ReadLink L h p)),
      lib_ReadDirContext = (\<lambda>h d p. around env look (lib_ReadDirContext L h d p)),
      lib_OpenFile = (\<lambda>h p fl. around env look (lib_OpenFile L h p fl)),
      lib_Remove = (\<lambda>h p. around env look (lib_Remove L h p)),
      lib_RemoveDirectory = (\<lambda>h p. around env look (lib_RemoveDirectory L h p)),
      lib_Mkdir = (\<lambda>h p. around env look (lib_Mkdir L h p)),
      lib_Rename = (\<lambda>h p q. around env look (lib_Rename L h p q)),
      lib_PosixRename = (\<lambda>h p q. around env look (lib_PosixRename L h p q)),
      file_Write = (\<lambda>f b. around env look (file_Write L f b)),
      file_Read = (\<lambda>f n. around env look (file_Read L f n)),
      file_Seek = (\<lambda>f i j. around env look (file_Seek L f i j)),
      file_Close = (\<lambda>f. around env look (file_Close L f))\<rparr>"

lemma shared_lib_sel [simp]:
  "lib_Stat (shared_lib env look L) h p = around env look (lib_Stat L h p)"
  "lib_Lstat (shared_lib env look L) h p = around env look (lib_Lstat L h p)"
  "lib_ReadLink (shared_lib env look L) h p = around env look (lib_ReadLink L h p)"
  "lib_OpenFile (shared_lib env look L) h p fl = around env look (lib_OpenFile L h p fl)"
  "lib_Remove (shared_lib env look L) h p = around env look (lib_Remove L h p)"
  "lib_Rename (shared_lib env look L) h p q = around env look (lib_Rename L h p q)"
  "lib_PosixRename (shared_lib env look L) h p q = around env look (lib_PosixRename L h p q)"
  "file_Write (shared_lib env look L) f b = around env look (file_Write L f b)"
  "file_Close (shared_lib env look L) f = around env look (file_Close L f)"
  by (simp_all add: shared_lib_def)

section \<open>Rely and guarantee\<close>

text \<open>The environment leaves the file \<open>t\<close> and the handles on it alone.\<close>

definition rely ::
  "('s \<Rightarrow> string \<Rightarrow> bytes option) \<Rightarrow> ('s \<Rightarrow> handle \<Rightarrow> string option) \<Rightarrow> string \<Rightarrow> (nat \<Rightarrow> 's \<Rightarrow> 's) \<Rightarrow> bool" where
  "rely view file t env \<longleftrightarrow> (\<forall>k s. undisturbed view file (- {t}) s (env k s))"

text \<open>Requests that concern other files make such an environment, in any number and order.\<close>

lemma rely_requests:
  "(\<And>k s. \<exists>T. t \<notin> T \<and> undisturbed view file T s (env k s)) \<Longrightarrow> rely view file t env"
  unfolding rely_def by (metis ComplI subsetI singletonD undisturbed_mono)

lemma rely_compose: "rely view file t env \<Longrightarrow> rely view file t env' \<Longrightarrow> rely view file t (\<lambda>k s. env' k (env k s))"
  by (auto simp: rely_def undisturbed_def)

text \<open>
  What the upload guarantees of a step: every request leaves what it finds at the target or puts
  there one of the contents \<open>A\<close>. A calm step also leaves the temporary file alone.
\<close>

definition sees :: "bytes option set \<Rightarrow> 's shared \<Rightarrow> 's shared \<Rightarrow> bool" where
  "sees A m m' \<longleftrightarrow> (\<exists>xs. sh_seen m' = sh_seen m @ xs \<and> list_all (\<lambda>(x, y). y = x \<or> y \<in> A) xs)"

definition calm ::
  "('s \<Rightarrow> string \<Rightarrow> bytes option) \<Rightarrow> ('s \<Rightarrow> handle \<Rightarrow> string option) \<Rightarrow> string \<Rightarrow> bytes option set \<Rightarrow> 's shared \<Rightarrow> 's shared \<Rightarrow> bool" where
  "calm view file t A m m' \<longleftrightarrow> undisturbed view file (- {t}) (sh_state m) (sh_state m') \<and> sees A m m'"

lemma sees_trans: "sees A u v \<Longrightarrow> sees A v w \<Longrightarrow> sees A u w"
  by (auto simp: sees_def)

interpretation seeing: guarantee "\<lambda>w w'. sees A (remote w) (remote w')" for A
  by unfold_locales (simp add: sees_def, rule sees_trans)

interpretation calmness: guarantee "\<lambda>w w'. calm view opn t A (remote w) (remote w')" for view opn t A
proof unfold_locales
  show "calm view opn t A (remote w) (remote w)" for w by (simp add: calm_def undisturbed_def sees_def)
next
  show "calm view opn t A (remote u) (remote w)" if "calm view opn t A (remote u) (remote v)" "calm view opn t A (remote v) (remote w)" for u v w
    using that by (auto simp: calm_def undisturbed_def intro: sees_trans)
qed

lemmas sees_rules = seeing.g_return seeing.g_gets seeing.g_bind seeing.g_if seeing.g_sum seeing.g_option seeing.g_prod
lemmas calm_rules = calmness.g_return calmness.g_gets calmness.g_bind calmness.g_if calmness.g_sum calmness.g_option calmness.g_prod

lemma sees_mono: "sees A m m' \<Longrightarrow> A \<subseteq> B \<Longrightarrow> sees B m m'"
  unfolding sees_def by (auto elim!: list.pred_mono_strong)

lemma sees_between: "sees {} u v \<Longrightarrow> sees A v w \<Longrightarrow> sees {} w x \<Longrightarrow> sees A u x"
  by (meson empty_subsetI sees_mono sees_trans)

lemma seesD: "state_io_rel (\<lambda>w w'. sees A (remote w) (remote w')) m \<Longrightarrow> run_state m w = (x, w') \<Longrightarrow> sees A (remote w) (remote w')"
  by auto

lemma calmD: "state_io_rel (\<lambda>w w'. calm view file t A (remote w) (remote w')) m \<Longrightarrow> run_state m w = (x, w')
  \<Longrightarrow> calm view file t A (remote w) (remote w')"
  by auto

lemma sees_send:
  assumes "\<And>s. view (snd (f s)) q \<in> insert (view s q) A"
  shows "state_io_rel (\<lambda>w w'. sees A (remote w) (remote w')) (send r (around env (\<lambda>s. view s q) f))"
  using assms by (auto simp: state_io_rel_def run_send around_def Let_def sees_def)

lemma calm_send:
  assumes "rely view file t env" and "\<And>s. undisturbed view file T s (snd (f s))" and "t \<notin> T"
    and "\<And>s. view (snd (f s)) q \<in> insert (view s q) A"
  shows "state_io_rel (\<lambda>w w'. calm view file t A (remote w) (remote w')) (send r (around env (\<lambda>s. view s q) f))"
proof -
  have "undisturbed view file (- {t}) s (snd (f (env k s)))" for k s
    using assms(1-3) unfolding rely_def undisturbed_def by (metis ComplD ComplI singletonD singletonI)
  with assms(4) show ?thesis by (auto simp: state_io_rel_def run_send around_def Let_def sees_def calm_def)
qed

section \<open>The requests of an upload\<close>

text \<open>The client's operations on the shared server, with the target \<open>q\<close> and the temporary file \<open>t\<close>.\<close>

definition interfered ::
  "'s sftp_lib \<Rightarrow> ('s \<Rightarrow> string \<Rightarrow> bytes option) \<Rightarrow> ('s \<Rightarrow> handle \<Rightarrow> string option) \<Rightarrow> (nat \<Rightarrow> 's \<Rightarrow> 's) \<Rightarrow> string \<Rightarrow> string \<Rightarrow> bool" where
  "interfered L view file env t q \<longleftrightarrow> frame_laws L view file \<and> rely view file t env \<and> t \<noteq> q"

lemma interferedD:
  assumes "interfered L view file env t q"
  shows "frame_laws L view file" and "rely view file t env" and "t \<noteq> q"
  using assms by (simp_all add: interfered_def)

lemma undisturbed_view: "undisturbed view file T s s' \<Longrightarrow> p \<notin> T \<Longrightarrow> view s' p = view s p"
  by (simp add: undisturbed_def)

lemma calm_query:
  assumes "interfered L view file env t q" and "\<And>s. undisturbed view file {} s (snd (f s))"
  shows "state_io_rel (\<lambda>w w'. calm view file t A (remote w) (remote w')) (send r (around env (\<lambda>s. view s q) f))"
  by (rule calm_send [OF interferedD(2) [OF assms(1)] assms(2)]) (simp_all add: undisturbed_view [OF assms(2)])

lemma calm_check:
  assumes "interfered L view file env t q"
  shows "state_io_rel (\<lambda>w w'. calm view file t A (remote w) (remote w'))
    (checkNoEscapingSymlink (shared_lib env (\<lambda>s. view s q) L) c p)"
  unfolding checkNoEscapingSymlink_def Let_def shared_lib_sel
  by (intro calm_rules calm_query [OF assms] frame_lawsD [OF interferedD(1) [OF assms]])

lemma calm_Client_Stat:
  assumes "interfered L view file env t q"
  shows "state_io_rel (\<lambda>w w'. calm view file t A (remote w) (remote w')) (Client_Stat (shared_lib env (\<lambda>s. view s q) L) c p)"
  unfolding Client_Stat_def shared_lib_sel
  by (intro calm_rules calm_check [OF assms] calm_query [OF assms] frame_lawsD [OF interferedD(1) [OF assms]])

lemma calm_remove_target:
  assumes "interfered L view file env t q"
  shows "state_io_rel (\<lambda>w w'. calm view file t {None} (remote w) (remote w')) (send r (around env (\<lambda>s. view s q) (lib_Remove L h q)))"
  using frame_lawsD(6,7) [OF interferedD(1) [OF assms]] interferedD(3) [OF assms]
  by (intro calm_send [OF interferedD(2) [OF assms], of "{q}"]) auto

lemma sees_Client_Remove:
  assumes "interfered L view file env t q"
  shows "state_io_rel (\<lambda>w w'. sees A (remote w) (remote w')) (Client_Remove (shared_lib env (\<lambda>s. view s q) L) c t)"
proof -
  have c: "state_io_rel (\<lambda>w w'. sees A (remote w) (remote w')) (checkNoEscapingSymlink (shared_lib env (\<lambda>s. view s q) L) c t)"
    using calm_check [OF assms, of A c t] by (auto simp: state_io_rel_def calm_def)
  have "view (snd (lib_Remove L h t s)) q = view s q" for h s
    using undisturbed_view [OF frame_lawsD(6) [OF interferedD(1) [OF assms]]] interferedD(3) [OF assms] by auto
  then show ?thesis unfolding Client_Remove_def shared_lib_sel by (intro sees_rules c sees_send) simp
qed

lemma send_rename:
  assumes "interfered L view file env t q" and "view (sh_state (remote w)) t = d" and "f = lib_Rename L h t q \<or> f = lib_PosixRename L h t q"
    and "run_state (send r (around env (\<lambda>s. view s q) f)) w = (e, w')"
  shows "sees {d} (remote w) (remote w') \<and> (e = None \<longrightarrow> view (sh_state (remote w')) q = d)"
proof -
  let ?s = "env (sh_tick (remote w)) (sh_state (remote w))"
  note fl = interferedD(1) [OF assms(1)]
  have t: "view ?s t = d" using interferedD(2) [OF assms(1)] assms(2) by (simp add: rely_def undisturbed_def)
  have "view (snd (f ?s)) q \<in> {view ?s q, d}" using assms(3) t frame_lawsD(10,11) [OF fl] by metis
  moreover have "view (snd (f ?s)) q = d" if "fst (f ?s) = None"
    using assms(3) that t interferedD(3) [OF assms(1)] content_lawsD(6,7) [OF frame_lawsD(1) [OF fl]] by auto
  ultimately show ?thesis using assms(4) by (auto simp: run_send around_def Let_def sees_def)
qed

text \<open>
  \<open>commits\<close>: started with content \<open>d\<close> in the temporary file, the computation puts at the target
  nothing but that content or nothing at all, and if it returns no error the content is there. Calm
  steps may come first, and a rename comes last.
\<close>

definition commits ::
  "('s \<Rightarrow> string \<Rightarrow> bytes option) \<Rightarrow> string \<Rightarrow> string \<Rightarrow> bytes option \<Rightarrow> (('s shared, 'm) world_scheme, go_error option) state \<Rightarrow> bool" where
  "commits view t q d m \<longleftrightarrow> (\<forall>w r w'. view (sh_state (remote w)) t = d \<and> run_state m w = (r, w')
     \<longrightarrow> sees {None, d} (remote w) (remote w') \<and> (r = None \<longrightarrow> view (sh_state (remote w')) q = d))"

lemma commits_error: "commits view t q d (return (Some e))"
  by (simp add: commits_def sees_def)

lemma commits_calm:
  assumes "state_io_rel (\<lambda>w w'. calm view file t {None} (remote w) (remote w')) m" and "\<And>x. commits view t q d (f x)"
  shows "commits view t q d (State_Monad.bind m f)"
  unfolding commits_def
proof (intro allI impI)
  fix w r w' assume w: "view (sh_state (remote w)) t = d \<and> run_state (State_Monad.bind m f) w = (r, w')"
  obtain x v where 1: "run_state m w = (x, v)" by fastforce
  then have c: "calm view file t {None} (remote w) (remote v)" by (rule calmD [OF assms(1)])
  then have "view (sh_state (remote v)) t = d" using w by (simp add: calm_def undisturbed_def)
  moreover have "run_state (f x) v = (r, w')" using w 1 by simp
  ultimately have "sees {None, d} (remote v) (remote w') \<and> (r = None \<longrightarrow> view (sh_state (remote w')) q = d)"
    using assms(2) unfolding commits_def by blast
  moreover have "sees {None, d} (remote w) (remote v)" using c by (auto simp: calm_def intro: sees_mono)
  ultimately show "sees {None, d} (remote w) (remote w') \<and> (r = None \<longrightarrow> view (sh_state (remote w')) q = d)"
    by (blast intro: sees_trans)
qed

lemma commits_rename:
  assumes "interfered L view file env t q" and "f = lib_Rename L h t q \<or> f = lib_PosixRename L h t q"
  shows "commits view t q d (do { err \<leftarrow> send r (around env (\<lambda>s. view s q) f); return (translated op err) })"
  unfolding commits_def
proof (intro allI impI)
  fix w e w'
  assume w: "view (sh_state (remote w)) t = d
    \<and> run_state (do { err \<leftarrow> send r (around env (\<lambda>s. view s q) f); return (translated op err) }) w = (e, w')"
  obtain x v where 1: "run_state (send r (around env (\<lambda>s. view s q) f)) w = (x, v)" by fastforce
  then have "w' = v" "e = translated op x" using w by simp_all
  with send_rename [OF assms(1) _ assms(2) 1] w
  show "sees {None, d} (remote w) (remote w') \<and> (e = None \<longrightarrow> view (sh_state (remote w')) q = d)"
    by (auto simp: translated_def intro: sees_mono)
qed

lemma commits_if: "(b \<Longrightarrow> commits view t q d m1) \<Longrightarrow> (\<not> b \<Longrightarrow> commits view t q d m2) \<Longrightarrow> commits view t q d (if b then m1 else m2)"
  by simp

lemma commits_option:
  "commits view t q d m \<Longrightarrow> (\<And>a. commits view t q d (f a)) \<Longrightarrow> commits view t q d (case x of None \<Rightarrow> m | Some a \<Rightarrow> f a)"
  by (cases x) simp_all

lemma commits_Client_Commit:
  assumes "interfered L view file env t q"
  shows "commits view t q d (Client_Commit (shared_lib env (\<lambda>s. view s q) L) c t q ow)"
proof -
  have rej: "state_io_rel (\<lambda>w w'. calm view file t {None} (remote w) (remote w'))
    (if \<not> ow then rejectIfExists (shared_lib env (\<lambda>s. view s q) L) c q else return None)"
    unfolding rejectIfExists_def shared_lib_sel
    by (intro calm_rules calm_query [OF assms] frame_lawsD [OF interferedD(1) [OF assms]])
  have st: "state_io_rel (\<lambda>w w'. calm view file t {None} (remote w) (remote w')) (send r (around env (\<lambda>s. view s q) (lib_Stat L h q)))" for r h
    by (intro calm_query [OF assms] frame_lawsD [OF interferedD(1) [OF assms]])
  show ?thesis
    unfolding Client_Commit_def HasPosixRename_def shared_lib_sel Let_def
    by (intro commits_calm [OF calm_check [OF assms]] commits_calm [OF rej] commits_calm [OF st] commits_calm [OF calmness.g_gets]
        commits_calm [OF calmness.g_if [OF calm_remove_target [OF assms] calmness.g_return]] commits_if commits_option commits_error
        commits_rename [OF assms, where h = "sftp c"]) simp_all
qed

section \<open>Calls on the handle\<close>

text \<open>An open upload on the shared server, as before but with the environment in between.\<close>

abbreviation receives where
  "receives L view file env q \<equiv>
     receiving (shared_lib env (\<lambda>s. view s q) L) (\<lambda>m. view (sh_state m)) (\<lambda>m. file (sh_state m))"

lemma NewUpload_interfered:
  assumes "interfered L view file env t q" and "t = TempPath q (up_SessionID opts) (up_TemporarySuffix opts)"
    and "run_state (NewUpload (Client_RemoteFS (shared_lib env (\<lambda>s. view s q) L) c) q opts) w = (Inr u, w')"
  shows "receives L view file env q (remote w') ([], u) \<and> sees {} (remote w) (remote w')"
proof -
  let ?S = "shared_lib env (\<lambda>s. view s q) L"
  note fl = interferedD(1) [OF assms(1)]
  obtain r w1 where 1: "run_state (Client_Stat ?S c q) w = (r, w1)" by fastforce
  have s1: "sees {} (remote w) (remote w1)" using calmD [OF calm_Client_Stat [OF assms(1)] 1, of "{}"] by (simp add: calm_def)
  obtain w2 where 2: "run_state (fs_CreateTemp (Client_RemoteFS ?S c) t) w2 = (Inr (u_file u), w')" and w2: "w2 = w \<or> w2 = w1"
    using assms(2,3) 1 by (auto simp: NewUpload_def Let_def split: if_splits prod.splits option.splits sum.splits)
  obtain h where h: "u_file u = sftp_writer ?S h" "run_state (Client_CreateTemp ?S c t) w2 = (Inr h, w')"
    using 2 by (auto simp: run_CreateTemp_Inr)
  let ?s = "env (sh_tick (remote w2)) (sh_state (remote w2))"
  have o: "fst (lib_OpenFile L (sftp c) t create_flags ?s) = Inr h" "sh_state (remote w') = snd (lib_OpenFile L (sftp c) t create_flags ?s)"
    "sh_seen (remote w') = sh_seen (remote w2) @ [(view ?s q, view (snd (lib_OpenFile L (sftp c) t create_flags ?s)) q)]"
    using h(2) by (auto simp: Client_CreateTemp_def run_send around_def Let_def split: sum.splits)
  have "view (snd (lib_OpenFile L (sftp c) t create_flags ?s)) q = view ?s q"
    using undisturbed_view [OF frame_lawsD(5) [OF fl]] interferedD(3) [OF assms(1)] by auto
  then have "sees {} (remote w2) (remote w')" using o(3) by (simp add: sees_def)
  then have "sees {} (remote w) (remote w')" using w2 s1 by (auto intro: sees_trans)
  moreover have "receives L view file env q (remote w') ([], u)"
    using content_law_open [OF frame_lawsD(1) [OF fl] o(1)] o(2) h(1) NewUpload_Inr [OF assms(3)] assms(2)
    by (auto simp: receiving_def)
  ultimately show ?thesis by blast
qed

lemma Upload_Write_interfered:
  assumes "interfered L view file env (u_tempPath u) q" and "receives L view file env q (remote w) (b, u)"
    and "run_state (Upload_Write u p) w = ((r, u'), w')"
  shows "receives L view file env q (remote w') (b @ p, u') \<and> sees {} (remote w) (remote w')"
proof -
  let ?S = "shared_lib env (\<lambda>s. view s q) L" and ?s = "env (sh_tick (remote w)) (sh_state (remote w))"
  note fl = interferedD(1) [OF assms(1)]
  obtain c h d where u: "u_fs u = Client_RemoteFS ?S c" "u_file u = sftp_writer ?S h"
    "file (sh_state (remote w)) h = Some (u_tempPath u)" "view (sh_state (remote w)) (u_tempPath u) = Some d"
    "if u_failed u then u_failErr u \<noteq> None else d = b"
    using assms(2) by (auto simp: receiving_def)
  have s: "file ?s h = Some (u_tempPath u)" "view ?s (u_tempPath u) = Some d"
    using u(3,4) interferedD(2) [OF assms(1)] by (simp_all add: rely_def undisturbed_def)
  obtain n e s' where f: "file_Write L h p ?s = ((n, e), s')" by (metis prod.collapse)
  note law = content_law_write [OF frame_lawsD(1) [OF fl] f s]
  have q: "view s' q = view ?s q" using undisturbed_view [OF frame_lawsD(12) [OF fl s(1), of p]] interferedD(3) [OF assms(1)] f by auto
  obtain w1 where w: "run_state (wc_Write (u_file u) p) w = ((n, e), w1)" and w1: "sh_state (remote w1) = s'" "sees {} (remote w) (remote w1)"
    using f q by (simp add: u(2) run_send around_def Let_def sees_def)
  have "(w' = w \<and> r = (0, Some errTooLarge) \<and> u' = u\<lparr>u_failed := True, u_failErr := Some errTooLarge\<rparr>)
    \<or> (w' = w1 \<and> (if u_failed u' then u_failErr u' \<noteq> None else e = None \<and> d = b))"
    using assms(3) u(5) w by (auto simp: Upload_Write_def Let_def split: if_splits option.splits)
  then show ?thesis
  proof
    assume "w' = w \<and> r = (0, Some errTooLarge) \<and> u' = u\<lparr>u_failed := True, u_failErr := Some errTooLarge\<rparr>"
    with u show ?thesis by (auto simp: receiving_def sees_def)
  next
    assume "w' = w1 \<and> (if u_failed u' then u_failErr u' \<noteq> None else e = None \<and> d = b)"
    with u law w1 Upload_Write_fields [OF assms(3)] show ?thesis by (auto simp: receiving_def split: if_splits)
  qed
qed

text \<open>The bytes given to a handle by a run of calls, and such a run.\<close>

fun given :: "upload_call list \<Rightarrow> bytes" where
  "given [] = []"
| "given (CallWrite p # cs) = p @ given cs"
| "given (_ # cs) = given cs"

lemma upload_run_interfered:
  assumes "interfered L view file env (u_tempPath u) q" and "receives L view file env q (remote w) (b, u)"
    and "CallClose \<notin> set cs" and "CallTransferError None \<notin> set cs" and "run_state (upload_run sha cs u) w = (u', w')"
  shows "receives L view file env q (remote w') (b @ given cs, u') \<and> sees {} (remote w) (remote w')
    \<and> u_tempPath u' = u_tempPath u \<and> u_finalPath u' = u_finalPath u \<and> u_opts u' = u_opts u \<and> u_closed u' = u_closed u"
  using assms
proof (induction cs arbitrary: b u w)
  case Nil
  then show ?case by (simp add: sees_def)
next
  case (Cons x cs)
  show ?case
  proof (cases x)
    case (CallWrite p)
    obtain r u1 w1 where 1: "run_state (Upload_Write u p) w = ((r, u1), w1)" by (metis prod.collapse)
    note f = Upload_Write_fields [OF 1]
    note i = Upload_Write_interfered [OF Cons.prems(1,2) 1]
    have "run_state (upload_run sha cs u1) w1 = (u', w')" using Cons.prems(5) CallWrite 1 by simp
    from Cons.IH [OF _ _ _ _ this, of "b @ p"] show ?thesis using i f Cons.prems(1,3,4) CallWrite by (auto intro: sees_trans)
  next
    case (CallTransferError e)
    then obtain e' where e: "e = Some e'" using Cons.prems(4) by (cases e) auto
    have "receives L view file env q (remote w) (b, Upload_TransferError u (Some e'))"
      using Upload_TransferError_receiving [OF Cons.prems(2)] .
    moreover have "run_state (upload_run sha cs (Upload_TransferError u (Some e'))) w = (u', w')"
      using Cons.prems(5) CallTransferError e by simp
    ultimately show ?thesis using Cons.IH [of "Upload_TransferError u (Some e')" w b] Cons.prems(1,3,4) CallTransferError by simp
  qed (use Cons.prems in simp)
qed

lemma Upload_Close_interfered:
  assumes "interfered L view file env (u_tempPath u) q" and "receives L view file env q (remote w) (b, u)"
    and "u_finalPath u = q" and "\<not> u_closed u" and "local_callbacks (u_opts u)" and "run_state (Upload_Close sha u) w = ((r, u'), w')"
  shows "sees {None, Some b} (remote w) (remote w') \<and> (r = None \<longrightarrow> view (sh_state (remote w')) q = Some b)"
proof -
  let ?S = "shared_lib env (\<lambda>s. view s q) L" and ?s = "env (sh_tick (remote w)) (sh_state (remote w))"
  note fl = interferedD(1) [OF assms(1)]
  obtain c h d where u: "u_fs u = Client_RemoteFS ?S c" "u_file u = sftp_writer ?S h"
    "file (sh_state (remote w)) h = Some (u_tempPath u)" "view (sh_state (remote w)) (u_tempPath u) = Some d"
    "if u_failed u then u_failErr u \<noteq> None else d = b"
    using assms(2) by (auto simp: receiving_def)
  obtain e w1 where 1: "run_state (wc_Close (u_file u)) w = (e, w1)" by fastforce
  have "view (snd (file_Close L h ?s)) = view ?s" by (rule content_lawsD(4) [OF frame_lawsD(1) [OF fl]])
  moreover have "view ?s (u_tempPath u) = Some d" using u(4) interferedD(2) [OF assms(1)] by (simp add: rely_def undisturbed_def)
  ultimately have w1: "view (sh_state (remote w1)) (u_tempPath u) = Some d" "sees {} (remote w) (remote w1)"
    using 1 u(2) by (auto simp: run_send around_def Let_def sees_def)
  have rm: "state_io_rel (\<lambda>w w'. sees {} (remote w) (remote w')) (fs_Remove (u_fs u) (u_tempPath u))"
    using sees_Client_Remove [OF assms(1)] u(1) by simp
  have cb: "state_io_rel (\<lambda>w w'. sees {} (remote w) (remote w')) (run_Release (up_Release (u_opts u)))"
    "state_io_rel (\<lambda>w w'. sees {} (remote w) (remote w')) (run_OnComplete (up_OnComplete (u_opts u)) x)" for x
    using assms(5) by (auto simp: local_callbacks_def keeps_def state_io_rel_def sees_def)
  show ?thesis
  proof (cases "u_failed u \<or> e \<noteq> None")
    case True
    have "sees {} (remote w1) (remote w') \<and> u_failed u' \<and> r \<noteq> None"
      by (rule seeing.g_Upload_Close_failing [OF rm cb assms(4) _ 1 True assms(6)]) (use u(5) in simp)
    with w1(2) show ?thesis by (auto intro: sees_trans sees_mono)
  next
    case False
    then have nf: "\<not> u_failed u" and c: "run_state (wc_Close (u_file u)) w = (None, w1)" using 1 by simp_all
    note cm = commits_Client_Commit [OF assms(1), unfolded commits_def, rule_format, OF conjI, OF w1(1)]
    obtain w2 where 2: "run_state (Client_Commit ?S c (u_tempPath u) q (up_Overwrite (u_opts u))) w1 = (r, w2)"
      and s2: "sees {} (remote w2) (remote w')"
      using seeing.g_Upload_Close_committing [OF rm cb assms(4) nf c assms(6)] u(1) assms(3) by auto
    have "remote w' = remote w2" if "r = None"
    proof -
      from Upload_Close_committed [OF assms(6) [unfolded that] assms(4)] nf obtain v1 v2 v3 x where
        v: "run_state (wc_Close (u_file u)) w = (None, v1)"
        "run_state (fs_Commit (u_fs u) (u_tempPath u) (u_finalPath u) (up_Overwrite (u_opts u))) v1 = (None, v2)"
        "run_state (run_OnComplete (up_OnComplete (u_opts u)) x) v2 = ((), v3)"
        "run_state (run_Release (up_Release (u_opts u))) v3 = ((), w')" by metis
      have "remote v3 = remote v2" "remote w' = remote v3"
        using v(3,4) keepsD assms(5) unfolding local_callbacks_def by metis+
      moreover have "v2 = w2" using v(1,2) c 2 u(1) assms(3) by simp
      ultimately show ?thesis by simp
    qed
    with cm [OF 2] sees_between [OF w1(2) _ s2] u(5) nf show ?thesis by auto
  qed
qed

section \<open>The upload as a whole\<close>

text \<open>
  (C4) An upload is atomic among others that use the same server, down to single requests: whatever
  they do between any two of its requests, as long as they leave its temporary file alone, each
  request of the upload leaves its target as it found it, absent, or with exactly all the bytes that
  were given to the handle, so that no reader ever sees a part of the file; and when \<open>Close\<close> returns
  no error the target has exactly these bytes at that moment. It holds for every sequence of writes and
  transfer errors, with both kinds of commit, and whatever fails.
\<close>

theorem upload_atomic_under_interference:
  assumes "frame_laws L view file" and "rely view file (TempPath final (up_SessionID opts) (up_TemporarySuffix opts)) env"
    and "clean_abs final" "final \<noteq> ''/''" "slash \<notin> set (up_TemporarySuffix opts)" "slash \<notin> set (up_SessionID opts)"
    and "local_callbacks opts" and "CallClose \<notin> set cs" and "CallTransferError None \<notin> set cs"
    and "run_state (NewUpload (Client_RemoteFS (shared_lib env (\<lambda>s. view s final) L) c) final opts) w0 = (Inr u, w1)"
    and "run_state (upload_run sha cs u) w1 = (u1, w2)"
    and "run_state (Upload_Close sha u1) w2 = ((r, u2), w3)"
  shows "(\<exists>xs. sh_seen (remote w3) = sh_seen (remote w0) @ xs
      \<and> list_all (\<lambda>(before, after). after \<in> {before, None, Some (given cs)}) xs)
    \<and> (r = None \<longrightarrow> view (sh_state (remote w3)) final = Some (given cs))"
proof -
  let ?t = "TempPath final (up_SessionID opts) (up_TemporarySuffix opts)"
  note u = NewUpload_Inr [OF assms(10)]
  have i: "interfered L view file env ?t final"
    using assms(1,2) TempPath_neq [OF assms(3-6)] by (simp add: interfered_def)
  have 1: "receives L view file env final (remote w1) ([], u)" "sees {} (remote w0) (remote w1)"
    using NewUpload_interfered [OF i refl assms(10)] by simp_all
  have 2: "receives L view file env final (remote w2) (given cs, u1)" "sees {} (remote w1) (remote w2)"
    "u_tempPath u1 = ?t" "u_finalPath u1 = final" "u_opts u1 = opts" "\<not> u_closed u1"
    using upload_run_interfered [OF _ 1(1) assms(8,9,11)] i u by auto
  have 3: "sees {None, Some (given cs)} (remote w2) (remote w3) \<and> (r = None \<longrightarrow> view (sh_state (remote w3)) final = Some (given cs))"
    by (rule Upload_Close_interfered [OF _ 2(1,4,6) _ assms(12)]) (use i 2 assms(7) in simp_all)
  have "sees {None, Some (given cs)} (remote w0) (remote w3)"
    using sees_mono [OF sees_trans [OF 1(2) 2(2)] empty_subsetI] 3 by (blast intro: sees_trans)
  with 3 show ?thesis by (simp add: sees_def)
qed

text \<open>
  An upload of three bytes while somebody else puts a file of that name there just before its fourth request
  and again before its last one, the rename.
\<close>

definition demo_others :: "nat \<Rightarrow> tree \<Rightarrow> tree" where
  "demo_others k s = (if k = 3 \<or> k = 5 then set_node ''/data/a'' (FileNode [9]) s else s)"

abbreviation demo_shared :: "tree shared sftp_lib" where
  "demo_shared \<equiv> shared_lib demo_others (\<lambda>s. tree_view s ''/data/a'') tree_lib"

definition demo_shared_opts :: "tree shared world UploadOptions" where
  "demo_shared_opts = \<lparr>up_SessionID = ''00ff'', up_TransferID = ''01'', up_VirtualPath = ''/a'', up_MaxSize = 10,
     up_Overwrite = True, up_CalculateSHA256 = False, up_TemporarySuffix = ''.part'', up_OnComplete = None, up_Release = None\<rparr>"

definition demo_begin :: "tree shared world UploadHandle result \<times> tree shared world" where
  "demo_begin = run_state (NewUpload (Client_RemoteFS demo_shared tree_client) ''/data/a'' demo_shared_opts)
     \<lparr>remote = \<lparr>sh_state = empty_tree, sh_tick = 0, sh_seen = []\<rparr>, wire = []\<rparr>"

definition demo_calls :: "tree shared world UploadHandle \<times> tree shared world" where
  "demo_calls = run_state (upload_run id [CallWrite [1, 2], CallWrite [3]] (projr (fst demo_begin))) (snd demo_begin)"

definition demo_end :: "(go_error option \<times> tree shared world UploadHandle) \<times> tree shared world" where
  "demo_end = run_state (Upload_Close id (fst demo_calls)) (snd demo_calls)"

lemma demo_others_rely: "rely tree_view tree_file ''/data/a.part-00ff'' demo_others"
proof (rule rely_requests)
  show "\<exists>T. ''/data/a.part-00ff'' \<notin> T \<and> undisturbed tree_view tree_file T s (demo_others k s)" for k s
    by (rule exI [of _ "{''/data/a''}"]) (simp add: undisturbed_def demo_others_def)
qed

theorem upload_atomic_under_interference_witness:
  "sh_seen (remote (snd demo_end)) = [(None, None), (None, None), (None, None), (Some [9], Some [9]),
      (Some [9], Some [9]), (Some [9], Some [1, 2, 3])]
   \<and> tree_view (sh_state (remote (snd demo_end))) ''/data/a'' = Some [1, 2, 3]"
proof
  have f: "clean_abs ''/data/a''" "TempPath ''/data/a'' ''00ff'' ''.part'' = ''/data/a.part-00ff''" by code_simp+
  have "\<not> isl (fst demo_begin)" by code_simp
  then have b: "run_state (NewUpload (Client_RemoteFS demo_shared tree_client) ''/data/a'' demo_shared_opts)
     \<lparr>remote = \<lparr>sh_state = empty_tree, sh_tick = 0, sh_seen = []\<rparr>, wire = []\<rparr> = (Inr (projr (fst demo_begin)), snd demo_begin)"
    unfolding demo_begin_def by (metis prod.collapse sum.collapse(2))
  have r: "run_state (upload_run id [CallWrite [1, 2], CallWrite [3]] (projr (fst demo_begin))) (snd demo_begin) = (fst demo_calls, snd demo_calls)"
    by (simp add: demo_calls_def)
  have "fst (fst demo_end) = None" by code_simp
  then have e: "run_state (Upload_Close id (fst demo_calls)) (snd demo_calls) = ((None, snd (fst demo_end)), snd demo_end)"
    unfolding demo_end_def by (metis prod.collapse)
  have o: "up_SessionID demo_shared_opts = ''00ff''" "up_TemporarySuffix demo_shared_opts = ''.part''" "local_callbacks demo_shared_opts"
    by (simp_all add: demo_shared_opts_def local_callbacks_def run_Release_def run_OnComplete_def keeps_basic)
  show "tree_view (sh_state (remote (snd demo_end))) ''/data/a'' = Some [1, 2, 3]"
    using upload_atomic_under_interference [OF tree_frame_laws _ f(1) _ _ _ o(3) _ _ b r e] demo_others_rely
    by (simp add: o(1,2) f(2))
  show "sh_seen (remote (snd demo_end)) = [(None, None), (None, None), (None, None), (Some [9], Some [9]),
      (Some [9], Some [9]), (Some [9], Some [1, 2, 3])]" by code_simp
qed

end
